(* ===== verification/BB_Prelude.thy ===== *)
theory BB_Prelude
  imports Main "HOL-Library.Word"
begin

unbundle bit_operations_syntax

text \<open>
  Shared base of the development: the machine integers of the C sources, the programs with state and
  abrupt termination into which the C functions are translated, the weakest-precondition calculus
  used to reason about them, counted loops, and the error numbers of the Linux interface.
\<close>

section \<open>Machine integers and error numbers\<close>

type_synonym u8 = "8 word"
type_synonym u16 = "16 word"
type_synonym u32 = "32 word"
type_synonym u64 = "64 word"

text \<open>
  A C \<open>int\<close> that is only compared and returned is a HOL \<open>int\<close>; where the C code converts between
  \<open>int\<close> and \<open>unsigned int\<close> the conversion is written out with \<open>word_of_int\<close>, \<open>uint\<close> and \<open>sint\<close>.
  The error numbers are those of the Linux user interface headers.
\<close>

definition EPERM :: int where "EPERM = 1"
definition EINTR :: int where "EINTR = 4"
definition EIO :: int where "EIO = 5"
definition EAGAIN :: int where "EAGAIN = 11"
definition ENOMEM :: int where "ENOMEM = 12"
definition EBUSY :: int where "EBUSY = 16"
definition EINVAL :: int where "EINVAL = 22"
definition ENOTTY :: int where "ENOTTY = 25"

lemmas errno_defs = EPERM_def EINTR_def EIO_def EAGAIN_def ENOMEM_def EBUSY_def EINVAL_def ENOTTY_def

section \<open>Programs with state and abrupt termination\<close>

text \<open>
  A C function is translated into a program: it takes the state and yields either a result (\<open>Inr\<close>)
  or an abrupt end (\<open>Inl\<close>: a kernel oops, a process exit), together with the new state. There is no
  notation; \<open>bindE\<close> and \<open>seqE\<close> sequence programs in the order of the C statements.
\<close>

datatype ('s, 'e, 'a) prog = Prog (run: "'s \<Rightarrow> ('e + 'a) \<times> 's")

named_theorems prog_simps \<open>evaluation of the program combinators\<close>
named_theorems wp_simps \<open>weakest preconditions of the program combinators\<close>

definition ret :: "'a \<Rightarrow> ('s, 'e, 'a) prog" where
  "ret a = Prog (\<lambda>s. (Inr a, s))"

definition throw :: "'e \<Rightarrow> ('s, 'e, 'a) prog" where
  "throw e = Prog (\<lambda>s. (Inl e, s))"

definition bindE :: "('s, 'e, 'a) prog \<Rightarrow> ('a \<Rightarrow> ('s, 'e, 'b) prog) \<Rightarrow> ('s, 'e, 'b) prog" where
  "bindE m k = Prog (\<lambda>s. case run m s of (Inl e, t) \<Rightarrow> (Inl e, t) | (Inr a, t) \<Rightarrow> run (k a) t)"

definition seqE :: "('s, 'e, 'a) prog \<Rightarrow> ('s, 'e, 'b) prog \<Rightarrow> ('s, 'e, 'b) prog" where
  "seqE m n = bindE m (\<lambda>_. n)"

definition gets :: "('s \<Rightarrow> 'a) \<Rightarrow> ('s, 'e, 'a) prog" where
  "gets f = Prog (\<lambda>s. (Inr (f s), s))"

definition modify :: "('s \<Rightarrow> 's) \<Rightarrow> ('s, 'e, unit) prog" where
  "modify f = Prog (\<lambda>s. (Inr (), f s))"

definition if_then :: "bool \<Rightarrow> ('s, 'e, unit) prog \<Rightarrow> ('s, 'e, unit) prog" where
  "if_then b m = (if b then m else ret ())"

primrec for_each :: "'b list \<Rightarrow> ('b \<Rightarrow> ('s, 'e, unit) prog) \<Rightarrow> ('s, 'e, unit) prog" where
  "for_each [] body = ret ()"
| "for_each (x # xs) body = seqE (body x) (for_each xs body)"

lemma run_ret [simp, prog_simps]: "run (ret a) s = (Inr a, s)"
  by (simp add: ret_def)

lemma run_throw [simp, prog_simps]: "run (throw e) s = (Inl e, s)"
  by (simp add: throw_def)

lemma run_gets [simp, prog_simps]: "run (gets f) s = (Inr (f s), s)"
  by (simp add: gets_def)

lemma run_modify [simp, prog_simps]: "run (modify f) s = (Inr (), f s)"
  by (simp add: modify_def)

lemma run_bindE [prog_simps]:
  "run (bindE m k) s = (case run m s of (Inl e, t) \<Rightarrow> (Inl e, t) | (Inr a, t) \<Rightarrow> run (k a) t)"
  by (simp add: bindE_def)

lemma run_seqE [prog_simps]:
  "run (seqE m n) s = (case run m s of (Inl e, t) \<Rightarrow> (Inl e, t) | (Inr a, t) \<Rightarrow> run n t)"
  by (simp add: seqE_def bindE_def)

lemma if_then_simps [simp, prog_simps]:
  "if_then True m = m" "if_then False m = ret ()"
  by (simp_all add: if_then_def)

lemma run_if [prog_simps]: "run (if b then m else n) s = (if b then run m s else run n s)"
  by simp

lemma run_bindE_Inr: "run m s = (Inr a, t) \<Longrightarrow> run (bindE m k) s = run (k a) t"
  by (simp add: bindE_def)

lemma run_bindE_Inl: "run m s = (Inl e, t) \<Longrightarrow> run (bindE m k) s = (Inl e, t)"
  by (simp add: bindE_def)

lemma run_seqE_Inr: "run m s = (Inr a, t) \<Longrightarrow> run (seqE m n) s = run n t"
  by (simp add: run_seqE)

lemma run_seqE_Inl: "run m s = (Inl e, t) \<Longrightarrow> run (seqE m n) s = (Inl e, t)"
  by (simp add: run_seqE)

lemma prog_eqI: "(\<And>s. run m s = run n s) \<Longrightarrow> m = n"
  by (cases m; cases n) auto

lemma bindE_assoc: "bindE (bindE m k) l = bindE m (\<lambda>a. bindE (k a) l)"
  by (rule prog_eqI) (auto simp: run_bindE split: sum.splits prod.splits)

lemma seqE_assoc: "seqE (seqE m n) l = seqE m (seqE n l)"
  by (simp add: seqE_def bindE_assoc)

lemma bindE_ret_left [simp]: "bindE (ret a) k = k a"
  by (rule prog_eqI) (simp add: run_bindE)

lemma seqE_ret_left [simp]: "seqE (ret a) n = n"
  by (simp add: seqE_def)

lemma seqE_ret_unit: "seqE m (ret ()) = m"
  by (rule prog_eqI) (auto simp: run_seqE split: sum.splits prod.splits)

lemma for_each_append:
  "for_each (xs @ ys) body = seqE (for_each xs body) (for_each ys body)"
  by (induction xs) (simp_all add: seqE_assoc)

section \<open>Weakest preconditions\<close>

text \<open>
  \<open>wp m Q E s\<close>: started in \<open>s\<close>, the program ends normally with a result and a state in \<open>Q\<close>, or
  abruptly with a reason and a state in \<open>E\<close>.
\<close>

definition wp :: "('s, 'e, 'a) prog \<Rightarrow> ('a \<Rightarrow> 's \<Rightarrow> bool) \<Rightarrow> ('e \<Rightarrow> 's \<Rightarrow> bool) \<Rightarrow> 's \<Rightarrow> bool" where
  "wp m Q E s = (case run m s of (Inl e, t) \<Rightarrow> E e t | (Inr a, t) \<Rightarrow> Q a t)"

lemma wp_ret [wp_simps]: "wp (ret a) Q E s = Q a s"
  by (simp add: wp_def)

lemma wp_throw [wp_simps]: "wp (throw e) Q E s = E e s"
  by (simp add: wp_def)

lemma wp_gets [wp_simps]: "wp (gets f) Q E s = Q (f s) s"
  by (simp add: wp_def)

lemma wp_modify [wp_simps]: "wp (modify f) Q E s = Q () (f s)"
  by (simp add: wp_def)

lemma wp_bindE [wp_simps]: "wp (bindE m k) Q E s = wp m (\<lambda>a. wp (k a) Q E) E s"
  by (auto simp: wp_def run_bindE split: sum.splits prod.splits)

lemma wp_seqE [wp_simps]: "wp (seqE m n) Q E s = wp m (\<lambda>_. wp n Q E) E s"
  by (simp add: seqE_def wp_bindE)

lemma wp_if [wp_simps]:
  "wp (if b then m else n) Q E s = (if b then wp m Q E s else wp n Q E s)"
  by simp

lemma wp_if_then [wp_simps]: "wp (if_then b m) Q E s = (if b then wp m Q E s else Q () s)"
  by (simp add: if_then_def wp_ret)

lemma wp_mono:
  "wp m Q E s \<Longrightarrow> (\<And>a t. Q a t \<Longrightarrow> Q' a t) \<Longrightarrow> (\<And>e t. E e t \<Longrightarrow> E' e t) \<Longrightarrow> wp m Q' E' s"
  by (auto simp: wp_def split: sum.splits prod.splits)

lemma wp_InrD: "wp m Q E s \<Longrightarrow> run m s = (Inr a, t) \<Longrightarrow> Q a t"
  by (simp add: wp_def)

lemma wp_InlD: "wp m Q E s \<Longrightarrow> run m s = (Inl e, t) \<Longrightarrow> E e t"
  by (simp add: wp_def)

lemma wp_total: "wp m Q (\<lambda>_ _. False) s \<Longrightarrow> \<exists>a t. run m s = (Inr a, t) \<and> Q a t"
  by (cases "run m s"; cases "fst (run m s)") (auto simp: wp_def)

lemma wp_runI: "wp m (\<lambda>a u. a = r \<and> u = t) (\<lambda>_ _. False) s \<Longrightarrow> run m s = (Inr r, t)"
  using wp_total by fastforce

text \<open>
  \<open>keeps I m\<close>: the program keeps an invariant of the state, whichever way it ends.
\<close>

definition keeps :: "('s \<Rightarrow> bool) \<Rightarrow> ('s, 'e, 'a) prog \<Rightarrow> bool" where
  "keeps I p \<longleftrightarrow> (\<forall>s. I s \<longrightarrow> wp p (\<lambda>_. I) (\<lambda>_. I) s)"

named_theorems keeps_intros \<open>composition rules for invariants\<close>

lemma keeps_basic [keeps_intros]:
  "keeps I (ret a)" "keeps I (throw e)" "keeps I (gets f)"
  by (simp_all add: keeps_def wp_simps)

lemma keeps_modify [keeps_intros]: "(\<And>s. I s \<Longrightarrow> I (f s)) \<Longrightarrow> keeps I (modify f)"
  by (simp add: keeps_def wp_simps)

lemma keeps_bindE [keeps_intros]: "keeps I p \<Longrightarrow> (\<And>a. keeps I (k a)) \<Longrightarrow> keeps I (bindE p k)"
  unfolding keeps_def wp_bindE by (blast intro: wp_mono)

lemma keeps_seqE [keeps_intros]: "keeps I p \<Longrightarrow> keeps I q \<Longrightarrow> keeps I (seqE p q)"
  unfolding seqE_def by (rule keeps_bindE)

lemma keeps_if [keeps_intros]: "keeps I p \<Longrightarrow> keeps I q \<Longrightarrow> keeps I (if b then p else q)"
  by simp

lemma keeps_if_then [keeps_intros]: "keeps I p \<Longrightarrow> keeps I (if_then b p)"
  by (simp add: if_then_def keeps_basic)

lemma keeps_for_each [keeps_intros]: "(\<And>x. x \<in> set xs \<Longrightarrow> keeps I (body x)) \<Longrightarrow> keeps I (for_each xs body)"
  by (induction xs) (simp_all add: keeps_basic keeps_seqE)

lemma keepsD: "keeps I p \<Longrightarrow> I s \<Longrightarrow> wp p (\<lambda>_. I) (\<lambda>_. I) s"
  by (simp add: keeps_def)

lemma wp_conj: "wp p Q E s \<Longrightarrow> wp p Q' E' s \<Longrightarrow> wp p (\<lambda>a t. Q a t \<and> Q' a t) (\<lambda>e t. E e t \<and> E' e t) s"
  by (auto simp: wp_def split: sum.splits prod.splits)

text \<open>
  A counted loop keeps an invariant that is indexed by the part of the list already done.
\<close>

lemma wp_for_each:
  assumes "I [] s"
    and "\<And>ys x zs t. xs = ys @ x # zs \<Longrightarrow> I ys t \<Longrightarrow> wp (body x) (\<lambda>_. I (ys @ [x])) E t"
  shows "wp (for_each xs body) (\<lambda>_. I xs) E s"
proof -
  have "wp (for_each zs body) (\<lambda>_. I (ys @ zs)) E t" if "xs = ys @ zs" "I ys t" for ys zs t
    using that
  proof (induction zs arbitrary: ys t)
    case Nil
    then show ?case by (simp add: wp_ret)
  next
    case (Cons z zs)
    have step: "wp (body z) (\<lambda>_. I (ys @ [z])) E t"
      using assms(2) Cons.prems by blast
    have rest: "wp (for_each zs body) (\<lambda>_. I (ys @ z # zs)) E u" if "I (ys @ [z]) u" for u
      using Cons.IH [of "ys @ [z]" u] Cons.prems that by simp
    show ?case
      using wp_mono [OF step, of "\<lambda>_. wp (for_each zs body) (\<lambda>_. I (ys @ z # zs)) E" E] rest
      by (simp add: wp_seqE)
  qed
  from this [of "[]" xs s] assms(1) show ?thesis by simp
qed

end
