(* ===== verification/Kernel.thy ===== *)
theory Kernel
  imports BB_Prelude
begin

text \<open>
  What the drivers share of the kernel they run in. The kernel itself is not part of the repository:
  every answer it gives is an argument of the definition that asks for it. This theory only keeps
  the books: which resources the module has obtained and not yet given back (\<open>held\<close>), and the log
  of the calls whose order matters (\<open>klog\<close>: register accesses, deferred work, returns of something
  that is not held). Memory-mapped accesses outside every mapped window, dereferences of NULL and copies
  past the end of an array end a program abruptly.

  The two locales state the contract of a loadable module over its \<open>module_init\<close> and \<open>module_exit\<close>
  functions: \<open>module_balanced\<close> for a module whose exit undoes a successful load,
  \<open>module_lifecycle\<close> for one whose failed loads leave nothing behind as well. Their common client is
  a machine on which the module is loaded and unloaded any number of times.
\<close>

section \<open>Resources, log and faults\<close>

datatype kres =
    MemRegion u32 u32
  | IoWindow u32 u32
  | IrqAction u32
  | IrqDescs u32 nat
  | Kthread string
  | PlatformDriver string
  | PlatformDevice string
  | SpiDriver string
  | ChrdevRegion u32
  | DevClass string
  | CharDev u32
  | DevNode string u32
  | KMem u32
  | BusType string
  | DeviceReg string
  | DriverReg string
  | KObject string
  | SysfsFile string
  | NfHook string
  | PacketType string
  | NetdevRef string
  | Gpio u32
  | GpioExport u32
  | V4l2Device u32
  | VideoMem u32
  | VideoNode u32

datatype kevent =
    W32 u32 u32
  | W16 u32 u16
  | TaskletSchedule
  | TaskletKill
  | NestedIrq u32
  | Printk string
  | Misuse kres

text \<open>A task pointer: NULL, a task, or the error pointer that a failed \<open>kthread_run\<close> answers.\<close>

datatype task_ptr = KNull | KTask | KErr int

datatype koops = NullDeref | BadIo u32 | Overrun

record kst =
  held :: "kres list"
  klog :: "kevent list"

type_synonym ('z, 'a) kprog = "('z kst_scheme, koops, 'a) prog"

definition misuses :: "'z kst_scheme \<Rightarrow> kevent list" where
  "misuses s = filter (\<lambda>e. case e of Misuse _ \<Rightarrow> True | _ \<Rightarrow> False) (klog s)"

named_theorems kernel_simps \<open>evaluation of the kernel bookkeeping\<close>

definition klog_add :: "kevent \<Rightarrow> ('z, unit) kprog" where
  "klog_add e = modify (\<lambda>s. s\<lparr>klog := klog s @ [e]\<rparr>)"

definition acquire :: "kres \<Rightarrow> ('z, unit) kprog" where
  "acquire r = modify (\<lambda>s. s\<lparr>held := r # held s\<rparr>)"

text \<open>Giving back what is not held is recorded and execution goes on, as a kernel warning does.\<close>

definition release :: "kres \<Rightarrow> ('z, unit) kprog" where
  "release r = bindE (gets held) (\<lambda>h.
     if r \<in> set h then modify (\<lambda>s. s\<lparr>held := remove1 r (held s)\<rparr>)
     else klog_add (Misuse r))"

text \<open>
  Functions such as \<open>cdev_del\<close>, \<open>device_destroy\<close> and \<open>class_destroy\<close> do nothing when there is
  nothing to undo.
\<close>

definition put_if_held :: "kres \<Rightarrow> ('z, unit) kprog" where
  "put_if_held r = bindE (gets held) (\<lambda>h. if_then (r \<in> set h) (release r))"

text \<open>A call that returns 0 on success and obtains a resource only then.\<close>

definition acquire_if_ok :: "int \<Rightarrow> kres \<Rightarrow> ('z, int) kprog" where
  "acquire_if_ok r res = seqE (if_then (r = 0) (acquire res)) (ret r)"

lemma run_klog_add [prog_simps, kernel_simps]:
  "run (klog_add e) s = (Inr (), s\<lparr>klog := klog s @ [e]\<rparr>)"
  by (simp add: klog_add_def)

lemma run_acquire [prog_simps, kernel_simps]:
  "run (acquire r) s = (Inr (), s\<lparr>held := r # held s\<rparr>)"
  by (simp add: acquire_def)

lemma run_release [prog_simps, kernel_simps]:
  "run (release r) s =
     (if r \<in> set (held s) then (Inr (), s\<lparr>held := remove1 r (held s)\<rparr>)
      else (Inr (), s\<lparr>klog := klog s @ [Misuse r]\<rparr>))"
  by (simp add: release_def prog_simps)

lemma run_put_if_held [prog_simps, kernel_simps]:
  "run (put_if_held r) s = (Inr (), s\<lparr>held := remove1 r (held s)\<rparr>)"
  by (simp add: put_if_held_def prog_simps if_then_def remove1_idem)

lemma run_acquire_if_ok [prog_simps, kernel_simps]:
  "run (acquire_if_ok r res) s =
     (if r = 0 then (Inr r, s\<lparr>held := res # held s\<rparr>) else (Inr r, s))"
  by (simp add: acquire_if_ok_def prog_simps)

lemma wp_klog_add [wp_simps]: "wp (klog_add e) Q E s = Q () (s\<lparr>klog := klog s @ [e]\<rparr>)"
  by (simp add: wp_def run_klog_add)

lemma wp_acquire [wp_simps]: "wp (acquire r) Q E s = Q () (s\<lparr>held := r # held s\<rparr>)"
  by (simp add: wp_def run_acquire)

lemma wp_release [wp_simps]:
  "wp (release r) Q E s =
     (if r \<in> set (held s) then Q () (s\<lparr>held := remove1 r (held s)\<rparr>)
      else Q () (s\<lparr>klog := klog s @ [Misuse r]\<rparr>))"
  by (simp add: wp_def run_release)

lemma wp_put_if_held [wp_simps]:
  "wp (put_if_held r) Q E s = Q () (s\<lparr>held := remove1 r (held s)\<rparr>)"
  by (simp add: wp_def run_put_if_held)

lemma wp_acquire_if_ok [wp_simps]:
  "wp (acquire_if_ok r res) Q E s = (if r = 0 then Q r (s\<lparr>held := res # held s\<rparr>) else Q r s)"
  by (simp add: wp_def run_acquire_if_ok)

lemma misuses_simps [simp]:
  "misuses (s\<lparr>held := h\<rparr>) = misuses s"
  "misuses (s\<lparr>klog := klog s @ [Misuse r]\<rparr>) = misuses s @ [Misuse r]"
  "misuses (s\<lparr>klog := klog s @ [W32 a v]\<rparr>) = misuses s"
  "misuses (s\<lparr>klog := klog s @ [W16 a w]\<rparr>) = misuses s"
  "misuses (s\<lparr>klog := klog s @ [TaskletSchedule]\<rparr>) = misuses s"
  "misuses (s\<lparr>klog := klog s @ [TaskletKill]\<rparr>) = misuses s"
  "misuses (s\<lparr>klog := klog s @ [NestedIrq i]\<rparr>) = misuses s"
  "misuses (s\<lparr>klog := klog s @ [Printk t]\<rparr>) = misuses s"
  by (simp_all add: misuses_def)

section \<open>Driver structures\<close>

text \<open>
  A platform or SPI driver as it is handed to its bus: its name, the device tree strings it claims,
  and its two functions.
\<close>

record ('p, 'r) bus_driver =
  bd_name :: string
  bd_compatible :: "string list"
  bd_probe :: 'p
  bd_remove :: 'r

section \<open>Memory-mapped registers\<close>

text \<open>
  \<open>io_ok h a n\<close>: the \<open>n\<close> bytes at virtual address \<open>a\<close> lie inside one window of \<open>h\<close> obtained with
  \<open>ioremap_nocache\<close>. The value read from a register is the hardware's: a parameter.
\<close>

definition io_ok :: "kres list \<Rightarrow> u32 \<Rightarrow> nat \<Rightarrow> bool" where
  "io_ok h a n = list_ex (\<lambda>r. case r of
       IoWindow b l \<Rightarrow> unat b \<le> unat a \<and> unat a + n \<le> unat b + unat l
     | _ \<Rightarrow> False) h"

definition iowrite32 :: "u32 \<Rightarrow> u32 \<Rightarrow> ('z, unit) kprog" where
  "iowrite32 v a = bindE (gets held) (\<lambda>h.
     if io_ok h a 4 then klog_add (W32 a v) else throw (BadIo a))"

definition iowrite16 :: "u16 \<Rightarrow> u32 \<Rightarrow> ('z, unit) kprog" where
  "iowrite16 v a = bindE (gets held) (\<lambda>h.
     if io_ok h a 2 then klog_add (W16 a v) else throw (BadIo a))"

definition ioread32 :: "(u32 \<Rightarrow> u32) \<Rightarrow> u32 \<Rightarrow> ('z, u32) kprog" where
  "ioread32 hw a = bindE (gets held) (\<lambda>h. if io_ok h a 4 then ret (hw a) else throw (BadIo a))"

definition ioread16 :: "(u32 \<Rightarrow> u16) \<Rightarrow> u32 \<Rightarrow> ('z, u16) kprog" where
  "ioread16 hw a = bindE (gets held) (\<lambda>h. if io_ok h a 2 then ret (hw a) else throw (BadIo a))"

text \<open>The value a 32-bit register was last written with, according to the log.\<close>

fun last_write32 :: "u32 \<Rightarrow> kevent list \<Rightarrow> u32 option" where
  "last_write32 a [] = None"
| "last_write32 a (W32 b v # es) =
     (case last_write32 a es of None \<Rightarrow> if a = b then Some v else None | Some w \<Rightarrow> Some w)"
| "last_write32 a (e # es) = last_write32 a es"

lemma last_write32_append:
  "last_write32 a (es @ fs) = (case last_write32 a fs of None \<Rightarrow> last_write32 a es | Some w \<Rightarrow> Some w)"
  by (induction a es rule: last_write32.induct) (auto split: option.splits)

text \<open>\<open>ioremap_nocache\<close> answers a virtual base address, 0 (NULL) on failure.\<close>

definition ioremap_nocache :: "u32 \<Rightarrow> u32 \<Rightarrow> ('z, u32) kprog" where
  "ioremap_nocache vbase len = seqE (if_then (vbase \<noteq> 0) (acquire (IoWindow vbase len))) (ret vbase)"

text \<open>\<open>iounmap\<close> takes the base only: it removes the newest window that starts there.\<close>

fun window_at :: "u32 \<Rightarrow> kres list \<Rightarrow> kres option" where
  "window_at a [] = None"
| "window_at a (IoWindow b l # h) = (if b = a then Some (IoWindow b l) else window_at a h)"
| "window_at a (r # h) = window_at a h"

definition iounmap :: "u32 \<Rightarrow> ('z, unit) kprog" where
  "iounmap a = bindE (gets held) (\<lambda>h.
     case window_at a h of None \<Rightarrow> klog_add (Misuse (IoWindow a 0)) | Some r \<Rightarrow> release r)"

definition request_mem_region :: "bool \<Rightarrow> u32 \<Rightarrow> u32 \<Rightarrow> ('z, bool) kprog" where
  "request_mem_region free start len =
     seqE (if_then free (acquire (MemRegion start len))) (ret free)"

lemma wp_iowrite32 [wp_simps]:
  "wp (iowrite32 v a) Q E s =
     (if io_ok (held s) a 4 then Q () (s\<lparr>klog := klog s @ [W32 a v]\<rparr>) else E (BadIo a) s)"
  by (simp add: iowrite32_def wp_simps)

lemma wp_iowrite16 [wp_simps]:
  "wp (iowrite16 v a) Q E s =
     (if io_ok (held s) a 2 then Q () (s\<lparr>klog := klog s @ [W16 a v]\<rparr>) else E (BadIo a) s)"
  by (simp add: iowrite16_def wp_simps)

lemma wp_ioread32 [wp_simps]:
  "wp (ioread32 hw a) Q E s = (if io_ok (held s) a 4 then Q (hw a) s else E (BadIo a) s)"
  by (simp add: ioread32_def wp_simps)

lemma wp_ioread16 [wp_simps]:
  "wp (ioread16 hw a) Q E s = (if io_ok (held s) a 2 then Q (hw a) s else E (BadIo a) s)"
  by (simp add: ioread16_def wp_simps)

lemma wp_ioremap_nocache [wp_simps]:
  "wp (ioremap_nocache b l) Q E s =
     (if b = 0 then Q b s else Q b (s\<lparr>held := IoWindow b l # held s\<rparr>))"
  by (simp add: ioremap_nocache_def wp_simps)

lemma wp_request_mem_region [wp_simps]:
  "wp (request_mem_region free st l) Q E s =
     (if free then Q True (s\<lparr>held := MemRegion st l # held s\<rparr>) else Q False s)"
  by (simp add: request_mem_region_def wp_simps)

lemma wp_iounmap [wp_simps]:
  "wp (iounmap a) Q E s =
     (case window_at a (held s) of
        None \<Rightarrow> Q () (s\<lparr>klog := klog s @ [Misuse (IoWindow a 0)]\<rparr>)
      | Some r \<Rightarrow> wp (release r) Q E s)"
  by (simp add: iounmap_def wp_simps split: option.split)

lemma window_at_mem: "window_at a h = Some r \<Longrightarrow> r \<in> set h"
  by (induction a h rule: window_at.induct) (auto split: if_splits)

lemma io_ok_simps [simp]:
  "io_ok [] a n = False"
  "io_ok (IoWindow b l # h) a n =
     ((unat b \<le> unat a \<and> unat a + n \<le> unat b + unat l) \<or> io_ok h a n)"
  "io_ok (MemRegion b l # h) a n = io_ok h a n"
  "io_ok (IrqAction i # h) a n = io_ok h a n"
  "io_ok (IrqDescs i k # h) a n = io_ok h a n"
  by (simp_all add: io_ok_def)

lemma io_ok_iff:
  "io_ok h a n \<longleftrightarrow> (\<exists>b l. IoWindow b l \<in> set h \<and> unat b \<le> unat a \<and> unat a + n \<le> unat b + unat l)"
proof -
  have "(case r of IoWindow b l \<Rightarrow> unat b \<le> unat a \<and> unat a + n \<le> unat b + unat l | _ \<Rightarrow> False) \<longleftrightarrow>
      (\<exists>b l. r = IoWindow b l \<and> unat b \<le> unat a \<and> unat a + n \<le> unat b + unat l)" for r
    by (cases r) simp_all
  then show ?thesis by (auto simp: io_ok_def list_ex_iff)
qed

text \<open>
  An offset into a window that does not wrap around the address space is a good address.
\<close>

lemma io_ok_window:
  assumes "IoWindow b l \<in> set h" and "unat b + unat l \<le> 2 ^ 32" and "unat k + n \<le> unat l" and "0 < n"
  shows "io_ok h (b + k) n"
proof -
  have "unat b + unat k < 2 ^ LENGTH(32)" using assms(2-4) by simp
  then have "unat (b + k) = unat b + unat k" by (simp add: unat_word_ariths)
  with assms show ?thesis
    by (auto simp: io_ok_def list_ex_iff intro!: bexI [of _ "IoWindow b l"])
qed

section \<open>The contract of a loadable module\<close>

text \<open>
  \<open>module_init\<close> returns a negative number when the module cannot be loaded; \<open>module_exit\<close> runs only
  after a load that succeeded. \<open>load_unload\<close> loads and unloads the module once per entry of the
  list; each entry carries the kernel's answers for that load.
\<close>

definition load_once :: "('e \<Rightarrow> ('z, int) kprog) \<Rightarrow> ('e \<Rightarrow> ('z, unit) kprog) \<Rightarrow> 'e \<Rightarrow> ('z, unit) kprog"
  where
  "load_once init exit e = bindE (init e) (\<lambda>r. if r < 0 then ret () else exit e)"

definition load_unload ::
    "('e \<Rightarrow> ('z, int) kprog) \<Rightarrow> ('e \<Rightarrow> ('z, unit) kprog) \<Rightarrow> 'e list \<Rightarrow> ('z, unit) kprog" where
  "load_unload init exit es = for_each es (load_once init exit)"

text \<open>\<open>same_books s t\<close>: nothing was obtained or lost and nothing was given back wrongly.\<close>

definition same_books :: "'z kst_scheme \<Rightarrow> 'z kst_scheme \<Rightarrow> bool" where
  "same_books s t = (held t = held s \<and> misuses t = misuses s)"

lemma same_books_refl [simp]: "same_books s s"
  by (simp add: same_books_def)

lemma same_books_trans: "same_books s t \<Longrightarrow> same_books t u \<Longrightarrow> same_books s u"
  by (simp add: same_books_def)

locale module_balanced =
  fixes mod_init :: "'e \<Rightarrow> ('z, int) kprog"
    and mod_exit :: "'e \<Rightarrow> ('z, unit) kprog"
    and env_ok :: "'e \<Rightarrow> bool"
  assumes init_total: "env_ok e \<Longrightarrow> \<exists>r t. run (mod_init e) s = (Inr r, t)"
    and exit_undoes: "env_ok e \<Longrightarrow> run (mod_init e) s = (Inr r, t) \<Longrightarrow> \<not> r < 0 \<Longrightarrow>
      \<exists>u. run (mod_exit e) t = (Inr (), u) \<and> same_books s u"
begin

lemma loaded_once:
  assumes "env_ok e" "run (mod_init e) s = (Inr r, t)" "\<not> r < 0"
  shows "wp (load_once mod_init mod_exit e) (\<lambda>_. same_books s) (\<lambda>_ _. False) s"
  using assms exit_undoes [OF assms] by (auto simp: load_once_def wp_def run_bindE)

end

locale module_lifecycle = module_balanced +
  assumes failed_init: "env_ok e \<Longrightarrow> run (mod_init e) s = (Inr r, t) \<Longrightarrow> r < 0 \<Longrightarrow> same_books s t"
begin

lemma once:
  assumes "env_ok e"
  shows "wp (load_once mod_init mod_exit e) (\<lambda>_. same_books s) (\<lambda>_ _. False) s"
proof -
  obtain r t where init: "run (mod_init e) s = (Inr r, t)"
    using init_total [OF assms] by blast
  show ?thesis
  proof (cases "r < 0")
    case True
    with init failed_init [OF assms init] show ?thesis
      by (simp add: load_once_def wp_def run_bindE)
  qed (rule loaded_once [OF assms init])
qed

lemma cycles:
  assumes "\<forall>e\<in>set es. env_ok e"
  shows "\<exists>t. run (load_unload mod_init mod_exit es) s = (Inr (), t) \<and> same_books s t"
proof -
  have "wp (for_each es (load_once mod_init mod_exit)) (\<lambda>_. same_books s) (\<lambda>_ _. False) s"
  proof (rule wp_for_each [where I = "\<lambda>_. same_books s"])
    fix ys x zs t
    assume "es = ys @ x # zs" and t: "same_books s t"
    then have "wp (load_once mod_init mod_exit x) (\<lambda>_. same_books t) (\<lambda>_ _. False) t"
      using assms once by simp
    then show "wp (load_once mod_init mod_exit x) (\<lambda>_. same_books s) (\<lambda>_ _. False) t"
      by (rule wp_mono) (use t same_books_trans in blast)+
  qed simp
  from wp_total [OF this] show ?thesis by (simp add: load_unload_def)
qed

end

end
