(* ===== verification/C_String.thy ===== *)
theory C_String
  imports BB_Prelude "HOL-Library.Sublist"
begin

text \<open>
  The C library's string functions as the sources use them. A C string is the list of its
  characters before the terminating NUL, so the strings of the model hold no NUL (\<open>c_string\<close>);
  a character array of fixed size is the string it holds together with the size of the array, and
  a copy that does not fit is an error, never a silent truncation.
\<close>

abbreviation NUL :: char where "NUL \<equiv> CHR 0x00"

definition c_string :: "string \<Rightarrow> bool" where
  "c_string s = (NUL \<notin> set s)"

lemma c_string_simps [simp]:
  "c_string []"
  "c_string (c # s) = (c \<noteq> NUL \<and> c_string s)"
  "c_string (s @ t) = (c_string s \<and> c_string t)"
  by (auto simp: c_string_def)

definition strlen :: "string \<Rightarrow> nat" where
  "strlen s = length s"

section \<open>Comparison\<close>

text \<open>The character a C pointer to the string sees: its first one, or the terminating NUL.\<close>

definition char_at :: "string \<Rightarrow> char" where
  "char_at s = (case s of [] \<Rightarrow> NUL | c # _ \<Rightarrow> c)"

fun strncmp :: "string \<Rightarrow> string \<Rightarrow> nat \<Rightarrow> int" where
  "strncmp s t 0 = 0"
| "strncmp s t (Suc n) =
     (let a = char_at s; b = char_at t in
      if a \<noteq> b then int (of_char a) - int (of_char b)
      else if a = NUL then 0
      else strncmp (tl s) (tl t) n)"

lemma char_at_simps [simp]: "char_at [] = NUL" "char_at (c # s) = c"
  by (simp_all add: char_at_def)

lemma char_diff_zero [simp]: "(int (of_char a) - int (of_char b) = 0) = (a = b)" for a b :: char
  by simp

lemma of_char_pos [simp]: "0 < (of_char c :: nat) \<longleftrightarrow> c \<noteq> NUL" for c :: char
proof -
  have "(of_char c :: nat) = of_char NUL \<longleftrightarrow> c = NUL" by (rule of_char_eq_iff)
  then show ?thesis by auto
qed

lemma strncmp_take:
  "c_string s \<Longrightarrow> c_string t \<Longrightarrow> strncmp s t n = 0 \<longleftrightarrow> take n s = take n t"
proof (induction s t n rule: strncmp.induct)
  case (1 s t)
  then show ?case by simp
next
  case (2 s t n)
  then show ?case
    by (cases s; cases t) (auto simp: Let_def)
qed

text \<open>Comparing as many characters as the second string has is a test for a prefix.\<close>

lemma strncmp_prefix:
  assumes "c_string s" "c_string t"
  shows "strncmp s t (strlen t) = 0 \<longleftrightarrow> prefix t s"
proof -
  have "take (length t) s = t \<longleftrightarrow> prefix t s"
    by (metis append_eq_conv_conj prefix_def take_is_prefix)
  then show ?thesis using strncmp_take [OF assms, of "length t"] by (simp add: strlen_def)
qed

section \<open>Copying and printing\<close>

text \<open>\<open>strcpy\<close> into an array of \<open>n\<close> bytes: the string and its NUL must fit.\<close>

definition strcpy_into :: "nat \<Rightarrow> string \<Rightarrow> string option" where
  "strcpy_into n src = (if strlen src < n then Some src else None)"

text \<open>\<open>strlcpy\<close> truncates to the size of the destination.\<close>

definition strlcpy :: "nat \<Rightarrow> string \<Rightarrow> string" where
  "strlcpy n src = (if n = 0 then [] else take (n - 1) src)"

text \<open>\<open>snprintf\<close>: the length the whole text would have, and the text that was stored.\<close>

definition snprintf :: "nat \<Rightarrow> string \<Rightarrow> int \<times> string" where
  "snprintf n text = (int (strlen text), if n = 0 then [] else take (n - 1) text)"

lemma strlcpy_length: "0 < n \<Longrightarrow> strlen (strlcpy n s) < n"
  by (auto simp: strlcpy_def strlen_def min_def)

lemma strlcpy_fits: "strlen s < n \<Longrightarrow> strlcpy n s = s"
  by (simp add: strlcpy_def strlen_def)

lemma snprintf_fits: "fst (snprintf n s) < int n \<longleftrightarrow> snprintf n s = (int (strlen s), s) \<and> 0 < n"
  by (auto simp: snprintf_def strlen_def)

section \<open>Decimal numbers\<close>

definition digit_char :: "nat \<Rightarrow> char" where
  "digit_char d = char_of (48 + d)"

definition is_digit :: "char \<Rightarrow> bool" where
  "is_digit c = (48 \<le> (of_char c :: nat) \<and> (of_char c :: nat) \<le> 57)"

definition digit_val :: "char \<Rightarrow> nat" where
  "digit_val c = of_char c - 48"

text \<open>\<open>printf\<close> of \<open>%d\<close> and \<open>%u\<close> on a number that is not negative.\<close>

fun dec :: "nat \<Rightarrow> string" where
  "dec n = (if n < 10 then [digit_char n] else dec (n div 10) @ [digit_char (n mod 10)])"

declare dec.simps [simp del]

text \<open>\<open>printf\<close> of \<open>%x\<close>.\<close>

fun hex :: "nat \<Rightarrow> string" where
  "hex n =
     (if n < 16 then [char_of (if n < 10 then 48 + n else 87 + n)]
      else hex (n div 16) @ [char_of (if n mod 16 < 10 then 48 + n mod 16 else 87 + n mod 16)])"

declare hex.simps [simp del]

text \<open>\<open>printf\<close> of \<open>%.4X\<close>: upper case, at least four digits.\<close>

fun HEX :: "nat \<Rightarrow> string" where
  "HEX n =
     (if n < 16 then [char_of (if n < 10 then 48 + n else 55 + n)]
      else HEX (n div 16) @ [char_of (if n mod 16 < 10 then 48 + n mod 16 else 55 + n mod 16)])"

declare HEX.simps [simp del]

definition HEX4 :: "nat \<Rightarrow> string" where
  "HEX4 n = replicate (4 - length (HEX n)) (CHR ''0'') @ HEX n"

text \<open>The digits at the front of a string, read from an accumulator on, and the white space \<open>scanf\<close> skips.\<close>

fun read_digits :: "nat \<Rightarrow> string \<Rightarrow> nat" where
  "read_digits acc [] = acc"
| "read_digits acc (c # s) = (if is_digit c then read_digits (10 * acc + digit_val c) s else acc)"

definition is_space :: "char \<Rightarrow> bool" where
  "is_space c = (c = CHR '' '' \<or> (9 \<le> (of_char c :: nat) \<and> (of_char c :: nat) \<le> 13))"

text \<open>
  \<open>sscanf(buf, "%u", &x)\<close>: white space is skipped; with no digit there the conversion fails and
  \<open>x\<close> keeps its value; otherwise \<open>x\<close> gets the number, as 32 bits.
\<close>

definition sscanf_u :: "string \<Rightarrow> u32 option" where
  "sscanf_u buf =
     (case dropWhile is_space buf of
        [] \<Rightarrow> None
      | c # s \<Rightarrow> if is_digit c then Some (word_of_nat (read_digits 0 (c # s))) else None)"

lemma of_char_digit_char: "d < 10 \<Longrightarrow> (of_char (digit_char d) :: nat) = 48 + d"
  by (simp add: digit_char_def)

lemma digit_char_literals [simp]:
  "digit_char 0 = CHR ''0''" "digit_char (Suc 0) = CHR ''1''" "digit_char 1 = CHR ''1''"
  "digit_char 2 = CHR ''2''" "digit_char 3 = CHR ''3''" "digit_char 4 = CHR ''4''"
  "digit_char 5 = CHR ''5''" "digit_char 6 = CHR ''6''" "digit_char 7 = CHR ''7''"
  "digit_char 8 = CHR ''8''" "digit_char 9 = CHR ''9''"
  by (simp_all add: digit_char_def char_of_def bit_Suc_0_iff)

lemma digit_char_simps [simp]:
  assumes "d < 10"
  shows "is_digit (digit_char d)" "digit_val (digit_char d) = d" "\<not> is_space (digit_char d)"
  using of_char_digit_char [OF assms] assms
  by (auto simp: is_digit_def digit_val_def is_space_def)

lemma read_digits_append:
  "(\<forall>c\<in>set s. is_digit c) \<Longrightarrow> read_digits acc (s @ t) = read_digits (read_digits acc s) t"
  by (induction s arbitrary: acc) simp_all

lemma dec_digits: "\<forall>c\<in>set (dec n). is_digit c"
proof (induction n rule: dec.induct)
  case (1 n)
  then show ?case by (subst dec.simps) auto
qed

lemma dec_nonempty: "dec n \<noteq> []"
  by (subst dec.simps) simp

lemma read_digits_dec: "read_digits 0 (dec n) = n"
proof (induction n rule: dec.induct)
  case (1 n)
  show ?case
  proof (cases "n < 10")
    case False
    have "read_digits 0 (dec n) = read_digits (read_digits 0 (dec (n div 10))) [digit_char (n mod 10)]"
      using False by (subst dec.simps) (simp add: read_digits_append dec_digits)
    with 1 [OF False] show ?thesis by simp
  qed (simp add: dec.simps [of n])
qed

text \<open>Round trip: scanning a printed number, with anything but a digit after it, gives it back.\<close>

lemma sscanf_u_dec:
  assumes "rest = [] \<or> \<not> is_digit (hd rest)"
  shows "sscanf_u (dec n @ rest) = Some (word_of_nat n)"
proof -
  obtain c s where d: "dec n = c # s" using dec_nonempty by (cases "dec n") auto
  then have c: "is_digit c" using dec_digits [of n] by simp
  then have "\<not> is_space c" by (auto simp: is_digit_def is_space_def)
  moreover have "read_digits 0 (c # s @ rest) = n"
    using read_digits_append [OF dec_digits, of 0 n rest] assms read_digits_dec [of n] d
    by (cases rest) auto
  ultimately show ?thesis
    by (simp only: sscanf_u_def d append_Cons dropWhile.simps if_False list.case c if_True)
qed

end
