(* ===== verification/Custom_Bus.thy ===== *)
theory Custom_Bus
  imports Kernel C_String
begin

text \<open>
  The custom bus of the Linux device model example: \<open>src/lkml/ldm/bus/custom_device.c\<close> with the
  structures of \<open>src/lkml/ldm/include/custom_bus.h\<close>. The answers of the driver core
  (\<open>bus_register\<close>, \<open>device_register\<close>, \<open>driver_register\<close>, \<open>kzalloc\<close>) are arguments.
\<close>

section \<open>Structures\<close>

record device =
  dev_name :: string
  dev_parent :: "string option"
  dev_bus :: "string option"
  dev_release :: "string option"
  dev_id :: int

record custom_device =
  cname :: string
  price :: nat
  dev :: device

record ldm_st = kst +
  cus_dev :: custom_device

record custom_driver =
  probe :: "(custom_device \<Rightarrow> (ldm_st, koops, int) prog) option"
  remove :: "(custom_device \<Rightarrow> (ldm_st, koops, int) prog) option"
  shutdown :: "(custom_device \<Rightarrow> (ldm_st, koops, unit) prog) option"
  driver_bus :: "string option"
  driver_name :: string
  cdrv_id :: string

text \<open>The size of the arrays \<open>name\<close> and \<open>id\<close> of the two structures.\<close>

definition NAME_SIZE :: nat where "NAME_SIZE = 30"

definition blank_device :: device where
  "blank_device = \<lparr>dev_name = [], dev_parent = None, dev_bus = None, dev_release = None, dev_id = 0\<rparr>"

definition custom_bus_parent :: device where
  "custom_bus_parent = blank_device\<lparr>dev_name := ''custom0'', dev_release := Some ''custom_bus_release''\<rparr>"

definition custom_bus_type :: string where "custom_bus_type = ''custom''"

definition cus_dev_init :: custom_device where
  "cus_dev_init = \<lparr>cname = ''Custom-Device1'', price = 0, dev = blank_device\<rparr>"

section \<open>Operations of the bus\<close>

definition custom_bus_release :: "device \<Rightarrow> ('z, unit) kprog" where
  "custom_bus_release d = klog_add (Printk ''custom bus parent release'')"

definition custom_dev_release :: "device \<Rightarrow> ('z, unit) kprog" where
  "custom_dev_release d = klog_add (Printk ''Custom Device Release'')"

text \<open>
  \<open>custom_hotplug\<close> fills two slots of the environment table: the result, the table and the text
  stored in the buffer. The buffer's size is an \<open>int\<close> that \<open>snprintf\<close> takes as a \<open>size_t\<close>.
\<close>

definition custom_hotplug :: "string option list \<Rightarrow> int \<Rightarrow> int \<times> string option list \<times> string" where
  "custom_hotplug envp buffer_size =
     (let (n, text) = snprintf (unat (word_of_int buffer_size :: u32)) (''CUSTOM_BUS_VERSION='' @ dec 1234);
          envp = envp[0 := Some text]
      in if n \<ge> buffer_size then (- ENOMEM, envp, text)
         else (0, envp[1 := None], text))"

definition custom_match :: "device \<Rightarrow> custom_driver \<Rightarrow> int" where
  "custom_match d drv =
     (if strncmp (dev_name d) (driver_name drv) (strlen (driver_name drv)) = 0 then 1 else 0)"

text \<open>
  \<open>dev->driver\<close> is set by the driver core once \<open>custom_match\<close> has accepted the pair. Without it,
  \<open>container_of\<close> yields a pointer below NULL, which passes the test \<open>cdriver &&\<close> and faults.
\<close>

definition custom_probe :: "custom_driver option \<Rightarrow> custom_device \<Rightarrow> (ldm_st, koops, int) prog" where
  "custom_probe dev_driver cdevice =
     seqE (klog_add (Printk ''Custom Bus Probe Called''))
     (case dev_driver of
        None \<Rightarrow> throw NullDeref
      | Some cdriver \<Rightarrow>
          bindE (case probe cdriver of None \<Rightarrow> ret False | Some p \<Rightarrow> bindE (p cdevice) (\<lambda>r. ret (r = 0)))
            (\<lambda>ok. seqE (klog_add (Printk (if ok then ''Custom Driver Probe Successful''
                                         else ''Custom Driver Probe Failure'')))
                  (ret 0)))"

definition custom_register_driver :: "int \<Rightarrow> custom_driver \<Rightarrow> ('z, int \<times> custom_driver) kprog" where
  "custom_register_driver r drv =
     (let drv = drv\<lparr>driver_bus := Some custom_bus_type\<rparr>
      in bindE (acquire_if_ok r (DriverReg (driver_name drv))) (\<lambda>r. ret (r, drv)))"

definition custom_unregister_driver :: "custom_driver \<Rightarrow> ('z, int) kprog" where
  "custom_unregister_driver drv = seqE (release (DriverReg (driver_name drv))) (ret 0)"

definition prepared_device :: "custom_device \<Rightarrow> custom_device" where
  "prepared_device cd = cd\<lparr>dev := (dev cd)\<lparr>
       dev_parent := Some (dev_name custom_bus_parent),
       dev_bus := Some custom_bus_type,
       dev_release := Some ''custom_dev_release'',
       dev_name := cname cd\<rparr>\<rparr>"

definition custom_register_device :: "int \<Rightarrow> custom_device \<Rightarrow> ('z, int \<times> custom_device) kprog" where
  "custom_register_device r cd =
     (let cd = prepared_device cd
      in bindE (acquire_if_ok r (DeviceReg (dev_name (dev cd)))) (\<lambda>r. ret (r, cd)))"

definition custom_unregister_device :: "custom_device \<Rightarrow> ('z, unit) kprog" where
  "custom_unregister_device cd =
     seqE (klog_add (Printk (''Unregister custom device '' @ cname cd)))
          (release (DeviceReg (dev_name (dev cd))))"

text \<open>\<open>kzalloc\<close> answers an address, 0 for NULL. \<open>strcpy\<close> copies into the array of 30 bytes.\<close>

definition custom_device_alloc :: "u32 \<Rightarrow> string \<Rightarrow> int \<Rightarrow> ('z, custom_device option) kprog" where
  "custom_device_alloc addr name devid =
     (if addr = 0 then ret None
      else seqE (acquire (KMem addr))
        (case strcpy_into NAME_SIZE name of
           None \<Rightarrow> throw Overrun
         | Some n \<Rightarrow> ret (Some \<lparr>cname = n, price = 0, dev = blank_device\<lparr>dev_id := devid\<rparr>\<rparr>)))"

section \<open>Loading and unloading the bus\<close>

record bus_env =
  bus_register_ret :: int
  parent_register_ret :: int
  device_register_ret :: int

definition custom_bus_init :: "bus_env \<Rightarrow> (ldm_st, koops, int) prog" where
  "custom_bus_init e =
     bindE (acquire_if_ok (bus_register_ret e) (BusType custom_bus_type)) (\<lambda>r.
     if r < 0 then ret r
     else
     bindE (acquire_if_ok (parent_register_ret e) (DeviceReg (dev_name custom_bus_parent))) (\<lambda>r.
     if r < 0 then seqE (release (BusType custom_bus_type)) (ret r)
     else
     bindE (gets cus_dev) (\<lambda>cd.
     bindE (custom_register_device (device_register_ret e) cd) (\<lambda>(r, cd).
     seqE (modify (\<lambda>s. s\<lparr>cus_dev := cd\<rparr>))
     (if r < 0 then
        seqE (release (DeviceReg (dev_name custom_bus_parent)))
        (seqE (release (BusType custom_bus_type)) (ret r))
      else ret 0)))))"

definition custom_bus_exit :: "(ldm_st, koops, unit) prog" where
  "custom_bus_exit =
     bindE (gets cus_dev) (\<lambda>cd.
     seqE (custom_unregister_device cd)
     (seqE (release (DeviceReg (dev_name custom_bus_parent)))
           (release (BusType custom_bus_type))))"

section \<open>What the operations do\<close>

lemmas bus_defs = custom_bus_init_def custom_bus_exit_def custom_register_device_def
  custom_unregister_device_def custom_register_driver_def custom_unregister_driver_def

text \<open>The kernel's registration functions return 0 or a negative error number.\<close>

definition bus_env_ok :: "bus_env \<Rightarrow> bool" where
  "bus_env_ok e = (bus_register_ret e \<le> 0 \<and> parent_register_ret e \<le> 0 \<and> device_register_ret e \<le> 0)"

lemma custom_bus_init_total: "\<exists>r t. run (custom_bus_init e) s = (Inr r, t)"
  by (auto simp: custom_bus_init_def custom_register_device_def Let_def prog_simps)

lemma custom_bus_init_failed:
  assumes "bus_env_ok e" "run (custom_bus_init e) s = (Inr r, t)" "r < 0"
  shows "same_books s t"
  using assms
  by (auto simp: custom_bus_init_def custom_register_device_def bus_env_ok_def same_books_def
      Let_def prog_simps misuses_def split: if_splits)

lemma custom_bus_init_ok:
  assumes "bus_env_ok e" "run (custom_bus_init e) s = (Inr r, t)" "\<not> r < 0"
  shows "r = 0 \<and> cus_dev t = prepared_device (cus_dev s) \<and> klog t = klog s \<and>
    held t = DeviceReg (cname (cus_dev s)) # DeviceReg ''custom0'' # BusType ''custom'' # held s"
  using assms
  by (auto simp: custom_bus_init_def custom_register_device_def bus_env_ok_def prepared_device_def
      custom_bus_parent_def custom_bus_type_def Let_def prog_simps split: if_splits)

lemma custom_bus_exit_undoes:
  assumes "bus_env_ok e" "run (custom_bus_init e) s = (Inr r, t)" "\<not> r < 0"
  shows "\<exists>u. run custom_bus_exit t = (Inr (), u) \<and> same_books s u"
  using custom_bus_init_ok [OF assms]
  by (auto simp: custom_bus_exit_def custom_unregister_device_def prog_simps same_books_def
      prepared_device_def custom_bus_parent_def custom_bus_type_def misuses_def)

interpretation bus: module_lifecycle custom_bus_init "\<lambda>_. custom_bus_exit" bus_env_ok
  by unfold_locales
     (use custom_bus_init_total custom_bus_exit_undoes custom_bus_init_failed in blast)+

section \<open>Properties\<close>



text \<open>
  C32. \<open>custom_match\<close> accepts a device exactly when the driver's name is a prefix of the device's
  name: a driver binds to every device whose name merely starts with its own.
\<close>

theorem custom_match_prefix:
  assumes "c_string (dev_name d)" "c_string (driver_name drv)"
  shows "custom_match d drv \<noteq> 0 \<longleftrightarrow> prefix (driver_name drv) (dev_name d)"
  using strncmp_prefix [OF assms] by (simp add: custom_match_def)

theorem custom_match_prefix_witness:
  "custom_match (blank_device\<lparr>dev_name := ''Custom-Device10''\<rparr>)
     \<lparr>probe = None, remove = None, shutdown = None, driver_bus = None,
      driver_name = ''Custom-Device1'', cdrv_id = []\<rparr> \<noteq> 0"
  using custom_match_prefix
    [of "blank_device\<lparr>dev_name := ''Custom-Device10''\<rparr>"
        "\<lparr>probe = None, remove = None, shutdown = None, driver_bus = None,
          driver_name = ''Custom-Device1'', cdrv_id = []\<rparr>"]
  by (simp add: blank_device_def)

text \<open>
  \<open>custom_probe\<close> reports success to the driver core whatever the driver's own probe function
  answers, provided that function returns: a failing driver stays bound to the device, and the only
  trace of the failure is the message.
\<close>

theorem custom_probe_swallows_result:
  assumes "probe drv = Some p"
    and "run (p cd) (s\<lparr>klog := klog s @ [Printk ''Custom Bus Probe Called'']\<rparr>) = (Inr r, t)"
  shows "run (custom_probe (Some drv) cd) s =
    (Inr 0, t\<lparr>klog := klog t @ [Printk (if r = 0 then ''Custom Driver Probe Successful''
                                       else ''Custom Driver Probe Failure'')]\<rparr>)"
  using assms by (simp add: custom_probe_def prog_simps)

theorem custom_probe_swallows_result_witness:
  "fst (run (custom_probe (Some \<lparr>probe = Some (\<lambda>_. ret (- 19)), remove = None, shutdown = None,
       driver_bus = None, driver_name = ''x'', cdrv_id = []\<rparr>) cus_dev_init)
     \<lparr>held = [], klog = [], cus_dev = cus_dev_init\<rparr>) = Inr 0"
  by (subst custom_probe_swallows_result
      [where p = "\<lambda>_. ret (- 19)" and r = "- 19" and
         t = "\<lparr>held = [], klog = [Printk ''Custom Bus Probe Called''], cus_dev = cus_dev_init\<rparr>"])
     simp_all

text \<open>
  \<open>custom_device_alloc\<close> on an address the allocator gave: a name that fits the array with its
  terminating NUL is stored unchanged, with the given id, in a zeroed device; a longer one runs past
  the array.
\<close>

theorem custom_device_alloc_bound:
  assumes "addr \<noteq> 0"
  shows "run (custom_device_alloc addr name i) s =
    (if strlen name < 30
     then (Inr (Some \<lparr>cname = name, price = 0, dev = blank_device\<lparr>dev_id := i\<rparr>\<rparr>),
           s\<lparr>held := KMem addr # held s\<rparr>)
     else (Inl Overrun, s\<lparr>held := KMem addr # held s\<rparr>))"
  using assms by (simp add: custom_device_alloc_def strcpy_into_def NAME_SIZE_def prog_simps)

theorem custom_device_alloc_bound_witness:
  "fst (run (custom_device_alloc 4096 ''Custom-Device1'' 3) \<lparr>held = [], klog = []\<rparr>) =
     Inr (Some \<lparr>cname = ''Custom-Device1'', price = 0, dev = blank_device\<lparr>dev_id := 3\<rparr>\<rparr>)"
  using custom_device_alloc_bound [of 4096 "''Custom-Device1''" 3 "\<lparr>held = [], klog = []\<rparr>"]
  by (simp add: strlen_def)

text \<open>
  \<open>custom_hotplug\<close> on a table of at least two slots succeeds exactly when the buffer holds the 23
  characters of the version string and their NUL; then the first slot is the whole string and the
  second ends the table. Otherwise the answer is \<open>-ENOMEM\<close> and the second slot is untouched.
\<close>

theorem custom_hotplug_bound:
  assumes "2 \<le> length envp" "0 \<le> n" "n < 2 ^ 31"
  shows "custom_hotplug envp n =
    (if 24 \<le> n
     then (0, envp[0 := Some ''CUSTOM_BUS_VERSION=1234'', 1 := None], ''CUSTOM_BUS_VERSION=1234'')
     else (- ENOMEM, envp[0 := Some (take (nat n - 1) ''CUSTOM_BUS_VERSION=1234'')],
           take (nat n - 1) ''CUSTOM_BUS_VERSION=1234''))"
proof -
  let ?v = "''CUSTOM_BUS_VERSION=1234''"
  have v: "''CUSTOM_BUS_VERSION='' @ dec 1234 = ?v"
    by (simp add: dec.simps)
  have sz: "unat (word_of_int n :: u32) = nat n"
    using assms by (simp add: unat_eq_nat_uint uint_word_of_int)
  show ?thesis
    unfolding custom_hotplug_def v sz snprintf_def strlen_def Let_def
    using assms by (auto simp: not_le)
qed

theorem custom_hotplug_bound_witness:
  "custom_hotplug [None, None] 24 =
     (0, [Some ''CUSTOM_BUS_VERSION=1234'', None], ''CUSTOM_BUS_VERSION=1234'') \<and>
   fst (custom_hotplug [None, None] 23) = - ENOMEM"
  using custom_hotplug_bound [of "[None, None]" 24] custom_hotplug_bound [of "[None, None]" 23]
  by simp

end
