(* ===== verification/Custom_Driver.thy ===== *)
theory Custom_Driver
  imports Custom_Bus
begin

text \<open>
  The driver that sits on the custom bus: \<open>src/lkml/ldm/driver/custom_driver.c\<close>. Its registration
  functions carry the names of the bus's own ones in the source; here they end in \<open>_drv\<close>.
\<close>

section \<open>The driver\<close>

definition custom_register_driver_drv :: "int \<Rightarrow> custom_driver \<Rightarrow> ('z, int \<times> custom_driver) kprog" where
  "custom_register_driver_drv r drv =
     (let drv = drv\<lparr>driver_bus := Some custom_bus_type, driver_name := cdrv_id drv\<rparr>
      in bindE (acquire_if_ok r (DriverReg (driver_name drv))) (\<lambda>r. ret (r, drv)))"

definition custom_unregister_driver_drv :: "custom_driver \<Rightarrow> ('z, int) kprog" where
  "custom_unregister_driver_drv drv =
     seqE (klog_add (Printk ''Custom Unregister Driver''))
     (seqE (release (DriverReg (driver_name drv))) (ret 0))"

definition custom_probe_drv :: "custom_device \<Rightarrow> ('z, int) kprog" where
  "custom_probe_drv cd = seqE (klog_add (Printk (''Custom driver probe func:: '' @ cname cd))) (ret 0)"

definition custom_remove_drv :: "custom_device \<Rightarrow> ('z, int) kprog" where
  "custom_remove_drv cd = seqE (klog_add (Printk ''Custom driver remove'')) (ret 0)"

definition custom_shutdown_drv :: "custom_device \<Rightarrow> ('z, unit) kprog" where
  "custom_shutdown_drv cd = klog_add (Printk ''Custom driver shutdown'')"

definition driver :: custom_driver where
  "driver = \<lparr>probe = Some custom_probe_drv, remove = Some custom_remove_drv,
     shutdown = Some custom_shutdown_drv, driver_bus = None, driver_name = [],
     cdrv_id = ''Custom-Device1''\<rparr>"

definition custom_driver_init :: "int \<Rightarrow> ('z, int \<times> custom_driver) kprog" where
  "custom_driver_init r =
     bindE (custom_register_driver_drv r driver) (\<lambda>(r, drv).
     seqE (klog_add (Printk ''Registered Custom Driver'')) (ret (r, drv)))"

definition custom_driver_exit :: "custom_driver \<Rightarrow> ('z, unit) kprog" where
  "custom_driver_exit drv = bindE (custom_unregister_driver_drv drv) (\<lambda>_. ret ())"

section \<open>The driver as a module\<close>

definition registered_driver :: custom_driver where
  "registered_driver = driver\<lparr>driver_bus := Some custom_bus_type, driver_name := cdrv_id driver\<rparr>"

lemmas driver_defs = custom_driver_init_def custom_driver_exit_def custom_register_driver_drv_def
  custom_unregister_driver_drv_def

lemma run_custom_driver_init:
  "run (custom_driver_init r) s =
     (Inr (r, registered_driver),
      (if r = 0 then s\<lparr>held := DriverReg ''Custom-Device1'' # held s\<rparr> else s)
        \<lparr>klog := klog s @ [Printk ''Registered Custom Driver'']\<rparr>)"
  by (simp add: driver_defs Let_def prog_simps registered_driver_def driver_def)

interpretation drv: module_lifecycle
  "\<lambda>r. bindE (custom_driver_init r) (\<lambda>(r, _). ret r)" "\<lambda>_. custom_driver_exit registered_driver"
  "\<lambda>r. r \<le> 0"
  by unfold_locales
     (auto simp: prog_simps run_custom_driver_init custom_driver_exit_def
        custom_unregister_driver_drv_def same_books_def registered_driver_def driver_def misuses_def
        split: if_splits)

section \<open>Properties\<close>

text \<open>
  Loading and unloading the driver module any number of times leaves the books as they were.
\<close>

theorem custom_driver_load_unload:
  assumes "\<forall>r\<in>set rs. r \<le> 0"
  shows "\<exists>t. run (load_unload (\<lambda>r. bindE (custom_driver_init r) (\<lambda>(r, _). ret r))
                    (\<lambda>_. custom_driver_exit registered_driver) rs) s = (Inr (), t) \<and>
    held t = held s \<and> misuses t = misuses s"
  using drv.cycles [OF assms, of s] by (simp add: same_books_def)

theorem custom_driver_load_unload_witness:
  "\<exists>t. run (load_unload (\<lambda>r. bindE (custom_driver_init r) (\<lambda>(r, _). ret r))
              (\<lambda>_. custom_driver_exit registered_driver) [0, - 16, 0])
         \<lparr>held = [], klog = []\<rparr> = (Inr (), t) \<and> held t = [] \<and> misuses t = []"
  using custom_driver_load_unload [of "[0, - 16, 0]" "\<lparr>held = [], klog = []\<rparr>"]
  by (simp add: misuses_def)

text \<open>
  C33. The shipped pair binds: once the bus and the driver are loaded, \<open>custom_match\<close> accepts the
  registered device and driver, and the bus probe calls the driver's probe on the device exactly
  once, returns 0 and touches nothing but the log.
\<close>

theorem shipped_pair_binds:
  assumes "bus_env_ok e" "cus_dev s = cus_dev_init"
    and "run (custom_bus_init e) s = (Inr rb, t)" "\<not> rb < 0"
    and "run (custom_driver_init rd) t = (Inr (rd, drv), u)"
  shows "custom_match (dev (cus_dev u)) drv = 1 \<and>
    run (custom_probe (Some drv) (cus_dev u)) u =
      (Inr 0, u\<lparr>klog := klog u @ [Printk ''Custom Bus Probe Called'',
         Printk ''Custom driver probe func:: Custom-Device1'',
         Printk ''Custom Driver Probe Successful'']\<rparr>)"
proof -
  have "cus_dev u = prepared_device cus_dev_init" and drv: "drv = registered_driver"
    using custom_bus_init_ok [OF assms(1,3,4)] assms(2,5) by (auto simp: run_custom_driver_init)
  then have c: "cname (cus_dev u) = ''Custom-Device1''" "dev_name (dev (cus_dev u)) = ''Custom-Device1''"
    by (simp_all add: prepared_device_def cus_dev_init_def)
  have "custom_match (dev (cus_dev u)) drv = 1"
    using c(2) by (simp add: custom_match_def drv registered_driver_def driver_def strncmp_take)
  moreover have "probe drv = Some custom_probe_drv"
    by (simp add: drv registered_driver_def driver_def)
  ultimately show ?thesis
    by (simp add: custom_probe_def custom_probe_drv_def c(1) prog_simps)
qed

theorem shipped_pair_binds_witness:
  "let s = \<lparr>held = [], klog = [], cus_dev = cus_dev_init\<rparr>;
       e = \<lparr>bus_register_ret = 0, parent_register_ret = 0, device_register_ret = 0\<rparr>;
       t = snd (run (custom_bus_init e) s); u = snd (run (custom_driver_init 0) t)
   in custom_match (dev (cus_dev u)) registered_driver = 1"
proof -
  define s where "s = \<lparr>held = [], klog = [], cus_dev = cus_dev_init\<rparr>"
  define e where "e = \<lparr>bus_register_ret = 0, parent_register_ret = 0, device_register_ret = 0\<rparr>"
  define t where "t = snd (run (custom_bus_init e) s)"
  define u where "u = snd (run (custom_driver_init 0) t)"
  have b: "run (custom_bus_init e) s = (Inr 0, t)"
    by (simp add: t_def e_def custom_bus_init_def custom_register_device_def Let_def prog_simps)
  have d: "run (custom_driver_init 0) t = (Inr (0, registered_driver), u)"
    by (simp add: u_def run_custom_driver_init)
  have "custom_match (dev (cus_dev u)) registered_driver = 1"
    using shipped_pair_binds [OF _ _ b _ d] by (simp add: e_def s_def bus_env_ok_def)
  then show ?thesis by (simp only: s_def e_def t_def u_def Let_def)
qed

end
