(* ===== verification/V4l2_Api.thy ===== *)
theory V4l2_Api
  imports BB_Prelude
begin

text \<open>
  The structures and constants of the V4L2 user interface that the driver \<open>vid4linux.c\<close> and the
  program \<open>grabber.c\<close> share; values are those of the kernel's header \<open>videodev2.h\<close>.
\<close>

text \<open>\<open>FOURCC_ZERO\<close> is the number 0, which names no format: what a cleared structure holds.\<close>

datatype pix_fmt = FOURCC_ZERO | V4L2_PIX_FMT_RGB24 | V4L2_PIX_FMT_RGB555 | V4L2_PIX_FMT_YUYV | V4L2_PIX_FMT_UYVY

definition V4L2_CAP_VIDEO_CAPTURE :: u32 where "V4L2_CAP_VIDEO_CAPTURE = 0x00000001"
definition V4L2_CAP_READWRITE :: u32 where "V4L2_CAP_READWRITE = 0x01000000"
definition V4L2_CAP_STREAMING :: u32 where "V4L2_CAP_STREAMING = 0x04000000"
definition V4L2_CAP_DEVICE_CAPS :: u32 where "V4L2_CAP_DEVICE_CAPS = 0x80000000"

lemmas cap_defs = V4L2_CAP_VIDEO_CAPTURE_def V4L2_CAP_READWRITE_def V4L2_CAP_STREAMING_def
  V4L2_CAP_DEVICE_CAPS_def

record v4l2_capability =
  cap_driver :: string
  card :: string
  bus_info :: string
  device_caps :: u32
  capabilities :: u32

datatype v4l2_field = V4L2_FIELD_ANY | V4L2_FIELD_INTERLACED
datatype v4l2_colorspace = V4L2_COLORSPACE_DEFAULT | V4L2_COLORSPACE_SMPTE170M | V4L2_COLORSPACE_SRGB

record v4l2_pix_format =
  pix_width :: u32
  pix_height :: u32
  pix_field :: v4l2_field
  pix_pixelformat :: pix_fmt
  bytesperline :: u32
  sizeimage :: u32
  colorspace :: v4l2_colorspace

end
