(* ===== verification/Vid4linux.thy ===== *)
theory Vid4linux
  imports Kernel C_String V4l2_Api "HOL-Library.Multiset"
begin

text \<open>
  The fake capture device of \<open>src/lkml/v4l2/vid4linux.c\<close>: its buffer queue and frame thread, the
  operations it offers to the videobuf2 core, its ioctls, and module load and unload. The videobuf2
  core and the V4L2 core are not part of the repository: the planes they allocate, the answers of
  their registration functions and of \<open>kthread_run\<close> are arguments or parts of the state that the
  code only reads.
\<close>

section \<open>Structures\<close>

record fake_vid_fmt =
  fmt_name :: string
  fourcc :: pix_fmt
  depth :: u32

definition formats :: "fake_vid_fmt list" where
  "formats =
     [\<lparr>fmt_name = ''RGB24'', fourcc = V4L2_PIX_FMT_RGB24, depth = 24\<rparr>,
      \<lparr>fmt_name = ''RGB555'', fourcc = V4L2_PIX_FMT_RGB555, depth = 16\<rparr>]"

record fake_vid_dmaq =
  active :: "nat list"
  kthread :: task_ptr
  frame :: int
  jiffies :: int

text \<open>
  A buffer of one frame, known by its index. \<open>plane\<close> is what \<open>vb2_plane_vaddr\<close> points to (\<open>None\<close>
  for NULL), \<open>plane_size\<close> what \<open>vb2_plane_size\<close> answers.
\<close>

record single_frame =
  plane_size :: nat
  plane :: "string option"
  payload :: u32
  timestamp :: u64
  sfmt :: "fake_vid_fmt option"

datatype vb2_state = VB2_BUF_STATE_DONE | VB2_BUF_STATE_ERROR

datatype buf_type = V4L2_BUF_TYPE_VIDEO_CAPTURE
datatype io_mode = VB2_MMAP | VB2_USERPTR | VB2_READ

text \<open>
  The functions the driver's tables point to: its own, and functions of the two cores, known by name.
\<close>

datatype vid_fun = QueueSetup | BufPrepare | BufQueue | BufInit | StartStreaming | StopStreaming
  | VidiocQuerycap | VidiocEnumFmt | VidiocGFmt | VidiocSFmt | V4l2Core string

record vb2_ops =
  op_queue_setup :: vid_fun
  op_buf_prepare :: vid_fun
  op_buf_queue :: vid_fun
  op_start_streaming :: vid_fun
  op_stop_streaming :: vid_fun
  op_wait_prepare :: vid_fun
  op_wait_finish :: vid_fun
  op_buf_init :: vid_fun

definition fake_video_ops :: vb2_ops where
  "fake_video_ops = \<lparr>op_queue_setup = QueueSetup, op_buf_prepare = BufPrepare, op_buf_queue = BufQueue,
     op_start_streaming = StartStreaming, op_stop_streaming = StopStreaming,
     op_wait_prepare = V4l2Core ''vb2_ops_wait_prepare'', op_wait_finish = V4l2Core ''vb2_ops_wait_finish'',
     op_buf_init = BufInit\<rparr>"

record v4l2_file_operations =
  fop_open :: vid_fun
  fop_release :: vid_fun
  fop_read :: vid_fun
  fop_poll :: vid_fun
  fop_mmap :: vid_fun
  fop_unlocked_ioctl :: vid_fun

definition vid4linux_fops :: v4l2_file_operations where
  "vid4linux_fops = \<lparr>fop_open = V4l2Core ''v4l2_fh_open'', fop_release = V4l2Core ''vb2_fop_release'',
     fop_read = V4l2Core ''vb2_fop_read'', fop_poll = V4l2Core ''vb2_fop_poll'',
     fop_mmap = V4l2Core ''vb2_fop_mmap'', fop_unlocked_ioctl = V4l2Core ''video_ioctl2''\<rparr>"

text \<open>
  The ioctls the driver serves, without the two that are compiled with \<open>CONFIG_VIDEO_ADV_DEBUG\<close> only,
  for which the file has no functions.
\<close>

definition fake_ioctl_ops :: "(string \<times> vid_fun) list" where
  "fake_ioctl_ops =
     [(''vidioc_querycap'', VidiocQuerycap), (''vidioc_enum_fmt_vid_cap'', VidiocEnumFmt),
      (''vidioc_g_fmt_vid_cap'', VidiocGFmt), (''vidioc_s_fmt_vid_cap'', VidiocSFmt),
      (''vidioc_reqbufs'', V4l2Core ''vb2_ioctl_reqbufs''), (''vidioc_querybuf'', V4l2Core ''vb2_ioctl_querybuf''),
      (''vidioc_qbuf'', V4l2Core ''vb2_ioctl_qbuf''), (''vidioc_dqbuf'', V4l2Core ''vb2_ioctl_dqbuf''),
      (''vidioc_streamon'', V4l2Core ''vb2_ioctl_streamon''), (''vidioc_streamoff'', V4l2Core ''vb2_ioctl_streamoff''),
      (''vidioc_expbuf'', V4l2Core ''vb2_ioctl_expbuf''), (''vidioc_log_status'', V4l2Core ''v4l2_ctrl_log_status''),
      (''vidioc_subscribe_event'', V4l2Core ''v4l2_ctrl_subscribe_event''),
      (''vidioc_unsubscribe_event'', V4l2Core ''v4l2_event_unsubscribe'')]"

record vb2_queue =
  vq_type :: buf_type
  io_modes :: "io_mode list"
  vq_ops :: vb2_ops
  min_buffers_needed :: nat

text \<open>\<open>done_log\<close> is the sequence of calls of \<open>vb2_buffer_done\<close>.\<close>

record fake_vid_device =
  v4l2_name :: string
  vidqueue :: vb2_queue
  vfmt :: fake_vid_fmt
  width :: u32
  height :: u32
  pixelsize :: u32
  dmaq :: fake_vid_dmaq
  frames :: "nat \<Rightarrow> single_frame"
  done_log :: "(nat \<times> vb2_state) list"

type_synonym 'a vid_prog = "(fake_vid_device, koops, 'a) prog"

section \<open>The list of active buffers\<close>

definition dmaq_upd :: "(fake_vid_dmaq \<Rightarrow> fake_vid_dmaq) \<Rightarrow> fake_vid_device \<Rightarrow> fake_vid_device" where
  "dmaq_upd f d = d\<lparr>dmaq := f (dmaq d)\<rparr>"

definition active_of :: "fake_vid_device \<Rightarrow> nat list" where
  "active_of d = active (dmaq d)"

definition set_active :: "nat list \<Rightarrow> fake_vid_device \<Rightarrow> fake_vid_device" where
  "set_active bs = dmaq_upd (active_update (\<lambda>_. bs))"

definition set_kthread :: "task_ptr \<Rightarrow> fake_vid_device \<Rightarrow> fake_vid_device" where
  "set_kthread k = dmaq_upd (kthread_update (\<lambda>_. k))"

definition vb2_buffer_done :: "nat \<Rightarrow> vb2_state \<Rightarrow> fake_vid_device \<Rightarrow> fake_vid_device" where
  "vb2_buffer_done b st d = d\<lparr>done_log := done_log d @ [(b, st)]\<rparr>"

named_theorems vid_simps \<open>the parts of the device that the queue operations touch\<close>

lemma vid_upd_simps [simp, vid_simps]:
  "active_of (set_active bs d) = bs"
  "active_of (set_kthread k d) = active_of d"
  "active_of (vb2_buffer_done b st d) = active_of d"
  "active_of (d\<lparr>frames := f\<rparr>) = active_of d"
  "done_log (set_active bs d) = done_log d"
  "done_log (set_kthread k d) = done_log d"
  "done_log (vb2_buffer_done b st d) = done_log d @ [(b, st)]"
  "frames (set_active bs d) = frames d"
  "frames (set_kthread k d) = frames d"
  "frames (vb2_buffer_done b st d) = frames d"
  "kthread (dmaq (set_active bs d)) = kthread (dmaq d)"
  "kthread (dmaq (set_kthread k d)) = k"
  "kthread (dmaq (vb2_buffer_done b st d)) = kthread (dmaq d)"
  by (simp_all add: active_of_def set_active_def set_kthread_def dmaq_upd_def vb2_buffer_done_def)

section \<open>The frame thread\<close>

text \<open>
  The 128 bytes of \<open>img\<close> live on the kernel stack: \<open>sprintf\<close> writes the text and its NUL over the
  front, the rest keeps whatever the stack held (\<open>stack\<close>).
\<close>

definition img_text :: string where
  "img_text = ''Text Masquerading as RGB Data''"

definition fake_image :: "string \<Rightarrow> string" where
  "fake_image stack = img_text @ NUL # drop (Suc (length img_text)) stack"

text \<open>\<open>memcpy(vbuf, img, 128)\<close> into a plane that may be shorter.\<close>

definition memcpy128 :: "string \<Rightarrow> string \<Rightarrow> string option" where
  "memcpy128 dst src = (if length dst < 128 then None else Some (take 128 src @ drop 128 dst))"

text \<open>
  The section under the spinlock: the first buffer is taken off the list. The test for a NULL
  \<open>sbuf\<close> after it never holds, because \<open>list_entry\<close> of a list element is not NULL.
\<close>

definition thread_dequeue :: "nat option vid_prog" where
  "thread_dequeue = bindE (gets active_of) (\<lambda>bs.
     case bs of
       [] \<Rightarrow> ret None
     | b # rest \<Rightarrow> seqE (modify (set_active rest)) (ret (Some b)))"

text \<open>Filling the buffer and handing it back; \<open>Some r\<close> means that the thread returns \<open>r\<close>.\<close>

definition thread_fill :: "string \<Rightarrow> nat \<Rightarrow> int option vid_prog" where
  "thread_fill stack b = bindE (gets (\<lambda>d. frames d b)) (\<lambda>sbuf.
     case plane sbuf of
       None \<Rightarrow> ret (Some (- 1))
     | Some vbuf \<Rightarrow>
         (case memcpy128 vbuf (fake_image stack) of
            None \<Rightarrow> throw Overrun
          | Some img \<Rightarrow>
              seqE (modify (\<lambda>d. d\<lparr>frames := (frames d)(b := sbuf\<lparr>plane := Some img, timestamp := 0x555555\<rparr>)\<rparr>))
              (seqE (modify (vb2_buffer_done b VB2_BUF_STATE_DONE)) (ret None))))"

definition frame_iteration :: "bool \<Rightarrow> string \<Rightarrow> int option vid_prog" where
  "frame_iteration should_stop stack =
     (if should_stop then ret (Some 0)
      else bindE thread_dequeue (\<lambda>sb.
        case sb of None \<Rightarrow> ret (Some (- 1)) | Some b \<Rightarrow> thread_fill stack b))"

lemma frame_iteration_continues:
  assumes "run (frame_iteration stop stack) d = (Inr None, d')"
  shows "\<exists>b rest. active_of d = b # rest \<and> active_of d' = rest"
proof (cases "active_of d")
  case (Cons b rest)
  with assms show ?thesis
    by (auto simp: frame_iteration_def thread_dequeue_def thread_fill_def prog_simps
        split: if_splits option.splits)
qed (use assms in \<open>auto simp: frame_iteration_def thread_dequeue_def prog_simps split: if_splits\<close>)

lemma frame_iteration_shrinks:
  "(Inr None, d') = run (frame_iteration stop stack) d \<Longrightarrow> length (active_of d') < length (active_of d)"
  using frame_iteration_continues [of stop stack d d'] by auto

text \<open>
  The whole loop, with nobody else touching the list: \<open>should_stop i\<close> is the answer of
  \<open>kthread_should_stop\<close> in round \<open>i\<close>. Every round that goes on has taken a buffer, so it ends.
\<close>

function frame_generation_thread ::
    "(nat \<Rightarrow> bool) \<Rightarrow> string \<Rightarrow> nat \<Rightarrow> fake_vid_device \<Rightarrow> (koops + int) \<times> fake_vid_device" where
  "frame_generation_thread should_stop stack i d =
     (case run (frame_iteration (should_stop i) stack) d of
        (Inl e, d') \<Rightarrow> (Inl e, d')
      | (Inr (Some r), d') \<Rightarrow> (Inr r, d')
      | (Inr None, d') \<Rightarrow> frame_generation_thread should_stop stack (Suc i) d')"
  by pat_completeness auto
termination
proof (relation "measure (\<lambda>(_, _, _, d). length (active_of d))", goal_cases)
  case 2
  then show ?case by (simp add: frame_iteration_shrinks)
qed simp

declare frame_generation_thread.simps [simp del]

text \<open>\<open>kthread_run\<close> answers a task or an error pointer, which the code stores before it tests it.\<close>

definition start_frame_generation :: "task_ptr \<Rightarrow> fake_vid_device \<Rightarrow> int \<times> fake_vid_device" where
  "start_frame_generation kthread_run d =
     (let d = set_kthread kthread_run d
      in case kthread_run of KErr e \<Rightarrow> (e, d) | _ \<Rightarrow> (0, d))"

section \<open>Operations for the videobuf2 core\<close>

text \<open>
  \<open>queue_setup\<close>: the result, the number of buffers (left as it was asked for), the number of planes
  and the size of plane 0.
\<close>

definition queue_setup :: "u32 \<Rightarrow> int \<times> u32 \<times> u32 \<times> u32" where
  "queue_setup num_buffers = (0, num_buffers, 1, 640 * 480 * 3)"

definition buf_init :: "nat \<Rightarrow> int" where
  "buf_init b = 0"

definition buf_prepare :: "nat \<Rightarrow> fake_vid_device \<Rightarrow> int \<times> fake_vid_device" where
  "buf_prepare b d =
     (let size = width d * height d * pixelsize d in
      if plane_size (frames d b) < unat size then (- ENOMEM, d)
      else (0, d\<lparr>frames := (frames d)(b := (frames d b)\<lparr>payload := size, sfmt := Some (vfmt d)\<rparr>)\<rparr>))"

definition buf_queue :: "nat \<Rightarrow> fake_vid_device \<Rightarrow> fake_vid_device" where
  "buf_queue b d = set_active (active_of d @ [b]) d"

definition start_streaming :: "task_ptr \<Rightarrow> fake_vid_device \<Rightarrow> int \<times> fake_vid_device" where
  "start_streaming kthread_run d = start_frame_generation kthread_run d"

function drain :: "fake_vid_device \<Rightarrow> fake_vid_device" where
  "drain d =
     (case active_of d of
        [] \<Rightarrow> d
      | b # rest \<Rightarrow> drain (vb2_buffer_done b VB2_BUF_STATE_ERROR (set_active rest d)))"
  by pat_completeness auto
termination
  by (relation "measure (\<lambda>d. length (active_of d))") simp_all

declare drain.simps [simp del]

text \<open>
  \<open>stop_streaming\<close> after \<open>kthread_stop\<close> has returned, that is, once the thread has ended: it calls
  \<open>kthread_stop\<close> whenever the pointer is not NULL (the first component), clears the pointer and
  gives every buffer that is left back with an error.
\<close>

definition stop_streaming :: "fake_vid_device \<Rightarrow> bool \<times> fake_vid_device" where
  "stop_streaming d =
     (if kthread (dmaq d) \<noteq> KNull then (True, drain (set_kthread KNull d)) else (False, drain d))"

section \<open>Ioctls\<close>

text \<open>The two \<open>strcpy\<close> calls copy 15 characters into fields of 16 and 32 bytes.\<close>

definition vidioc_querycap :: "fake_vid_device \<Rightarrow> int \<times> v4l2_capability" where
  "vidioc_querycap d =
     (let caps = V4L2_CAP_VIDEO_CAPTURE OR V4L2_CAP_STREAMING OR V4L2_CAP_READWRITE in
      (0, \<lparr>cap_driver = ''fake_vid_device'', card = ''fake_vid_device'',
           bus_info = strlcpy 32 (v4l2_name d),
           device_caps = caps, capabilities = caps OR V4L2_CAP_DEVICE_CAPS\<rparr>))"

text \<open>\<open>vidioc_enum_fmt_vid_cap\<close>: the description and pixel format of one entry of the table.\<close>

definition vidioc_enum_fmt_vid_cap :: "u32 \<Rightarrow> int \<times> (string \<times> pix_fmt) option" where
  "vidioc_enum_fmt_vid_cap index =
     (if length formats \<le> unat index then (- EINVAL, None)
      else (let f = formats ! unat index in (0, Some (strlcpy 32 (fmt_name f), fourcc f))))"

definition vidioc_g_fmt_vid_cap :: "fake_vid_device \<Rightarrow> int \<times> v4l2_pix_format" where
  "vidioc_g_fmt_vid_cap d =
     (let bpl = drop_bit 3 (width d * depth (vfmt d)) in
      (0, \<lparr>pix_width = width d, pix_height = height d, pix_field = V4L2_FIELD_INTERLACED,
           pix_pixelformat = fourcc (vfmt d), bytesperline = bpl, sizeimage = height d * bpl,
           colorspace = (if fourcc (vfmt d) = V4L2_PIX_FMT_YUYV \<or> fourcc (vfmt d) = V4L2_PIX_FMT_UYVY
                         then V4L2_COLORSPACE_SMPTE170M else V4L2_COLORSPACE_SRGB)\<rparr>))"

definition vidioc_s_fmt_vid_cap :: int where
  "vidioc_s_fmt_vid_cap = - 1"

section \<open>The device as \<open>v4l2_init\<close> sets it up\<close>

text \<open>
  The buffers themselves are allocated later by the videobuf2 core: what it will put into \<open>frames\<close>
  is an argument.
\<close>

definition fresh_device :: "(nat \<Rightarrow> single_frame) \<Rightarrow> fake_vid_device" where
  "fresh_device fs =
     \<lparr>v4l2_name = snd (snprintf 36 ''sk-video1''),
      vidqueue = \<lparr>vq_type = V4L2_BUF_TYPE_VIDEO_CAPTURE, io_modes = [VB2_MMAP, VB2_USERPTR, VB2_READ],
        vq_ops = fake_video_ops, min_buffers_needed = 1\<rparr>,
      vfmt = formats ! 0, width = 640, height = 480, pixelsize = 3,
      dmaq = \<lparr>active = [], kthread = KNull, frame = 0, jiffies = 0\<rparr>,
      frames = fs, done_log = []\<rparr>"

lemma fresh_device_simps [simp, vid_simps]:
  "active_of (fresh_device fs) = []" "done_log (fresh_device fs) = []"
  "kthread (dmaq (fresh_device fs)) = KNull" "frames (fresh_device fs) = fs"
  "width (fresh_device fs) = 640" "height (fresh_device fs) = 480" "pixelsize (fresh_device fs) = 3"
  "vfmt (fresh_device fs) = formats ! 0"
  by (simp_all add: fresh_device_def active_of_def)

section \<open>Queue and thread\<close>

text \<open>
  The contract of a capture driver towards the videobuf2 core: a buffer handed over with
  \<open>buf_queue\<close> belongs to the driver; when \<open>stop_streaming\<close> returns, the driver owns nothing any more
  and has handed every buffer back with an error, in the order in which it got them.
\<close>

locale vb2_driver =
  fixes owned :: "'d \<Rightarrow> nat list"
    and returned :: "'d \<Rightarrow> (nat \<times> vb2_state) list"
    and queue :: "nat \<Rightarrow> 'd \<Rightarrow> 'd"
    and stop :: "'d \<Rightarrow> 'd"
  assumes queue_owned: "owned (queue b d) = owned d @ [b]"
    and queue_returned: "returned (queue b d) = returned d"
    and stop_owned: "owned (stop d) = []"
    and stop_returned:
      "returned (stop d) = returned d @ map (\<lambda>b. (b, VB2_BUF_STATE_ERROR)) (owned d)"
begin

lemma queue_all:
  "owned (fold queue bs d) = owned d @ bs \<and> returned (fold queue bs d) = returned d"
  by (induction bs arbitrary: d) (simp_all add: queue_owned queue_returned)

lemma stop_after_queue_all:
  "owned (stop (fold queue bs d)) = [] \<and>
   returned (stop (fold queue bs d)) =
     returned d @ map (\<lambda>b. (b, VB2_BUF_STATE_ERROR)) (owned d @ bs)"
  using queue_all [of bs d] by (simp add: stop_owned stop_returned)

end

lemma drain_result:
  "active_of (drain d) = [] \<and> frames (drain d) = frames d \<and>
   kthread (dmaq (drain d)) = kthread (dmaq d) \<and>
   done_log (drain d) = done_log d @ map (\<lambda>b. (b, VB2_BUF_STATE_ERROR)) (active_of d)"
proof (induction d rule: drain.induct)
  case (1 d)
  then show ?case
    by (cases "active_of d") (simp_all add: drain.simps [of d])
qed

lemma stop_streaming_result:
  "active_of (snd (stop_streaming d)) = [] \<and> frames (snd (stop_streaming d)) = frames d \<and>
   kthread (dmaq (snd (stop_streaming d))) = KNull \<and>
   fst (stop_streaming d) = (kthread (dmaq d) \<noteq> KNull) \<and>
   done_log (snd (stop_streaming d)) =
     done_log d @ map (\<lambda>b. (b, VB2_BUF_STATE_ERROR)) (active_of d)"
  by (simp add: stop_streaming_def drain_result)

lemma buf_queue_simps [simp, vid_simps]:
  "active_of (buf_queue b d) = active_of d @ [b]"
  "done_log (buf_queue b d) = done_log d"
  "frames (buf_queue b d) = frames d"
  "kthread (dmaq (buf_queue b d)) = kthread (dmaq d)"
  by (simp_all add: buf_queue_def)

lemma buf_prepare_parts [simp]:
  "active_of (snd (buf_prepare i d)) = active_of d" "done_log (snd (buf_prepare i d)) = done_log d"
  "kthread (dmaq (snd (buf_prepare i d))) = kthread (dmaq d)"
  "plane (frames (snd (buf_prepare i d)) b) = plane (frames d b)"
  by (simp_all add: buf_prepare_def Let_def)

interpretation vb2: vb2_driver active_of done_log buf_queue "\<lambda>d. snd (stop_streaming d)"
  by unfold_locales (simp_all add: stop_streaming_result)

text \<open>One round on a list that is not empty and whose first buffer has a large enough plane.\<close>

definition filled :: "string \<Rightarrow> single_frame \<Rightarrow> single_frame" where
  "filled stack sf = sf\<lparr>plane := map_option (\<lambda>m. take 128 (fake_image stack) @ drop 128 m) (plane sf),
     timestamp := 0x555555\<rparr>"

definition fillable :: "single_frame \<Rightarrow> bool" where
  "fillable sf = (case plane sf of None \<Rightarrow> False | Some m \<Rightarrow> 128 \<le> length m)"

lemma length_fake_image: "length stack = 128 \<Longrightarrow> length (fake_image stack) = 128"
  by (simp add: fake_image_def img_text_def)

lemma fake_image_tail:
  assumes "length stack = 128" "30 \<le> j" "j < 128"
  shows "fake_image stack ! j = stack ! j"
proof -
  have n: "length (img_text @ [NUL]) = 30" by (simp add: img_text_def)
  moreover from n have "fake_image stack = (img_text @ [NUL]) @ drop 30 stack"
    by (simp add: fake_image_def del: drop_Suc)
  ultimately show ?thesis using assms by (simp only: nth_append) simp
qed

lemma fillable_filled:
  "length stack = 128 \<Longrightarrow> fillable sf \<Longrightarrow> fillable (filled stack sf)"
  by (auto simp: fillable_def filled_def length_fake_image split: option.splits)

lemma filled_filled: "length stack = 128 \<Longrightarrow> filled stack (filled stack sf) = filled stack sf"
  by (simp add: filled_def option.map_comp comp_def length_fake_image)

lemma run_thread_fill:
  assumes "fillable (frames d b)"
  shows "run (thread_fill stack b) d =
    (Inr None, vb2_buffer_done b VB2_BUF_STATE_DONE
       (d\<lparr>frames := (frames d)(b := filled stack (frames d b))\<rparr>))"
  using assms
  by (auto simp: fillable_def thread_fill_def filled_def memcpy128_def prog_simps split: option.splits)

definition after_frame :: "string \<Rightarrow> nat \<Rightarrow> nat list \<Rightarrow> fake_vid_device \<Rightarrow> fake_vid_device" where
  "after_frame stack b rest d = vb2_buffer_done b VB2_BUF_STATE_DONE
     (set_active rest d\<lparr>frames := (frames d)(b := filled stack (frames d b))\<rparr>)"

lemma after_frame_simps [simp]:
  "active_of (after_frame stack b rest d) = rest"
  "frames (after_frame stack b rest d) = (frames d)(b := filled stack (frames d b))"
  "done_log (after_frame stack b rest d) = done_log d @ [(b, VB2_BUF_STATE_DONE)]"
  by (simp_all add: after_frame_def)

lemma frame_thread_step:
  assumes "active_of d = b # rest" "fillable (frames d b)" "\<not> should_stop i"
  shows "frame_generation_thread should_stop stack i d =
    frame_generation_thread should_stop stack (Suc i) (after_frame stack b rest d)"
proof -
  have "run (frame_iteration (should_stop i) stack) d = (Inr None, after_frame stack b rest d)"
    using assms run_thread_fill [of "set_active rest d" b stack]
    by (simp add: frame_iteration_def thread_dequeue_def after_frame_def prog_simps)
  then show ?thesis by (subst frame_generation_thread.simps) simp
qed

lemma frame_thread_run:
  assumes stack: "length stack = 128" and stop: "\<forall>j. should_stop j \<longleftrightarrow> k \<le> j"
    and "i \<le> k" "\<forall>b\<in>set (active_of d). fillable (frames d b)"
  shows "\<exists>d'. frame_generation_thread should_stop stack i d =
      (Inr (if k - i \<le> length (active_of d) then 0 else - 1), d') \<and>
    active_of d' = drop (k - i) (active_of d) \<and>
    done_log d' = done_log d @ map (\<lambda>b. (b, VB2_BUF_STATE_DONE)) (take (k - i) (active_of d)) \<and>
    frames d' = (\<lambda>b. if b \<in> set (take (k - i) (active_of d)) then filled stack (frames d b)
                     else frames d b)"
  using assms(3,4)
proof (induction "active_of d" arbitrary: d i)
  case Nil
  then show ?case
    using stop
    by (subst frame_generation_thread.simps)
       (auto simp: frame_iteration_def thread_dequeue_def prog_simps)
next
  case (Cons b rest)
  note list = Cons.hyps(2) [symmetric]
  show ?case
  proof (cases "i = k")
    case True
    then show ?thesis
      using stop by (subst frame_generation_thread.simps) (simp add: frame_iteration_def)
  next
    case False
    let ?e = "after_frame stack b rest d"
    obtain m where m: "k - i = Suc m" "k - Suc i = m"
      using False Cons.prems(1) by (cases "k - i") auto
    have "\<forall>c\<in>set (active_of ?e). fillable (frames ?e c)"
      using Cons.prems(2) list stack by (auto simp: fillable_filled)
    moreover have "frame_generation_thread should_stop stack i d =
        frame_generation_thread should_stop stack (Suc i) ?e"
      using frame_thread_step list Cons.prems stop False by simp
    ultimately show ?thesis
      using Cons.hyps(1) [of ?e "Suc i"] Cons.prems(1) False list m stack
      by (force simp: fun_eq_iff filled_filled)
  qed
qed

section \<open>Properties\<close>

text \<open>A device as the witnesses below use it: four buffers of the size \<open>queue_setup\<close> asks for.\<close>

definition sample_frame :: single_frame where
  "sample_frame = \<lparr>plane_size = 921600, plane = Some (replicate 200 CHR ''.''), payload = 0,
     timestamp = 0, sfmt = None\<rparr>"

definition sample_device :: fake_vid_device where
  "sample_device = set_kthread KTask (set_active [2, 0, 1] (fresh_device (\<lambda>_. sample_frame)))"

lemma sample_device_simps [simp]:
  "active_of sample_device = [2, 0, 1]" "done_log sample_device = []"
  "frames sample_device = (\<lambda>_. sample_frame)" "width sample_device = 640"
  "height sample_device = 480" "pixelsize sample_device = 3" "vfmt sample_device = formats ! 0"
  by (simp_all add: sample_device_def) (simp_all add: set_kthread_def set_active_def dmaq_upd_def)

text \<open>
  C6. The frame thread always ends, and it serves the list in order: asked to stop before round \<open>k\<close>,
  it has filled the first \<open>k\<close> buffers of the list, first in first out, handed exactly these back as
  done and left the others in place; it returns 0 if there were at least \<open>k\<close> buffers, and otherwise
  gives up with -1 on the empty list.
\<close>

theorem frame_thread_fifo:
  assumes "length stack = 128" and "\<forall>j. should_stop j \<longleftrightarrow> k \<le> j"
    and "\<forall>b\<in>set (active_of d). fillable (frames d b)"
  shows "\<exists>d'. frame_generation_thread should_stop stack 0 d =
      (Inr (if k \<le> length (active_of d) then 0 else - 1), d') \<and>
    active_of d' = drop k (active_of d) \<and>
    done_log d' = done_log d @ map (\<lambda>b. (b, VB2_BUF_STATE_DONE)) (take k (active_of d)) \<and>
    frames d' = (\<lambda>b. if b \<in> set (take k (active_of d)) then filled stack (frames d b)
                     else frames d b)"
  using frame_thread_run [OF assms(1,2) _ assms(3), of 0] by simp

theorem frame_thread_fifo_witness:
  "\<exists>d'. frame_generation_thread (\<lambda>j. 2 \<le> j) (replicate 128 CHR ''s'') 0 sample_device = (Inr 0, d') \<and>
     active_of d' = [1] \<and> done_log d' = [(2, VB2_BUF_STATE_DONE), (0, VB2_BUF_STATE_DONE)]"
  using frame_thread_fifo [of "replicate 128 CHR ''s''" "\<lambda>j. 2 \<le> j" 2 sample_device]
  by (force simp: fillable_def sample_frame_def)

text \<open>
  C7. Whatever buffers are queued, when \<open>stop_streaming\<close> returns the driver owns none: every buffer
  it still had and every one queued since has been handed back with an error, once and in order, the
  thread pointer is NULL, and \<open>kthread_stop\<close> was called exactly if the pointer was not NULL before.
\<close>

theorem stop_streaming_returns_all:
  shows "active_of (snd (stop_streaming (fold buf_queue bs d))) = [] \<and>
    done_log (snd (stop_streaming (fold buf_queue bs d))) =
      done_log d @ map (\<lambda>b. (b, VB2_BUF_STATE_ERROR)) (active_of d @ bs) \<and>
    kthread (dmaq (snd (stop_streaming (fold buf_queue bs d)))) = KNull \<and>
    fst (stop_streaming (fold buf_queue bs d)) = (kthread (dmaq (fold buf_queue bs d)) \<noteq> KNull)"
  using vb2.stop_after_queue_all [of bs d] stop_streaming_result [of "fold buf_queue bs d"] by simp

text \<open>
  The three places that compute the size of a frame agree on the device as \<open>v4l2_init\<close> sets it
  up: the plane size requested in \<open>queue_setup\<close>, the image size reported by \<open>vidioc_g_fmt_vid_cap\<close>
  and the size \<open>buf_prepare\<close> demands are all 921600 bytes, none of the 32-bit products wraps, and a
  buffer with a plane of the requested size passes \<open>buf_prepare\<close> and carries exactly that payload.
\<close>

theorem frame_size_agreement:
  assumes "plane_size (fs b) = unat (snd (snd (snd (queue_setup n))))"
  shows "unat (snd (snd (snd (queue_setup n)))) = 640 * 480 * 3 \<and>
    unat (sizeimage (snd (vidioc_g_fmt_vid_cap (fresh_device fs)))) = 640 * 480 * 3 \<and>
    unat (bytesperline (snd (vidioc_g_fmt_vid_cap (fresh_device fs)))) = 640 * 3 \<and>
    fst (buf_prepare b (fresh_device fs)) = 0 \<and>
    unat (payload (frames (snd (buf_prepare b (fresh_device fs))) b)) = 640 * 480 * 3"
  using assms
  by (simp add: queue_setup_def vidioc_g_fmt_vid_cap_def buf_prepare_def formats_def Let_def
      drop_bit_eq_div)

theorem frame_size_agreement_witness:
  "unat (sizeimage (snd (vidioc_g_fmt_vid_cap (fresh_device (\<lambda>_. sample_frame))))) = 921600 \<and>
   fst (buf_prepare 3 (fresh_device (\<lambda>_. sample_frame))) = 0"
  using frame_size_agreement [of "\<lambda>_. sample_frame" 3 4]
  by (simp add: sample_frame_def queue_setup_def)

text \<open>
  \<open>buf_prepare\<close> answers 0 or \<open>-ENOMEM\<close>. It accepts a buffer exactly when its plane holds the
  frame size (a 32-bit product); then the payload never exceeds the plane, the buffer records the
  current format, and no other buffer, list or thread changes. A rejected buffer changes nothing.
\<close>

theorem buf_prepare_branches:
  assumes "buf_prepare b d = (r, d')"
  shows "if unat (width d * height d * pixelsize d) \<le> plane_size (frames d b)
    then r = 0 \<and> unat (payload (frames d' b)) \<le> plane_size (frames d' b) \<and>
      sfmt (frames d' b) = Some (vfmt d) \<and> plane (frames d' b) = plane (frames d b) \<and>
      (\<forall>c. c \<noteq> b \<longrightarrow> frames d' c = frames d c) \<and> dmaq d' = dmaq d \<and> done_log d' = done_log d
    else r = - ENOMEM \<and> d' = d"
  using assms by (auto simp: buf_prepare_def Let_def split: if_splits)

theorem buf_prepare_branches_witness:
  "fst (buf_prepare 0 (sample_device\<lparr>frames := (\<lambda>_. sample_frame\<lparr>plane_size := 921599\<rparr>)\<rparr>)) = - ENOMEM"
  using buf_prepare_branches
    [of 0 "sample_device\<lparr>frames := (\<lambda>_. sample_frame\<lparr>plane_size := 921599\<rparr>)\<rparr>"]
  by (cases "buf_prepare 0 (sample_device\<lparr>frames := (\<lambda>_. sample_frame\<lparr>plane_size := 921599\<rparr>)\<rparr>)")
     simp

text \<open>
  C28. Every delivered frame carries kernel stack: after the thread has filled a buffer, bytes 30 to
  127 of its plane are the bytes the stack held there, since \<open>sprintf\<close> writes only the first 30 of
  the 128 bytes that \<open>memcpy\<close> copies.
\<close>

theorem frame_carries_stack:
  assumes "length stack = 128" "fillable (frames d b)" "30 \<le> j" "j < 128"
    and "run (thread_fill stack b) d = (Inr r, d')"
  shows "\<exists>m. plane (frames d' b) = Some m \<and> m ! j = stack ! j \<and> (b, VB2_BUF_STATE_DONE) \<in> set (done_log d')"
proof -
  have d': "d' = vb2_buffer_done b VB2_BUF_STATE_DONE
      (d\<lparr>frames := (frames d)(b := filled stack (frames d b))\<rparr>)"
    using run_thread_fill [OF assms(2), of stack] assms(5) by simp
  obtain m where m: "plane (frames d b) = Some m" "128 \<le> length m"
    using assms(2) by (auto simp: fillable_def split: option.splits)
  have "(take 128 (fake_image stack) @ drop 128 m) ! j = stack ! j"
    using assms(1,3,4) fake_image_tail by (simp add: nth_append length_fake_image)
  with m show ?thesis by (simp add: d' filled_def)
qed

theorem frame_carries_stack_witness:
  "\<exists>d' m. run (thread_fill (replicate 128 CHR ''s'') 1) sample_device = (Inr None, d') \<and>
     plane (frames d' 1) = Some m \<and> m ! 127 = CHR ''s''"
proof -
  have f: "fillable (frames sample_device 1)"
    by (simp add: sample_frame_def fillable_def)
  show ?thesis
    using frame_carries_stack [of "replicate 128 CHR ''s''" sample_device 1 127,
        OF _ f _ _ run_thread_fill [OF f]] run_thread_fill [OF f]
    by simp
qed

text \<open>
  \<open>vidioc_enum_fmt_vid_cap\<close> lists the table of formats: index 0 and 1 give their whole name and
  pixel format, every other index, up to the largest 32-bit value, is refused with \<open>-EINVAL\<close>.
\<close>

theorem enum_fmt_lists_table:
  "vidioc_enum_fmt_vid_cap i =
     (if i = 0 then (0, Some (''RGB24'', V4L2_PIX_FMT_RGB24))
      else if i = 1 then (0, Some (''RGB555'', V4L2_PIX_FMT_RGB555))
      else (- EINVAL, None))"
proof -
  have "unat i < 2 \<longleftrightarrow> i = 0 \<or> i = 1"
    by (auto simp: word_unat_eq_iff less_2_cases_iff)
  then show ?thesis
    by (auto simp: vidioc_enum_fmt_vid_cap_def formats_def strlcpy_def Let_def not_less)
qed

text \<open>
  A failed \<open>start_streaming\<close> hands no buffer back and leaves the error pointer in \<open>kthread\<close>, so a
  later \<open>stop_streaming\<close> takes it for a running thread and calls \<open>kthread_stop\<close> on it.
\<close>

theorem start_streaming_failure:
  assumes "start_streaming (KErr e) d = (r, d')"
  shows "r = e \<and> kthread (dmaq d') = KErr e \<and> active_of d' = active_of d \<and>
    done_log d' = done_log d \<and> fst (stop_streaming d')"
  using assms stop_streaming_result [of d']
  by (auto simp: start_streaming_def start_frame_generation_def Let_def)

theorem start_streaming_failure_witness:
  "fst (start_streaming (KErr (- 12)) sample_device) = - 12 \<and>
   fst (stop_streaming (snd (start_streaming (KErr (- 12)) sample_device)))"
  using start_streaming_failure
    [of "- 12" sample_device "fst (start_streaming (KErr (- 12)) sample_device)"
       "snd (start_streaming (KErr (- 12)) sample_device)"]
  by simp

end
