(* ===== verification/Vid_Stream.thy ===== *)
theory Vid_Stream
  imports Vid4linux
begin

text \<open>
  The fake capture device while it streams: the frame thread, the user who queues buffers and the
  core that stops the stream run concurrently. The steps are those of the definitions of
  \<open>Vid4linux\<close>, cut where the code takes or drops the spinlock and where it tests
  \<open>kthread_should_stop\<close>. The core prepares and queues a buffer only while the driver does not have it
  and never while \<open>stop_streaming\<close> runs (all are called under the lock of the queue); \<open>kthread_stop\<close> waits
  until the thread has ended.
\<close>

section \<open>States and steps\<close>

datatype thread_pc = NoThread | AtLoop | AtDequeue | Filling nat | Exited int

text \<open>\<open>queued\<close> lists every call of \<open>buf_queue\<close>, \<open>lost\<close> the buffers a dying thread dropped.\<close>

record stream_sys =
  sdev :: fake_vid_device
  tpc :: thread_pc
  stopping :: bool
  queued :: "nat list"
  lost :: "nat list"

definition returned_of :: "stream_sys \<Rightarrow> nat multiset" where
  "returned_of s = mset (map fst (done_log (sdev s)))"

definition user_owns :: "stream_sys \<Rightarrow> nat \<Rightarrow> bool" where
  "user_owns s b = (count (mset (queued s)) b = count (returned_of s) b)"

definition stream_init :: "fake_vid_device \<Rightarrow> stream_sys" where
  "stream_init d = \<lparr>sdev = d, tpc = NoThread, stopping = False, queued = [], lost = []\<rparr>"

inductive stream_step :: "string \<Rightarrow> stream_sys \<Rightarrow> stream_sys \<Rightarrow> bool" for stack where
  prepares: "\<not> stopping s \<Longrightarrow> user_owns s b \<Longrightarrow>
     stream_step stack s (s\<lparr>sdev := snd (buf_prepare b (sdev s))\<rparr>)"
| queues: "\<not> stopping s \<Longrightarrow> user_owns s b \<Longrightarrow>
     stream_step stack s (s\<lparr>sdev := buf_queue b (sdev s), queued := queued s @ [b]\<rparr>)"
| starts: "tpc s = NoThread \<Longrightarrow> start_streaming KTask (sdev s) = (r, d) \<Longrightarrow>
     stream_step stack s (s\<lparr>sdev := d, tpc := AtLoop\<rparr>)"
| sees_stop: "tpc s = AtLoop \<Longrightarrow> stopping s \<Longrightarrow> stream_step stack s (s\<lparr>tpc := Exited 0\<rparr>)"
| goes_on: "tpc s = AtLoop \<Longrightarrow> \<not> stopping s \<Longrightarrow> stream_step stack s (s\<lparr>tpc := AtDequeue\<rparr>)"
| dequeues: "tpc s = AtDequeue \<Longrightarrow> run thread_dequeue (sdev s) = (Inr (Some b), d) \<Longrightarrow>
     stream_step stack s (s\<lparr>sdev := d, tpc := Filling b\<rparr>)"
| finds_empty: "tpc s = AtDequeue \<Longrightarrow> run thread_dequeue (sdev s) = (Inr None, d) \<Longrightarrow>
     stream_step stack s (s\<lparr>sdev := d, tpc := Exited (- 1)\<rparr>)"
| fills: "tpc s = Filling b \<Longrightarrow> run (thread_fill stack b) (sdev s) = (Inr None, d) \<Longrightarrow>
     stream_step stack s (s\<lparr>sdev := d, tpc := AtLoop\<rparr>)"
| no_vaddr: "tpc s = Filling b \<Longrightarrow> run (thread_fill stack b) (sdev s) = (Inr (Some r), d) \<Longrightarrow>
     stream_step stack s (s\<lparr>sdev := d, tpc := Exited r, lost := lost s @ [b]\<rparr>)"
| stop_called: "kthread (dmaq (sdev s)) \<noteq> KNull \<Longrightarrow> \<not> stopping s \<Longrightarrow>
     stream_step stack s (s\<lparr>stopping := True\<rparr>)"
| stop_returns: "stopping s \<Longrightarrow> tpc s = Exited r \<Longrightarrow>
     stream_step stack s (s\<lparr>sdev := snd (stop_streaming (sdev s)), tpc := NoThread, stopping := False\<rparr>)"

inductive stream_reachable :: "string \<Rightarrow> fake_vid_device \<Rightarrow> stream_sys \<Rightarrow> bool" for stack d where
  initial: "stream_reachable stack d (stream_init d)"
| further: "stream_reachable stack d s \<Longrightarrow> stream_step stack s t \<Longrightarrow> stream_reachable stack d t"

section \<open>Where the buffers are\<close>

definition in_hand :: "stream_sys \<Rightarrow> nat multiset" where
  "in_hand s = (case tpc s of Filling b \<Rightarrow> {#b#} | _ \<Rightarrow> {#})"

definition conserved :: "stream_sys \<Rightarrow> bool" where
  "conserved s \<longleftrightarrow>
     mset (queued s) = returned_of s + mset (active_of (sdev s)) + in_hand s + mset (lost s)"

definition at_most_once :: "stream_sys \<Rightarrow> bool" where
  "at_most_once s \<longleftrightarrow> (\<forall>b. count (mset (queued s)) b \<le> Suc (count (returned_of s) b))"

definition thread_known :: "stream_sys \<Rightarrow> bool" where
  "thread_known s \<longleftrightarrow>
     (tpc s = NoThread \<longleftrightarrow> kthread (dmaq (sdev s)) = KNull) \<and> (stopping s \<longrightarrow> tpc s \<noteq> NoThread)"

definition owner_inv :: "stream_sys \<Rightarrow> bool" where
  "owner_inv s \<longleftrightarrow> conserved s \<and> at_most_once s \<and> thread_known s"

lemma run_thread_dequeue:
  "run thread_dequeue d = (case active_of d of
     [] \<Rightarrow> (Inr None, d) | b # rest \<Rightarrow> (Inr (Some b), set_active rest d))"
  by (simp add: thread_dequeue_def prog_simps split: list.split)

lemma run_thread_fill_None:
  assumes "run (thread_fill stack b) d = (Inr None, d')"
  shows "active_of d' = active_of d \<and> done_log d' = done_log d @ [(b, VB2_BUF_STATE_DONE)] \<and>
    kthread (dmaq d') = kthread (dmaq d)"
  using assms by (auto simp: thread_fill_def prog_simps active_of_def vb2_buffer_done_def
      split: option.splits)

lemma run_thread_fill_Some:
  "run (thread_fill stack b) d = (Inr (Some r), d') \<Longrightarrow> d' = d \<and> r = - 1"
  by (auto simp: thread_fill_def prog_simps split: option.splits)

lemma start_streaming_task:
  "start_streaming KTask d = (0, set_kthread KTask d)"
  by (simp add: start_streaming_def start_frame_generation_def Let_def)

lemmas place_defs = conserved_def returned_of_def in_hand_def

lemma stream_init_inv:
  "active_of d = [] \<Longrightarrow> done_log d = [] \<Longrightarrow> kthread (dmaq d) = KNull \<Longrightarrow> owner_inv (stream_init d)"
  by (simp add: owner_inv_def place_defs at_most_once_def thread_known_def stream_init_def)

text \<open>What one step may do to the list, the thread pointer and the returned buffers.\<close>

lemma stream_step_conserved:
  assumes "stream_step stack s t" "conserved s"
  shows "conserved t"
  using assms
proof (cases rule: stream_step.cases)
  case (fills b d)
  then show ?thesis using assms(2) run_thread_fill_None [OF fills(3)] by (simp add: place_defs)
next
  case (no_vaddr b r d)
  then show ?thesis using assms(2) run_thread_fill_Some [OF no_vaddr(3)] by (simp add: place_defs)
next
  case (stop_returns r)
  then show ?thesis
    using assms(2) stop_streaming_result [of "sdev s"] by (simp add: place_defs comp_def)
qed (auto simp: place_defs start_streaming_task run_thread_dequeue split: list.splits)

lemma stream_step_returned:
  assumes "stream_step stack s t"
  shows "returned_of s \<subseteq># returned_of t"
  using assms
proof (cases rule: stream_step.cases)
  case (fills b d)
  then show ?thesis using run_thread_fill_None [OF fills(3)] by (simp add: returned_of_def)
next
  case (no_vaddr b r d)
  then show ?thesis using run_thread_fill_Some [OF no_vaddr(3)] by (simp add: returned_of_def)
next
  case (stop_returns r)
  then show ?thesis using stop_streaming_result [of "sdev s"] by (simp add: returned_of_def)
qed (auto simp: returned_of_def start_streaming_task run_thread_dequeue split: list.splits)

lemma stream_step_queued:
  assumes "stream_step stack s t"
  shows "queued t = queued s \<or> (\<exists>b. user_owns s b \<and> queued t = queued s @ [b])"
  using assms by cases auto

lemma stream_step_at_most_once:
  assumes step: "stream_step stack s t" and "at_most_once s"
  shows "at_most_once t"
  unfolding at_most_once_def
proof
  fix b
  have ret: "count (returned_of s) b \<le> count (returned_of t) b"
    using stream_step_returned [OF step] by (rule mset_subset_eq_count)
  have old: "count (mset (queued s)) b \<le> Suc (count (returned_of s) b)"
    using assms(2) by (simp add: at_most_once_def)
  from stream_step_queued [OF step] show "count (mset (queued t)) b \<le> Suc (count (returned_of t) b)"
  proof
    assume "queued t = queued s"
    with ret old show ?thesis by simp
  next
    assume "\<exists>c. user_owns s c \<and> queued t = queued s @ [c]"
    then obtain c where "user_owns s c" "queued t = queued s @ [c]" by blast
    with ret old show ?thesis by (cases "b = c") (auto simp: user_owns_def)
  qed
qed

lemma stream_step_thread_known:
  assumes "stream_step stack s t" "thread_known s"
  shows "thread_known t"
  using assms
proof (cases rule: stream_step.cases)
  case (fills b d)
  then show ?thesis using assms(2) run_thread_fill_None [OF fills(3)] by (simp add: thread_known_def)
next
  case (no_vaddr b r d)
  then show ?thesis using assms(2) run_thread_fill_Some [OF no_vaddr(3)] by (simp add: thread_known_def)
next
  case (stop_returns r)
  then show ?thesis using stop_streaming_result [of "sdev s"] by (simp add: thread_known_def)
qed (auto simp: thread_known_def start_streaming_task run_thread_dequeue split: list.splits)

lemma stream_step_inv: "stream_step stack s t \<Longrightarrow> owner_inv s \<Longrightarrow> owner_inv t"
  unfolding owner_inv_def
  using stream_step_conserved stream_step_at_most_once stream_step_thread_known by blast

lemma stream_reachable_inv:
  assumes "stream_reachable stack d s"
    and "active_of d = []" "done_log d = []" "kthread (dmaq d) = KNull"
  shows "owner_inv s"
  using assms(1)
proof induction
  case initial
  show ?case using assms(2-4) by (rule stream_init_inv)
next
  case (further s t)
  then show ?case using stream_step_inv by blast
qed


section \<open>The ownership protocol\<close>








lemma count_map_fst_pairs: "count (mset (map fst (map (\<lambda>b. (b, x)) bs))) c = count (mset bs) c"
  by (simp add: comp_def)



section \<open>Buffers whose plane is mapped are never lost\<close>

definition planes_mapped :: "fake_vid_device \<Rightarrow> bool" where
  "planes_mapped d = (\<forall>b. plane (frames d b) \<noteq> None)"

lemma thread_fill_planes:
  "run (thread_fill stack b) d = (r, d') \<Longrightarrow> planes_mapped d \<Longrightarrow> planes_mapped d' \<and> r \<noteq> Inr (Some n)"
  by (cases "plane (frames d b)")
     (auto simp: thread_fill_def planes_mapped_def prog_simps split: option.splits dest: spec [of _ b])

lemma stream_step_nothing_lost:
  assumes "stream_step stack s t" "planes_mapped (sdev s) \<and> lost s = []"
  shows "planes_mapped (sdev t) \<and> lost t = []"
  using assms
proof (cases rule: stream_step.cases)
  case (fills b d)
  then show ?thesis using assms(2) thread_fill_planes [OF fills(3)] by simp
next
  case (no_vaddr b r d)
  then show ?thesis using assms(2) thread_fill_planes [OF no_vaddr(3)] by blast
next
  case (stop_returns r)
  then show ?thesis using assms(2) stop_streaming_result [of "sdev s"] by (simp add: planes_mapped_def)
qed (auto simp: planes_mapped_def start_streaming_task run_thread_dequeue split: list.splits)

lemma stream_reachable_nothing_lost:
  "stream_reachable stack d s \<Longrightarrow> planes_mapped d \<Longrightarrow> planes_mapped (sdev s) \<and> lost s = []"
  by (induction rule: stream_reachable.induct)
     (auto simp: stream_init_def dest: stream_step_nothing_lost)

section \<open>Properties\<close>

definition idle_device :: fake_vid_device where
  "idle_device = set_active [] (set_kthread KNull sample_device)"

lemma idle_device_simps [simp]:
  "active_of idle_device = []" "done_log idle_device = []" "kthread (dmaq idle_device) = KNull"
  "frames idle_device b = sample_frame"
  by (simp_all add: idle_device_def)

text \<open>A short run: one buffer is queued, the stream starts and the thread takes the buffer.\<close>

definition sample_run :: stream_sys where
  "sample_run = \<lparr>sdev = set_active [] (set_kthread KTask (buf_queue 3 idle_device)), tpc = Filling 3,
     stopping = False, queued = [3], lost = []\<rparr>"

lemma sample_run_reachable: "stream_reachable stack idle_device sample_run"
proof -
  let ?s1 = "\<lparr>sdev = buf_queue 3 idle_device, tpc = NoThread, stopping = False, queued = [3], lost = []\<rparr>"
  let ?d = "set_kthread KTask (buf_queue 3 idle_device)"
  have "stream_step stack (stream_init idle_device) ?s1"
    using stream_step.queues [of "stream_init idle_device" 3 stack]
    by (simp add: stream_init_def user_owns_def returned_of_def)
  moreover have "stream_step stack ?s1 (?s1\<lparr>sdev := ?d, tpc := AtLoop\<rparr>)"
    by (rule stream_step.starts [where r = 0]) (simp_all add: start_streaming_task)
  moreover have "stream_step stack (?s1\<lparr>sdev := ?d, tpc := AtLoop\<rparr>) (?s1\<lparr>sdev := ?d, tpc := AtDequeue\<rparr>)"
    using stream_step.goes_on [of "?s1\<lparr>sdev := ?d, tpc := AtLoop\<rparr>" stack] by simp
  moreover have "stream_step stack (?s1\<lparr>sdev := ?d, tpc := AtDequeue\<rparr>) sample_run"
    using stream_step.dequeues [of "?s1\<lparr>sdev := ?d, tpc := AtDequeue\<rparr>" 3 "set_active [] ?d" stack]
    by (simp add: run_thread_dequeue sample_run_def)
  ultimately show ?thesis
    by (meson stream_reachable.initial stream_reachable.further)
qed





text \<open>
  When \<open>stop_streaming\<close> returns and the planes of the buffers are mapped, everything is back
  with the user: the list is empty, the thread is gone and the user owns every buffer again, each
  queued buffer having been handed back exactly once.
\<close>

theorem stopped_stream_owns_nothing:
  assumes "stream_reachable stack d s" "stopping s" "tpc s = Exited r"
    and "active_of d = []" "done_log d = []" "kthread (dmaq d) = KNull" "planes_mapped d"
    and "t = s\<lparr>sdev := snd (stop_streaming (sdev s)), tpc := NoThread, stopping := False\<rparr>"
  shows "stream_step stack s t \<and> active_of (sdev t) = [] \<and>
    mset (queued t) = mset (map fst (done_log (sdev t))) \<and> (\<forall>b. user_owns t b)"
proof -
  have step: "stream_step stack s t"
    using assms(2,3,8) stream_step.stop_returns by blast
  then have "stream_reachable stack d t" using assms(1) by (rule stream_reachable.further [rotated])
  then have "owner_inv t" "lost t = []"
    using stream_reachable_inv assms(4-6) stream_reachable_nothing_lost assms(7) by blast+
  moreover have "active_of (sdev t) = []" "tpc t = NoThread"
    using assms(8) stop_streaming_result [of "sdev s"] by simp_all
  ultimately show ?thesis
    using step by (auto simp: owner_inv_def conserved_def in_hand_def returned_of_def user_owns_def)
qed

text \<open>The run of the witness: the thread fills its buffer after the stop has been asked for.\<close>

lemma stopped_run_reachable:
  "\<exists>s. stream_reachable (replicate 128 CHR ''s'') idle_device s \<and> stopping s \<and> tpc s = Exited 0"
proof -
  let ?k = "replicate 128 CHR ''s''"
  let ?s = "sample_run\<lparr>stopping := True\<rparr>"
  have f: "fillable (frames (sdev ?s) 3)"
    by (simp add: sample_run_def fillable_def sample_frame_def)
  obtain e where e: "run (thread_fill ?k 3) (sdev ?s) = (Inr None, e)"
    using run_thread_fill [OF f] by blast
  have "stream_step ?k sample_run ?s"
    by (rule stream_step.stop_called) (simp_all add: sample_run_def)
  moreover have "stream_step ?k ?s (?s\<lparr>sdev := e, tpc := AtLoop\<rparr>)"
    by (rule stream_step.fills [OF _ e]) (simp add: sample_run_def)
  moreover have "stream_step ?k (?s\<lparr>sdev := e, tpc := AtLoop\<rparr>) (?s\<lparr>sdev := e, tpc := Exited 0\<rparr>)"
    using stream_step.sees_stop [of "?s\<lparr>sdev := e, tpc := AtLoop\<rparr>" ?k] by simp
  ultimately have "stream_reachable ?k idle_device (?s\<lparr>sdev := e, tpc := Exited 0\<rparr>)"
    by (meson sample_run_reachable stream_reachable.further)
  then show ?thesis by (intro exI [of _ "?s\<lparr>sdev := e, tpc := Exited 0\<rparr>"]) simp
qed

theorem stopped_stream_owns_nothing_witness:
  "\<exists>s t. stream_reachable (replicate 128 CHR ''s'') idle_device s \<and> stopping s \<and>
     stream_step (replicate 128 CHR ''s'') s t \<and> active_of (sdev t) = [] \<and> user_owns t 3"
proof -
  obtain s where s: "stream_reachable (replicate 128 CHR ''s'') idle_device s" "stopping s" "tpc s = Exited 0"
    using stopped_run_reachable by blast
  have "planes_mapped idle_device" by (simp add: planes_mapped_def sample_frame_def)
  with stopped_stream_owns_nothing [OF s _ _ _ _ refl] s(1,2) show ?thesis
    by (intro exI [of _ s] exI [of _ "s\<lparr>sdev := snd (stop_streaming (sdev s)), tpc := NoThread, stopping := False\<rparr>"])
       simp
qed





end
