(* ===== verification/Vid_Module.thy ===== *)
theory Vid_Module
  imports Vid4linux
begin

text \<open>
  Loading and unloading the fake capture device: \<open>v4l2_init\<close> and \<open>v4l2_exit\<close> of
  \<open>src/lkml/v4l2/vid4linux.c\<close>. Addresses answered by the allocators are 0 for NULL. The structure
  \<open>fake_vid_device\<close> embeds a \<open>video_device\<close> at a fixed offset; the code registers another one that
  it allocates.
\<close>

section \<open>State and kernel answers\<close>






section \<open>Operations\<close>





section \<open>Properties\<close>








end
