(* ===== verification/Getopt.thy ===== *)
theory Getopt
  imports C_String
begin

text \<open>
  \<open>getopt_long\<close> of the C library, as \<open>src/lkml/v4l2-app/grabber.c\<close> uses it: the answers of successive
  calls until it answers -1, each an option's character with its argument. Options and operands may be
  mixed (operands are moved to the end, where the program ignores them), short options may be put
  together behind one dash, an argument follows directly or is the next word, long options may be cut
  short as long as one name is left, \<open>--\<close> ends the options. A word that is no option or lacks its
  argument is answered with a question mark.
\<close>

datatype has_arg = no_argument | required_argument

record longopt =
  lname :: string
  larg :: has_arg
  lval :: char

definition QUESTION :: char where "QUESTION = CHR ''?''"

text \<open>A short option's character in the option string, and whether a colon follows it.\<close>

fun short_opt :: "string \<Rightarrow> char \<Rightarrow> has_arg option" where
  "short_opt [] c = None"
| "short_opt (o' # os) c =
     (if o' = c \<and> c \<noteq> CHR '':'' then Some (if char_at os = CHR '':'' then required_argument else no_argument)
      else short_opt os c)"

text \<open>The characters behind one dash, with the words that follow; the words left over.\<close>

fun short_cluster :: "string \<Rightarrow> string \<Rightarrow> string list \<Rightarrow> (char \<times> string) list \<times> string list" where
  "short_cluster os [] ws = ([], ws)"
| "short_cluster os (c # cs) ws =
     (case short_opt os c of
        None \<Rightarrow> (let (as, ws') = short_cluster os cs ws in ((QUESTION, []) # as, ws'))
      | Some no_argument \<Rightarrow> (let (as, ws') = short_cluster os cs ws in ((c, []) # as, ws'))
      | Some required_argument \<Rightarrow>
          if cs \<noteq> [] then ([(c, cs)], ws)
          else case ws of [] \<Rightarrow> ([(QUESTION, [])], []) | w # ws' \<Rightarrow> ([(c, w)], ws'))"

text \<open>The name given, and the argument behind the equals sign, if there is one.\<close>

definition split_eq :: "string \<Rightarrow> string \<times> string option" where
  "split_eq w =
     (let (name, rest) = (takeWhile (\<lambda>c. c \<noteq> CHR ''='') w, dropWhile (\<lambda>c. c \<noteq> CHR ''='') w)
      in (name, if rest = [] then None else Some (tl rest)))"

fun is_prefix :: "string \<Rightarrow> string \<Rightarrow> bool" where
  "is_prefix [] t = True"
| "is_prefix (c # s) [] = False"
| "is_prefix (c # s) (d # t) = (c = d \<and> is_prefix s t)"

definition find_long :: "longopt list \<Rightarrow> string \<Rightarrow> longopt option" where
  "find_long los name =
     (case filter (\<lambda>l. lname l = name) los of
        l # _ \<Rightarrow> Some l
      | [] \<Rightarrow> (case filter (\<lambda>l. is_prefix name (lname l)) los of [l] \<Rightarrow> Some l | _ \<Rightarrow> None))"

definition long_word :: "longopt list \<Rightarrow> string \<Rightarrow> string list \<Rightarrow> (char \<times> string) \<times> string list" where
  "long_word los w ws =
     (let (name, arg) = split_eq w in
      case find_long los name of
        None \<Rightarrow> ((QUESTION, []), ws)
      | Some l \<Rightarrow>
          (case (larg l, arg) of
             (no_argument, None) \<Rightarrow> ((lval l, []), ws)
           | (no_argument, Some _) \<Rightarrow> ((QUESTION, []), ws)
           | (required_argument, Some a) \<Rightarrow> ((lval l, a), ws)
           | (required_argument, None) \<Rightarrow>
               (case ws of [] \<Rightarrow> ((QUESTION, []), []) | a # ws' \<Rightarrow> ((lval l, a), ws'))))"

lemma short_cluster_rest: "length (snd (short_cluster os cs ws)) \<le> length ws"
  by (induction os cs ws rule: short_cluster.induct)
     (auto split: option.splits has_arg.splits list.splits prod.splits)

lemma long_word_rest: "length (snd (long_word los w ws)) \<le> length ws"
  by (auto simp: long_word_def split: option.splits has_arg.splits list.splits prod.splits)

function getopt_long :: "string \<Rightarrow> longopt list \<Rightarrow> string list \<Rightarrow> (char \<times> string) list" where
  "getopt_long os los [] = []"
| "getopt_long os los (w # ws) =
     (if w = ''--'' then []
      else if take 2 w = ''--'' then
        (let (a, ws') = long_word los (drop 2 w) ws in a # getopt_long os los ws')
      else if char_at w = CHR ''-'' \<and> tl w \<noteq> [] then
        (let (as, ws') = short_cluster os (tl w) ws in as @ getopt_long os los ws')
      else getopt_long os los ws)"
  by pat_completeness auto
termination
proof (relation "measure (\<lambda>(_, _, ws). length ws)", goal_cases)
  case (2 os los w ws x a ws')
  then show ?case using long_word_rest [of los "drop 2 w" ws] by (cases "long_word los (drop 2 w) ws") simp
next
  case (3 os los w ws x as ws')
  then show ?case using short_cluster_rest [of os "tl w" ws] by (cases "short_cluster os (tl w) ws") simp
qed simp_all

declare getopt_long.simps(2) [simp del]

section \<open>Writing options\<close>

text \<open>
  The ways to write one option on the command line: its letter with the argument attached or as the
  next word, or a long name, with an equals sign or the argument as the next word.
\<close>

datatype style = ShortAttached | ShortApart | LongEquals | LongApart

definition write_option :: "style \<Rightarrow> longopt \<Rightarrow> string \<Rightarrow> string list" where
  "write_option st l arg =
     (case (larg l, st) of
        (no_argument, ShortAttached) \<Rightarrow> [[CHR ''-'', lval l]]
      | (no_argument, ShortApart) \<Rightarrow> [[CHR ''-'', lval l]]
      | (no_argument, _) \<Rightarrow> [''--'' @ lname l]
      | (required_argument, ShortAttached) \<Rightarrow> [CHR ''-'' # lval l # arg]
      | (required_argument, ShortApart) \<Rightarrow> [[CHR ''-'', lval l], arg]
      | (required_argument, LongEquals) \<Rightarrow> [''--'' @ lname l @ CHR ''='' # arg]
      | (required_argument, LongApart) \<Rightarrow> [''--'' @ lname l, arg])"

definition option_answer :: "longopt \<Rightarrow> string \<Rightarrow> char \<times> string" where
  "option_answer l arg = (lval l, case larg l of no_argument \<Rightarrow> [] | required_argument \<Rightarrow> arg)"

text \<open>An attached argument that is empty cannot be told from a missing one.\<close>

definition writable :: "style \<Rightarrow> longopt \<Rightarrow> string \<Rightarrow> bool" where
  "writable st l arg \<longleftrightarrow> (larg l = required_argument \<and> st = ShortAttached \<longrightarrow> arg \<noteq> [])"

text \<open>
  Tables that agree: names without equals sign, no two alike, and each letter declared with the same
  need of an argument.
\<close>

definition tables_agree :: "string \<Rightarrow> longopt list \<Rightarrow> bool" where
  "tables_agree os los \<longleftrightarrow> distinct (map lname los) \<and>
     list_all (\<lambda>l. lname l \<noteq> [] \<and> CHR ''='' \<notin> set (lname l) \<and> lval l \<noteq> CHR ''-'' \<and> short_opt os (lval l) = Some (larg l)) los"

lemma split_eq_plain: "CHR ''='' \<notin> set name \<Longrightarrow> split_eq name = (name, None)"
proof -
  assume "CHR ''='' \<notin> set name"
  then have "\<forall>c\<in>set name. c \<noteq> CHR ''=''" by auto
  then show ?thesis by (simp add: split_eq_def takeWhile_eq_all_conv dropWhile_eq_Nil_conv)
qed

lemma split_eq_arg: "CHR ''='' \<notin> set name \<Longrightarrow> split_eq (name @ CHR ''='' # arg) = (name, Some arg)"
proof -
  assume "CHR ''='' \<notin> set name"
  then have "\<forall>c\<in>set name. c \<noteq> CHR ''=''" by auto
  then show ?thesis by (simp add: split_eq_def takeWhile_append2 dropWhile_append2)
qed

lemma find_long_exact:
  assumes "distinct (map lname los)" "l \<in> set los"
  shows "find_long los (lname l) = Some l"
proof -
  have "filter (\<lambda>k. lname k = lname l) los = [l]"
    using assms by (induction los) (auto simp: filter_empty_conv, metis image_eqI)
  then show ?thesis by (simp add: find_long_def)
qed

text \<open>Each way of writing one option is read as that option, whatever words follow.\<close>

lemma getopt_long_option:
  assumes "tables_agree os los" "l \<in> set los" "writable st l arg"
  shows "getopt_long os los (write_option st l arg @ ws) = option_answer l arg # getopt_long os los ws"
proof -
  have l: "lname l \<noteq> []" "CHR ''='' \<notin> set (lname l)" "lval l \<noteq> CHR ''-''" "short_opt os (lval l) = Some (larg l)"
    using assms(1,2) by (auto simp: tables_agree_def list_all_iff)
  have find: "find_long los (lname l) = Some l"
    using assms(1,2) by (auto simp: tables_agree_def intro: find_long_exact)
  note read = getopt_long.simps(2) long_word_def char_at_def option_answer_def write_option_def
  show ?thesis
    using assms(3) l find split_eq_plain [OF l(2)] split_eq_arg [OF l(2), of arg]
    by (cases "larg l"; cases st) (auto simp: read writable_def split: list.split)
qed

end
