(* ===== verification/Grabber.thy ===== *)
theory Grabber
  imports Getopt V4l2_Api
begin

text \<open>
  The capture program \<open>src/lkml/v4l2-app/grabber.c\<close>, operation by operation. The operating system
  is an argument: a record of functions on a state of its own, the world, each of which answers the
  return value, the error number and what it stored in the structure it was given. The program's
  global variables are a record. The field \<open>trace\<close> records the completed calls and the images
  processed; it is not read by the program.

  Loops that go on while calls are interrupted may not end: the operating system's record says how
  many interruptions in a row are looked at (\<open>patience\<close>), and a run that meets more is cut off with
  \<open>Impatient\<close>. An access through NULL or beyond the buffer array is \<open>SegFault\<close>.
\<close>

section \<open>Structures\<close>

datatype io_method = IO_METHOD_READ | IO_METHOD_MMAP | IO_METHOD_USERPTR

record buffer =
  start :: u32
  length_of :: u32

datatype v4l2_memory = V4L2_MEMORY_NONE | V4L2_MEMORY_MMAP | V4L2_MEMORY_USERPTR

text \<open>The member \<open>m\<close> is the union of the offset and the user pointer.\<close>

record v4l2_buffer =
  index :: u32
  memory :: v4l2_memory
  bytesused :: u32
  m :: u32
  buf_len :: u32

definition cleared_buffer :: v4l2_buffer where
  "cleared_buffer = \<lparr>index = 0, memory = V4L2_MEMORY_NONE, bytesused = 0, m = 0, buf_len = 0\<rparr>"

record v4l2_requestbuffers =
  req_count :: u32
  req_memory :: v4l2_memory

type_synonym v4l2_rect = "int \<times> int \<times> int \<times> int"

definition cleared_fmt :: v4l2_pix_format where
  "cleared_fmt = \<lparr>pix_width = 0, pix_height = 0, pix_field = V4L2_FIELD_ANY, pix_pixelformat = FOURCC_ZERO,
     bytesperline = 0, sizeimage = 0, colorspace = V4L2_COLORSPACE_DEFAULT\<rparr>"

datatype buf_req = VIDIOC_QUERYBUF | VIDIOC_QBUF | VIDIOC_DQBUF
datatype stream_req = VIDIOC_STREAMON | VIDIOC_STREAMOFF
datatype fmt_req = VIDIOC_G_FMT | VIDIOC_S_FMT

datatype gcall =
    BufCall buf_req v4l2_buffer int v4l2_buffer
  | StreamCall stream_req int
  | ReqBufs v4l2_requestbuffers int v4l2_requestbuffers
  | QueryCap int
  | CropCap int
  | SCrop v4l2_rect int
  | FmtCall fmt_req int
  | Read u32 u32 int
  | Select int
  | Mmap u32 u32 u32
  | Munmap u32 u32 int
  | Malloc u32 u32
  | Calloc u32 bool
  | Free u32
  | FreeBuffers
  | Open string int
  | Close int int
  | Image u32 u32
  | Output u32 u32
  | Usage bool string

definition MAP_FAILED :: u32 where "MAP_FAILED = - 1"

record 'w os =
  patience :: nat
  ioctl_buf :: "int \<Rightarrow> buf_req \<Rightarrow> v4l2_buffer \<Rightarrow> 'w \<Rightarrow> int \<times> int \<times> v4l2_buffer \<times> 'w"
  ioctl_stream :: "int \<Rightarrow> stream_req \<Rightarrow> unit \<Rightarrow> 'w \<Rightarrow> int \<times> int \<times> unit \<times> 'w"
  ioctl_reqbufs :: "int \<Rightarrow> v4l2_requestbuffers \<Rightarrow> 'w \<Rightarrow> int \<times> int \<times> v4l2_requestbuffers \<times> 'w"
  ioctl_querycap :: "int \<Rightarrow> v4l2_capability \<Rightarrow> 'w \<Rightarrow> int \<times> int \<times> v4l2_capability \<times> 'w"
  ioctl_cropcap :: "int \<Rightarrow> v4l2_rect \<Rightarrow> 'w \<Rightarrow> int \<times> int \<times> v4l2_rect \<times> 'w"
  ioctl_s_crop :: "int \<Rightarrow> v4l2_rect \<Rightarrow> 'w \<Rightarrow> int \<times> int \<times> v4l2_rect \<times> 'w"
  ioctl_fmt :: "int \<Rightarrow> fmt_req \<Rightarrow> v4l2_pix_format \<Rightarrow> 'w \<Rightarrow> int \<times> int \<times> v4l2_pix_format \<times> 'w"
  sys_read :: "int \<Rightarrow> u32 \<Rightarrow> u32 \<Rightarrow> 'w \<Rightarrow> int \<times> int \<times> unit \<times> 'w"
  sys_select :: "int \<Rightarrow> 'w \<Rightarrow> int \<times> int \<times> unit \<times> 'w"
  sys_mmap :: "u32 \<Rightarrow> int \<Rightarrow> u32 \<Rightarrow> 'w \<Rightarrow> int \<times> u32 \<times> 'w"
  sys_munmap :: "u32 \<Rightarrow> u32 \<Rightarrow> 'w \<Rightarrow> int \<times> int \<times> unit \<times> 'w"
  sys_malloc :: "u32 \<Rightarrow> 'w \<Rightarrow> u32 \<times> 'w"
  sys_calloc :: "u32 \<Rightarrow> 'w \<Rightarrow> bool \<times> 'w"
  sys_stat :: "string \<Rightarrow> 'w \<Rightarrow> int \<times> int \<times> bool \<times> 'w"
  sys_open :: "string \<Rightarrow> 'w \<Rightarrow> int \<times> int \<times> unit \<times> 'w"
  sys_close :: "int \<Rightarrow> 'w \<Rightarrow> int \<times> int \<times> unit \<times> 'w"

text \<open>The global variables; \<open>buffers\<close> is NULL or an array.\<close>

record 'w grab =
  world :: 'w
  errno :: int
  dev_name :: string
  io :: io_method
  fd :: int
  buffers :: "buffer list option"
  n_buffers :: nat
  out_buf :: int
  force_format :: int
  frame_count :: int
  trace :: "gcall list"

datatype stop = ExitCode int | AssertFailed | SegFault | Impatient

type_synonym ('w, 'a) gprog = "('w grab, stop, 'a) prog"

section \<open>Calls\<close>

definition log_call :: "gcall \<Rightarrow> ('w, unit) gprog" where
  "log_call c = modify (\<lambda>s. s\<lparr>trace := trace s @ [c]\<rparr>)"

text \<open>One system call: the error number is set when the result is -1.\<close>

definition syscall :: "('w \<Rightarrow> int \<times> int \<times> 'a \<times> 'w) \<Rightarrow> ('w, int \<times> 'a) gprog" where
  "syscall f = Prog (\<lambda>s. case f (world s) of
     (r, e, a, w) \<Rightarrow> (Inr (r, a), s\<lparr>world := w, errno := (if r = - 1 then e else errno s)\<rparr>))"

definition errno_exit :: "('w, 'a) gprog" where
  "errno_exit = throw (ExitCode 1)"

primrec xioctl_loop ::
    "('x \<Rightarrow> 'w \<Rightarrow> int \<times> int \<times> 'x \<times> 'w) \<Rightarrow> nat \<Rightarrow> 'x \<Rightarrow> ('w, int \<times> 'x) gprog" where
  "xioctl_loop f 0 a = throw Impatient"
| "xioctl_loop f (Suc k) a =
     bindE (syscall (f a)) (\<lambda>(r, a').
     bindE (gets errno) (\<lambda>e.
     if r = - 1 \<and> e = EINTR then xioctl_loop f k a' else ret (r, a')))"

definition xioctl :: "'w os \<Rightarrow> ('x \<Rightarrow> 'w \<Rightarrow> int \<times> int \<times> 'x \<times> 'w) \<Rightarrow> (int \<Rightarrow> 'x \<Rightarrow> gcall) \<Rightarrow> 'x \<Rightarrow>
    ('w, int \<times> 'x) gprog" where
  "xioctl os f ev a =
     bindE (xioctl_loop f (patience os) a) (\<lambda>(r, a').
     seqE (log_call (ev r a')) (ret (r, a')))"

definition xbuf :: "'w os \<Rightarrow> buf_req \<Rightarrow> v4l2_buffer \<Rightarrow> ('w, int \<times> v4l2_buffer) gprog" where
  "xbuf os rq b = bindE (gets fd) (\<lambda>h. xioctl os (ioctl_buf os h rq) (BufCall rq b) b)"

definition xstream :: "'w os \<Rightarrow> stream_req \<Rightarrow> ('w, int \<times> unit) gprog" where
  "xstream os rq = bindE (gets fd) (\<lambda>h. xioctl os (ioctl_stream os h rq) (\<lambda>r _. StreamCall rq r) ())"

text \<open>\<open>buffers[i]\<close>\<close>

definition buffer_at :: "nat \<Rightarrow> ('w, buffer) gprog" where
  "buffer_at i = bindE (gets buffers) (\<lambda>bs.
     case bs of
       None \<Rightarrow> throw SegFault
     | Some l \<Rightarrow> if i < length l then ret (l ! i) else throw SegFault)"

definition set_buffer :: "nat \<Rightarrow> buffer \<Rightarrow> ('w, unit) gprog" where
  "set_buffer i b = bindE (gets buffers) (\<lambda>bs.
     case bs of
       None \<Rightarrow> throw SegFault
     | Some l \<Rightarrow> if i < length l then modify (\<lambda>s. s\<lparr>buffers := Some (l[i := b])\<rparr>) else throw SegFault)"

section \<open>Frames\<close>

definition process_image :: "u32 \<Rightarrow> u32 \<Rightarrow> ('w, unit) gprog" where
  "process_image p sz =
     bindE (gets out_buf) (\<lambda>o'.
     seqE (if_then (o' \<noteq> 0) (log_call (Output p sz)))
          (log_call (Image p sz)))"

definition read_frame_read :: "'w os \<Rightarrow> ('w, int) gprog" where
  "read_frame_read os =
     bindE (buffer_at 0) (\<lambda>b.
     bindE (gets fd) (\<lambda>h.
     bindE (syscall (sys_read os h (start b) (length_of b))) (\<lambda>(r, _).
     seqE (log_call (Read (start b) (length_of b) r))
     (bindE (gets errno) (\<lambda>e.
     if r = - 1 then (if e = EAGAIN then ret 0 else errno_exit)
     else seqE (process_image (start b) (length_of b)) (ret 1))))))"

definition read_frame_mmap :: "'w os \<Rightarrow> ('w, int) gprog" where
  "read_frame_mmap os =
     bindE (xbuf os VIDIOC_DQBUF (cleared_buffer\<lparr>memory := V4L2_MEMORY_MMAP\<rparr>)) (\<lambda>(r, buf).
     bindE (gets errno) (\<lambda>e.
     if r = - 1 then (if e = EAGAIN then ret 0 else errno_exit)
     else
       bindE (gets n_buffers) (\<lambda>n.
       if \<not> unat (index buf) < n then throw AssertFailed
       else
         bindE (buffer_at (unat (index buf))) (\<lambda>b.
         seqE (process_image (start b) (bytesused buf))
         (bindE (xbuf os VIDIOC_QBUF buf) (\<lambda>(r, _).
          if r = - 1 then errno_exit else ret 1))))))"

text \<open>The search loop of the user pointer case stops at the first buffer with the pointer and length.\<close>

primrec find_buffer :: "u32 \<Rightarrow> u32 \<Rightarrow> nat list \<Rightarrow> ('w, bool) gprog" where
  "find_buffer p len [] = ret False"
| "find_buffer p len (i # is) =
     bindE (buffer_at i) (\<lambda>b.
     if p = start b \<and> len = length_of b then ret True else find_buffer p len is)"

definition read_frame_userptr :: "'w os \<Rightarrow> ('w, int) gprog" where
  "read_frame_userptr os =
     bindE (xbuf os VIDIOC_DQBUF (cleared_buffer\<lparr>memory := V4L2_MEMORY_USERPTR\<rparr>)) (\<lambda>(r, buf).
     bindE (gets errno) (\<lambda>e.
     if r = - 1 then (if e = EAGAIN then ret 0 else errno_exit)
     else
       bindE (gets n_buffers) (\<lambda>n.
       bindE (find_buffer (m buf) (buf_len buf) [0..<n]) (\<lambda>found.
       if \<not> found then throw AssertFailed
       else
         seqE (process_image (m buf) (bytesused buf))
         (bindE (xbuf os VIDIOC_QBUF buf) (\<lambda>(r, _).
          if r = - 1 then errno_exit else ret 1))))))"

definition read_frame :: "'w os \<Rightarrow> ('w, int) gprog" where
  "read_frame os =
     bindE (gets io) (\<lambda>i.
     case i of
       IO_METHOD_READ \<Rightarrow> read_frame_read os
     | IO_METHOD_MMAP \<Rightarrow> read_frame_mmap os
     | IO_METHOD_USERPTR \<Rightarrow> read_frame_userptr os)"

text \<open>
  The inner loop of \<open>mainloop\<close>: it goes round again when \<open>select\<close> is interrupted and when there is
  no frame yet.
\<close>

primrec select_loop :: "'w os \<Rightarrow> nat \<Rightarrow> ('w, unit) gprog" where
  "select_loop os 0 = throw Impatient"
| "select_loop os (Suc k) =
     bindE (gets fd) (\<lambda>h.
     bindE (syscall (sys_select os (h + 1))) (\<lambda>(r, _).
     seqE (log_call (Select r))
     (bindE (gets errno) (\<lambda>e.
     if r = - 1 then (if e = EINTR then select_loop os k else errno_exit)
     else if r = 0 then throw (ExitCode 1)
     else bindE (read_frame os) (\<lambda>got. if got \<noteq> 0 then ret () else select_loop os k)))))"

text \<open>The variable \<open>count\<close> is an \<open>unsigned int\<close>.\<close>

definition loop_count :: "int \<Rightarrow> nat" where
  "loop_count c = unat (word_of_int c :: u32)"

definition mainloop :: "'w os \<Rightarrow> ('w, unit) gprog" where
  "mainloop os =
     bindE (gets frame_count) (\<lambda>c.
     for_each [0..<loop_count c] (\<lambda>_. select_loop os (patience os)))"

section \<open>Start and stop\<close>

definition stop_capturing :: "'w os \<Rightarrow> ('w, unit) gprog" where
  "stop_capturing os =
     bindE (gets io) (\<lambda>i.
     if i = IO_METHOD_READ then ret ()
     else bindE (xstream os VIDIOC_STREAMOFF) (\<lambda>(r, _). if r = - 1 then errno_exit else ret ()))"

definition queue_mmap :: "'w os \<Rightarrow> nat \<Rightarrow> ('w, unit) gprog" where
  "queue_mmap os i =
     bindE (xbuf os VIDIOC_QBUF (cleared_buffer\<lparr>memory := V4L2_MEMORY_MMAP, index := word_of_nat i\<rparr>)) (\<lambda>(r, _).
     if r = - 1 then errno_exit else ret ())"

definition queue_userptr :: "'w os \<Rightarrow> nat \<Rightarrow> ('w, unit) gprog" where
  "queue_userptr os i =
     bindE (buffer_at i) (\<lambda>b.
     bindE (xbuf os VIDIOC_QBUF (cleared_buffer\<lparr>memory := V4L2_MEMORY_USERPTR, index := word_of_nat i,
         m := start b, buf_len := length_of b\<rparr>)) (\<lambda>(r, _).
     if r = - 1 then errno_exit else ret ()))"

definition start_capturing :: "'w os \<Rightarrow> ('w, unit) gprog" where
  "start_capturing os =
     bindE (gets io) (\<lambda>i.
     bindE (gets n_buffers) (\<lambda>n.
     case i of
       IO_METHOD_READ \<Rightarrow> ret ()
     | IO_METHOD_MMAP \<Rightarrow>
         seqE (for_each [0..<n] (queue_mmap os))
         (bindE (xstream os VIDIOC_STREAMON) (\<lambda>(r, _). if r = - 1 then errno_exit else ret ()))
     | IO_METHOD_USERPTR \<Rightarrow>
         seqE (for_each [0..<n] (queue_userptr os))
         (bindE (xstream os VIDIOC_STREAMON) (\<lambda>(r, _). if r = - 1 then errno_exit else ret ()))))"

definition unmap_buffer :: "'w os \<Rightarrow> nat \<Rightarrow> ('w, unit) gprog" where
  "unmap_buffer os i =
     bindE (buffer_at i) (\<lambda>b.
     bindE (syscall (sys_munmap os (start b) (length_of b))) (\<lambda>(r, _).
     seqE (log_call (Munmap (start b) (length_of b) r))
     (if r = - 1 then errno_exit else ret ())))"

definition free_buffer :: "nat \<Rightarrow> ('w, unit) gprog" where
  "free_buffer i = bindE (buffer_at i) (\<lambda>b. log_call (Free (start b)))"

definition uninit_device :: "'w os \<Rightarrow> ('w, unit) gprog" where
  "uninit_device os =
     bindE (gets io) (\<lambda>i.
     bindE (gets n_buffers) (\<lambda>n.
     seqE (case i of
             IO_METHOD_READ \<Rightarrow> free_buffer 0
           | IO_METHOD_MMAP \<Rightarrow> for_each [0..<n] (unmap_buffer os)
           | IO_METHOD_USERPTR \<Rightarrow> for_each [0..<n] free_buffer)
          (log_call FreeBuffers)))"

section \<open>Initialisation\<close>

definition malloc_call :: "'w os \<Rightarrow> u32 \<Rightarrow> ('w, u32) gprog" where
  "malloc_call os n =
     bindE (gets (\<lambda>s. sys_malloc os n (world s))) (\<lambda>(p, w).
     seqE (modify (\<lambda>s. s\<lparr>world := w\<rparr>)) (seqE (log_call (Malloc n p)) (ret p)))"

text \<open>\<open>calloc\<close> of \<open>n\<close> buffer structures: cleared, or NULL.\<close>

definition calloc_buffers :: "'w os \<Rightarrow> u32 \<Rightarrow> ('w, unit) gprog" where
  "calloc_buffers os n =
     bindE (gets (\<lambda>s. sys_calloc os n (world s))) (\<lambda>(ok, w).
     seqE (modify (\<lambda>s. s\<lparr>world := w, buffers :=
        (if ok then Some (replicate (unat n) \<lparr>start = 0, length_of = 0\<rparr>) else None)\<rparr>))
     (seqE (log_call (Calloc n ok))
     (if ok then ret () else throw (ExitCode 1))))"

definition init_read :: "'w os \<Rightarrow> u32 \<Rightarrow> ('w, unit) gprog" where
  "init_read os buffer_size =
     seqE (calloc_buffers os 1)
     (bindE (malloc_call os buffer_size) (\<lambda>p.
     seqE (set_buffer 0 \<lparr>start = p, length_of = buffer_size\<rparr>)
     (if p = 0 then throw (ExitCode 1) else ret ())))"

text \<open>The body of the loop for buffer \<open>i\<close>, with the increment of \<open>n_buffers\<close> at its end.\<close>

definition map_buffer :: "'w os \<Rightarrow> nat \<Rightarrow> ('w, unit) gprog" where
  "map_buffer os i =
     bindE (xbuf os VIDIOC_QUERYBUF (cleared_buffer\<lparr>memory := V4L2_MEMORY_MMAP, index := word_of_nat i\<rparr>)) (\<lambda>(r, buf).
     if r = - 1 then errno_exit
     else
       bindE (gets fd) (\<lambda>h.
       bindE (gets (\<lambda>s. sys_mmap os (buf_len buf) h (m buf) (world s))) (\<lambda>(e, p, w).
       seqE (modify (\<lambda>s. s\<lparr>world := w, errno := (if p = MAP_FAILED then e else errno s)\<rparr>))
       (seqE (log_call (Mmap (buf_len buf) (m buf) p))
       (seqE (set_buffer i \<lparr>start = p, length_of = buf_len buf\<rparr>)
       (if p = MAP_FAILED then errno_exit
        else modify (\<lambda>s. s\<lparr>n_buffers := i + 1\<rparr>)))))))"

definition request_buffers :: "'w os \<Rightarrow> v4l2_memory \<Rightarrow> ('w, v4l2_requestbuffers) gprog" where
  "request_buffers os mem =
     (let req = \<lparr>req_count = 4, req_memory = mem\<rparr> in
      bindE (gets fd) (\<lambda>h.
      bindE (xioctl os (ioctl_reqbufs os h) (ReqBufs req) req) (\<lambda>(r, req').
      if r = - 1 then bindE (gets errno) (\<lambda>e. if e = EINVAL then throw (ExitCode 1) else errno_exit)
      else ret req')))"

definition init_mmap :: "'w os \<Rightarrow> ('w, unit) gprog" where
  "init_mmap os =
     bindE (request_buffers os V4L2_MEMORY_MMAP) (\<lambda>req.
     if req_count req < 2 then throw (ExitCode 1)
     else
       seqE (calloc_buffers os (req_count req))
       (seqE (modify (\<lambda>s. s\<lparr>n_buffers := 0\<rparr>))
             (for_each [0..<unat (req_count req)] (map_buffer os))))"

definition alloc_buffer :: "'w os \<Rightarrow> u32 \<Rightarrow> nat \<Rightarrow> ('w, unit) gprog" where
  "alloc_buffer os buffer_size i =
     bindE (malloc_call os buffer_size) (\<lambda>p.
     seqE (set_buffer i \<lparr>start = p, length_of = buffer_size\<rparr>)
     (if p = 0 then throw (ExitCode 1) else modify (\<lambda>s. s\<lparr>n_buffers := i + 1\<rparr>)))"

definition init_userp :: "'w os \<Rightarrow> u32 \<Rightarrow> ('w, unit) gprog" where
  "init_userp os buffer_size =
     bindE (request_buffers os V4L2_MEMORY_USERPTR) (\<lambda>_.
     seqE (calloc_buffers os 4)
     (seqE (modify (\<lambda>s. s\<lparr>n_buffers := 0\<rparr>))
           (for_each [0..<4] (alloc_buffer os buffer_size))))"

text \<open>The capabilities: the structure \<open>cap\<close> is not initialised by the program.\<close>

definition check_capabilities :: "'w os \<Rightarrow> v4l2_capability \<Rightarrow> ('w, unit) gprog" where
  "check_capabilities os cap0 =
     bindE (gets fd) (\<lambda>h.
     bindE (xioctl os (ioctl_querycap os h) (\<lambda>r _. QueryCap r) cap0) (\<lambda>(r, cap).
     if r = - 1 then bindE (gets errno) (\<lambda>e. if e = EINVAL then throw (ExitCode 1) else errno_exit)
     else if capabilities cap AND V4L2_CAP_VIDEO_CAPTURE = 0 then throw (ExitCode 1)
     else
       bindE (gets io) (\<lambda>i.
       if i = IO_METHOD_READ
       then (if capabilities cap AND V4L2_CAP_READWRITE = 0 then throw (ExitCode 1) else ret ())
       else (if capabilities cap AND V4L2_CAP_STREAMING = 0 then throw (ExitCode 1) else ret ()))))"

definition reset_crop :: "'w os \<Rightarrow> ('w, unit) gprog" where
  "reset_crop os =
     bindE (gets fd) (\<lambda>h.
     bindE (xioctl os (ioctl_cropcap os h) (\<lambda>r _. CropCap r) (0, 0, 0, 0)) (\<lambda>(r, defrect).
     if r = 0 then seqE (xioctl os (ioctl_s_crop os h) (\<lambda>r _. SCrop defrect r) defrect) (ret ())
     else ret ()))"

definition forced_fmt :: v4l2_pix_format where
  "forced_fmt = cleared_fmt\<lparr>pix_width := 640, pix_height := 480, pix_pixelformat := V4L2_PIX_FMT_YUYV,
     pix_field := V4L2_FIELD_INTERLACED\<rparr>"

definition choose_format :: "'w os \<Rightarrow> ('w, v4l2_pix_format) gprog" where
  "choose_format os =
     bindE (gets force_format) (\<lambda>f.
     bindE (gets fd) (\<lambda>h.
     let rq = (if f \<noteq> 0 then VIDIOC_S_FMT else VIDIOC_G_FMT);
         fmt = (if f \<noteq> 0 then forced_fmt else cleared_fmt)
     in bindE (xioctl os (ioctl_fmt os h rq) (\<lambda>r _. FmtCall rq r) fmt) (\<lambda>(r, fmt').
        if r = - 1 then errno_exit else ret fmt')))"

definition init_device :: "'w os \<Rightarrow> v4l2_capability \<Rightarrow> ('w, unit) gprog" where
  "init_device os cap0 =
     seqE (check_capabilities os cap0)
     (seqE (reset_crop os)
     (bindE (choose_format os) (\<lambda>fmt.
     bindE (gets io) (\<lambda>i.
     case i of
       IO_METHOD_READ \<Rightarrow> init_read os (sizeimage fmt)
     | IO_METHOD_MMAP \<Rightarrow> init_mmap os
     | IO_METHOD_USERPTR \<Rightarrow> init_userp os (sizeimage fmt)))))"

definition close_device :: "'w os \<Rightarrow> ('w, unit) gprog" where
  "close_device os =
     bindE (gets fd) (\<lambda>h.
     bindE (syscall (sys_close os h)) (\<lambda>(r, _).
     seqE (log_call (Close h r))
     (if r = - 1 then errno_exit else modify (\<lambda>s. s\<lparr>fd := - 1\<rparr>))))"

text \<open>\<open>sys_stat\<close> answers whether the file is a character device.\<close>

definition open_device :: "'w os \<Rightarrow> ('w, unit) gprog" where
  "open_device os =
     bindE (gets dev_name) (\<lambda>name.
     bindE (syscall (sys_stat os name)) (\<lambda>(r, is_chr).
     if r = - 1 then throw (ExitCode 1)
     else if \<not> is_chr then throw (ExitCode 1)
     else
       bindE (syscall (sys_open os name)) (\<lambda>(r, _).
       seqE (log_call (Open name r))
       (seqE (modify (\<lambda>s. s\<lparr>fd := r\<rparr>))
       (if r = - 1 then throw (ExitCode 1) else ret ())))))"

section \<open>Options and \<open>main\<close>\<close>

text \<open>
  \<open>strtol\<close> with base 0 on a machine whose \<open>long\<close> has 32 bits: white space, a sign, a prefix that
  selects base 16 or 8, digits. A number that does not fit is cut to the nearest bound and sets the
  error number, which the flag of the result says.
\<close>

definition digit_in :: "nat \<Rightarrow> char \<Rightarrow> nat option" where
  "digit_in base c =
     (let n = (of_char c :: nat);
          v = (if 48 \<le> n \<and> n \<le> 57 then n - 48
               else if 97 \<le> n \<and> n \<le> 102 then n - 87
               else if 65 \<le> n \<and> n \<le> 70 then n - 55 else 99)
      in if v < base then Some v else None)"

fun scan_base :: "nat \<Rightarrow> nat \<Rightarrow> string \<Rightarrow> nat" where
  "scan_base base acc [] = acc"
| "scan_base base acc (c # s) =
     (case digit_in base c of None \<Rightarrow> acc | Some v \<Rightarrow> scan_base base (base * acc + v) s)"

definition strtol_magnitude :: "string \<Rightarrow> nat" where
  "strtol_magnitude s =
     (case s of
        c # d # e # r \<Rightarrow>
          (if c = CHR ''0'' \<and> (d = CHR ''x'' \<or> d = CHR ''X'') \<and> digit_in 16 e \<noteq> None then scan_base 16 0 (e # r)
           else if c = CHR ''0'' then scan_base 8 0 s else scan_base 10 0 s)
      | c # r \<Rightarrow> (if c = CHR ''0'' then scan_base 8 0 s else scan_base 10 0 s)
      | [] \<Rightarrow> 0)"

definition strtol :: "string \<Rightarrow> int \<times> bool" where
  "strtol text =
     (let s = dropWhile is_space text;
          neg = (char_at s = CHR ''-'');
          body = (if char_at s = CHR ''-'' \<or> char_at s = CHR ''+'' then tl s else s);
          v = (if neg then - int (strtol_magnitude body) else int (strtol_magnitude body))
      in if v < - (2 ^ 31) then (- (2 ^ 31), True)
         else if 2 ^ 31 \<le> v then (2 ^ 31 - 1, True) else (v, False))"

definition short_options :: string where
  "short_options = ''d:hmruofc:''"

definition long_options :: "longopt list" where
  "long_options =
     [\<lparr>lname = ''device'', larg = required_argument, lval = CHR ''d''\<rparr>,
      \<lparr>lname = ''help'', larg = no_argument, lval = CHR ''h''\<rparr>,
      \<lparr>lname = ''mmap'', larg = no_argument, lval = CHR ''m''\<rparr>,
      \<lparr>lname = ''read'', larg = no_argument, lval = CHR ''r''\<rparr>,
      \<lparr>lname = ''userp'', larg = no_argument, lval = CHR ''u''\<rparr>,
      \<lparr>lname = ''output'', larg = no_argument, lval = CHR ''o''\<rparr>,
      \<lparr>lname = ''format'', larg = no_argument, lval = CHR ''f''\<rparr>,
      \<lparr>lname = ''count'', larg = required_argument, lval = CHR ''c''\<rparr>]"

text \<open>The help text, line by line, with the program's name, the device name and the frame count.\<close>

definition dec_int :: "int \<Rightarrow> string" where
  "dec_int i = (if i < 0 then CHR ''-'' # dec (nat (- i)) else dec (nat i))"

definition usage_lines :: "string \<Rightarrow> string \<Rightarrow> int \<Rightarrow> string list" where
  "usage_lines argv0 dev cnt =
     [''Usage: '' @ argv0 @ '' [options]'',
      [],
      ''Version 1.3'',
      ''Options:'',
      ''-d | --device name   Video device name ['' @ dev @ '']'',
      ''-h | --help          Print this message'',
      ''-m | --mmap          Use memory mapped buffers [default]'',
      ''-r | --read          Use read() calls'',
      ''-u | --userp         Use application allocated buffers'',
      ''-o | --output        Outputs stream to stdout'',
      ''-f | --format        Force format to 640x480 YUYV'',
      ''-c | --count         Number of frames to grab ['' @ dec_int cnt @ '']'']"

definition usage :: "bool \<Rightarrow> string \<Rightarrow> ('w, unit) gprog" where
  "usage to_stdout argv0 =
     bindE (gets (\<lambda>s. usage_lines argv0 (dev_name s) (frame_count s))) (\<lambda>ls.
     log_call (Usage to_stdout (concat (map (\<lambda>l. l @ [CHR 0x0A]) ls))))"

text \<open>One round of the option loop, for the character and the argument \<open>getopt_long\<close> answered.\<close>

definition do_option :: "string \<Rightarrow> char \<times> string \<Rightarrow> ('w, unit) gprog" where
  "do_option argv0 opt =
     (let c = fst opt; optarg = snd opt in
      if c = NUL then ret ()
      else if c = CHR ''d'' then modify (\<lambda>s. s\<lparr>dev_name := optarg\<rparr>)
      else if c = CHR ''h'' then seqE (usage True argv0) (throw (ExitCode 0))
      else if c = CHR ''m'' then modify (\<lambda>s. s\<lparr>io := IO_METHOD_MMAP\<rparr>)
      else if c = CHR ''r'' then modify (\<lambda>s. s\<lparr>io := IO_METHOD_READ\<rparr>)
      else if c = CHR ''u'' then modify (\<lambda>s. s\<lparr>io := IO_METHOD_USERPTR\<rparr>)
      else if c = CHR ''o'' then modify (\<lambda>s. s\<lparr>out_buf := out_buf s + 1\<rparr>)
      else if c = CHR ''f'' then modify (\<lambda>s. s\<lparr>force_format := force_format s + 1\<rparr>)
      else if c = CHR ''c'' then
        seqE (modify (\<lambda>s. s\<lparr>errno := 0, frame_count := fst (strtol optarg)\<rparr>))
        (if snd (strtol optarg) then errno_exit else ret ())
      else seqE (usage False argv0) (throw (ExitCode 1)))"

definition initial_grab :: "'w \<Rightarrow> 'w grab" where
  "initial_grab w = \<lparr>world = w, errno = 0, dev_name = [], io = IO_METHOD_MMAP, fd = - 1, buffers = None,
     n_buffers = 0, out_buf = 0, force_format = 0, frame_count = 70, trace = []\<rparr>"

text \<open>The calls that would capture are commented out in \<open>main\<close>.\<close>

definition grabber_main :: "'w os \<Rightarrow> v4l2_capability \<Rightarrow> string list \<Rightarrow> ('w, int) gprog" where
  "grabber_main os cap0 argv =
     seqE (modify (\<lambda>s. s\<lparr>dev_name := ''/dev/video0''\<rparr>))
     (seqE (for_each (getopt_long short_options long_options (tl argv)) (do_option (hd argv)))
     (seqE (open_device os)
     (seqE (init_device os cap0)
           (ret 0))))"

end
