(* ===== verification/Grabber_Run.thy ===== *)
theory Grabber_Run
  imports Grabber
begin

text \<open>
  What the operations of the capture program do on any operating system: which calls they make, how
  many images they process, which memory they map and unmap, and that none of them reaches outside
  the buffer array. The lemmas are weakest preconditions over \<open>stepped s cs t\<close>: the state \<open>t\<close> is
  \<open>s\<close> after the completed calls \<open>cs\<close>, every global variable as before.
\<close>

section \<open>Single calls\<close>

definition stepped :: "'w grab \<Rightarrow> gcall list \<Rightarrow> 'w grab \<Rightarrow> bool" where
  "stepped s cs t \<longleftrightarrow>
     dev_name t = dev_name s \<and> io t = io s \<and> fd t = fd s \<and> buffers t = buffers s \<and>
     n_buffers t = n_buffers s \<and> out_buf t = out_buf s \<and> force_format t = force_format s \<and>
     frame_count t = frame_count s \<and> trace t = trace s @ cs"

lemma stepped_refl [simp]: "stepped s [] s"
  by (simp add: stepped_def)

lemma stepped_upd [simp]:
  "stepped s [] (s\<lparr>world := w\<rparr>)" "stepped s [] (s\<lparr>world := w, errno := e\<rparr>)"
  "stepped s [c] (s\<lparr>trace := trace s @ [c]\<rparr>)"
  by (simp_all add: stepped_def)

lemma stepped_trans: "stepped s cs t \<Longrightarrow> stepped t ds u \<Longrightarrow> stepped s (cs @ ds) u"
  by (simp add: stepped_def)

lemma steppedD:
  assumes "stepped s cs t"
  shows "buffers t = buffers s" "n_buffers t = n_buffers s" "io t = io s" "fd t = fd s"
    "frame_count t = frame_count s" "out_buf t = out_buf s" "trace t = trace s @ cs"
  using assms by (simp_all add: stepped_def)

lemma wp_log_call [wp_simps]: "wp (log_call c) Q E s = Q () (s\<lparr>trace := trace s @ [c]\<rparr>)"
  by (simp add: log_call_def wp_simps)

lemma wp_syscall [wp_simps]:
  "wp (syscall f) Q E s = (case f (world s) of
     (r, e, a, w) \<Rightarrow> Q (r, a) (s\<lparr>world := w, errno := (if r = - 1 then e else errno s)\<rparr>))"
  by (simp add: syscall_def wp_def split: prod.split)

lemma wp_errno_exit [wp_simps]: "wp errno_exit Q E s = E (ExitCode 1) s"
  by (simp add: errno_exit_def wp_simps)

lemma wp_syscall_step:
  assumes "\<And>r a t. stepped s [] t \<Longrightarrow> Q (r, a) t"
  shows "wp (syscall f) Q E s"
  using assms by (auto simp: wp_syscall split: prod.split)

lemma wp_xioctl_loop:
  assumes "\<And>r a t. stepped s [] t \<Longrightarrow> Q (r, a) t" and "\<And>t. stepped s [] t \<Longrightarrow> E Impatient t"
  shows "wp (xioctl_loop f k a) Q E s"
  using assms
proof (induction k arbitrary: s a)
  case 0
  then show ?case by (simp add: wp_simps)
next
  case (Suc k)
  have "wp (syscall (f a)) (\<lambda>ra. wp (case ra of (r, a') \<Rightarrow> bindE (gets errno) (\<lambda>e.
      if r = - 1 \<and> e = EINTR then xioctl_loop f k a' else ret (r, a'))) Q E) E s"
  proof (rule wp_syscall_step)
    fix r a' t
    assume t: "stepped s [] t"
    have "wp (xioctl_loop f k a') Q E t"
      by (rule Suc.IH) (use Suc.prems stepped_trans [OF t] in \<open>auto\<close>)
    with Suc.prems(1) [OF t] show "wp (case (r, a') of (r, a') \<Rightarrow> bindE (gets errno) (\<lambda>e.
        if r = - 1 \<and> e = EINTR then xioctl_loop f k a' else ret (r, a'))) Q E t"
      by (simp add: wp_simps)
  qed
  then show ?case by (simp add: wp_bindE)
qed

lemma wp_xioctl:
  assumes "\<And>r a t. stepped s [ev r a] t \<Longrightarrow> Q (r, a) t" and "\<And>t. stepped s [] t \<Longrightarrow> E Impatient t"
  shows "wp (xioctl os f ev a) Q E s"
  unfolding xioctl_def wp_bindE
proof (rule wp_xioctl_loop)
  fix r a t
  assume t: "stepped s [] t"
  have "stepped t [ev r a] (t\<lparr>trace := trace t @ [ev r a]\<rparr>)" by simp
  from assms(1) [OF stepped_trans [OF t this, simplified]]
  show "wp (case (r, a) of (r, a') \<Rightarrow> seqE (log_call (ev r a')) (ret (r, a'))) Q E t"
    by (simp add: wp_simps)
qed (rule assms(2))

lemma wp_xbuf:
  assumes "\<And>r b' t. stepped s [BufCall rq b r b'] t \<Longrightarrow> Q (r, b') t"
    and "\<And>t. stepped s [] t \<Longrightarrow> E Impatient t"
  shows "wp (xbuf os rq b) Q E s"
  unfolding xbuf_def wp_bindE wp_gets by (rule wp_xioctl) (use assms in auto)

lemma wp_xstream:
  assumes "\<And>r t. stepped s [StreamCall rq r] t \<Longrightarrow> Q (r, ()) t"
    and "\<And>t. stepped s [] t \<Longrightarrow> E Impatient t"
  shows "wp (xstream os rq) Q E s"
  unfolding xstream_def wp_bindE wp_gets by (rule wp_xioctl) (use assms in auto)

text \<open>Enough patience: a call that is interrupted fewer times in a row than that returns its answer.\<close>

primrec interrupted_for ::
    "('x \<Rightarrow> 'w \<Rightarrow> int \<times> int \<times> 'x \<times> 'w) \<Rightarrow> nat \<Rightarrow> 'x \<Rightarrow> 'w \<Rightarrow> int \<times> int \<times> 'x \<times> 'w \<Rightarrow> bool" where
  "interrupted_for f 0 a w res =
     (f a w = res \<and> \<not> (fst res = - 1 \<and> fst (snd res) = EINTR))"
| "interrupted_for f (Suc k) a w res =
     (case f a w of (r, e, a', w') \<Rightarrow> r = - 1 \<and> e = EINTR \<and> interrupted_for f k a' w' res)"

lemma xioctl_loop_returns:
  assumes "interrupted_for f k a (world s) (r, e, a', w')" "k < n"
    and "\<not> (r = - 1 \<and> e = EINTR)"
  shows "\<exists>t. run (xioctl_loop f n a) s = (Inr (r, a'), t) \<and> world t = w' \<and> trace t = trace s \<and>
    (r = - 1 \<longrightarrow> errno t = e) \<and> stepped s [] t"
  using assms(1,2)
proof (induction k arbitrary: a s n)
  case 0
  then obtain n' where n: "n = Suc n'" by (cases n) auto
  with 0 n assms(3) show ?case by (auto simp: syscall_def prog_simps EINTR_def)
next
  case (Suc k)
  then obtain n' where n: "n = Suc n'" by (cases n) auto
  obtain a1 w1 where f: "f a (world s) = (- 1, EINTR, a1, w1)" "interrupted_for f k a1 w1 (r, e, a', w')"
    using Suc.prems(1) by (auto split: prod.splits)
  let ?s = "s\<lparr>world := w1, errno := EINTR\<rparr>"
  have "stepped s [] ?s" by simp
  with Suc.IH [of a1 ?s n'] Suc.prems(2) f n stepped_trans [of s "[]" ?s "[]"] show ?case
    by (auto simp: syscall_def prog_simps)
qed

section \<open>Frames\<close>

definition is_image :: "gcall \<Rightarrow> bool" where
  "is_image c = (case c of Image _ _ \<Rightarrow> True | _ \<Rightarrow> False)"

definition images :: "gcall list \<Rightarrow> nat" where
  "images cs = length (filter is_image cs)"

lemma images_simps [simp]:
  "images [] = 0" "images (c # cs) = (if is_image c then 1 else 0) + images cs"
  "images (cs @ ds) = images cs + images ds"
  by (simp_all add: images_def)

lemma is_image_simps [simp]:
  "is_image (Image p n)" "\<not> is_image (BufCall rq b r b')" "\<not> is_image (StreamCall sr r)"
  "\<not> is_image (Select r)" "\<not> is_image (Read p l r)" "\<not> is_image (Output p l)"
  by (simp_all add: is_image_def)

text \<open>The buffer array covers the counted buffers, and has an element in read mode.\<close>

definition grab_ok :: "'w grab \<Rightarrow> bool" where
  "grab_ok s \<longleftrightarrow> (\<exists>l. buffers s = Some l \<and> n_buffers s \<le> length l \<and> (io s = IO_METHOD_READ \<longrightarrow> l \<noteq> []))"

lemma grab_ok_stepped: "stepped s cs t \<Longrightarrow> grab_ok t = grab_ok s"
  by (simp add: grab_ok_def steppedD)

lemma wp_buffer_at:
  "wp (buffer_at i) Q E s = (case buffers s of
     None \<Rightarrow> E SegFault s | Some l \<Rightarrow> if i < length l then Q (l ! i) s else E SegFault s)"
  by (simp add: buffer_at_def wp_simps split: option.split)

definition image_calls :: "'w grab \<Rightarrow> u32 \<Rightarrow> u32 \<Rightarrow> gcall list" where
  "image_calls s p n = (if out_buf s \<noteq> 0 then [Output p n] else []) @ [Image p n]"

lemma images_image_calls [simp]: "images (image_calls s p n) = 1"
  by (simp add: image_calls_def)

lemma wp_process_image:
  assumes "\<And>t. stepped s (image_calls s p n) t \<Longrightarrow> Q () t"
  shows "wp (process_image p n) Q E s"
  using assms [of "s\<lparr>trace := trace s @ image_calls s p n\<rparr>"]
  by (cases "out_buf s = 0") (simp_all add: process_image_def wp_simps image_calls_def stepped_def)

text \<open>
  The calls of one \<open>read_frame\<close> with memory mapping: a dequeue that found nothing, or a dequeue, the
  processing of exactly the dequeued buffer, and its return to the driver.
\<close>

definition mmap_frame_calls :: "'w grab \<Rightarrow> int \<Rightarrow> gcall list \<Rightarrow> bool" where
  "mmap_frame_calls s r cs \<longleftrightarrow>
     (r = 0 \<and> (\<exists>b. cs = [BufCall VIDIOC_DQBUF (cleared_buffer\<lparr>memory := V4L2_MEMORY_MMAP\<rparr>) (- 1) b])) \<or>
     (r = 1 \<and> (\<exists>q b l r2 b2. q \<noteq> - 1 \<and> r2 \<noteq> - 1 \<and> buffers s = Some l \<and> unat (index b) < n_buffers s \<and>
        cs = BufCall VIDIOC_DQBUF (cleared_buffer\<lparr>memory := V4L2_MEMORY_MMAP\<rparr>) q b #
          image_calls s (start (l ! unat (index b))) (bytesused b) @ [BufCall VIDIOC_QBUF b r2 b2]))"

lemma wp_read_frame_mmap:
  assumes "grab_ok s"
  shows "wp (read_frame_mmap os) (\<lambda>r t. \<exists>cs. stepped s cs t \<and> mmap_frame_calls s r cs)
    (\<lambda>e _. e \<noteq> SegFault) s"
  unfolding read_frame_mmap_def wp_bindE
proof (rule wp_xbuf)
  let ?rq = "cleared_buffer\<lparr>memory := V4L2_MEMORY_MMAP\<rparr>"
  let ?Q = "\<lambda>r t. \<exists>cs. stepped s cs t \<and> mmap_frame_calls s r cs" and ?E = "\<lambda>e _. e \<noteq> SegFault"
  fix r b t
  assume t: "stepped s [BufCall VIDIOC_DQBUF ?rq r b] t"
  obtain l where l: "buffers s = Some l" "n_buffers s \<le> length l" using assms by (auto simp: grab_ok_def)
  have tail: "wp (seqE (process_image (start (l ! unat (index b))) (bytesused b))
      (bindE (xbuf os VIDIOC_QBUF b) (\<lambda>(r, _). if r = - 1 then errno_exit else ret 1))) ?Q ?E t"
    if "r \<noteq> - 1" "unat (index b) < n_buffers s"
    unfolding wp_seqE wp_bindE
  proof (rule wp_process_image, rule wp_xbuf)
    fix u r2 b2 v
    assume u: "stepped t (image_calls t (start (l ! unat (index b))) (bytesused b)) u"
      and v: "stepped u [BufCall VIDIOC_QBUF b r2 b2] v"
    note stepped_trans [OF t stepped_trans [OF u v]]
    moreover have "image_calls t = image_calls s" using steppedD [OF t] by (simp add: image_calls_def fun_eq_iff)
    ultimately show "wp (case (r2, b2) of (r, _) \<Rightarrow> if r = - 1 then errno_exit else ret 1) ?Q ?E v"
      using that l(1) by (auto simp: wp_simps mmap_frame_calls_def)
  qed simp
  with t l show "wp (case (r, b) of (r, buf) \<Rightarrow> bindE (gets errno) (\<lambda>e.
     if r = - 1 then (if e = EAGAIN then ret 0 else errno_exit)
     else bindE (gets n_buffers) (\<lambda>n. if \<not> unat (index buf) < n then throw AssertFailed
       else bindE (buffer_at (unat (index buf))) (\<lambda>b. seqE (process_image (start b) (bytesused buf))
         (bindE (xbuf os VIDIOC_QBUF buf) (\<lambda>(r, _). if r = - 1 then errno_exit else ret 1)))))) ?Q ?E t"
    by (auto simp: wp_bindE wp_gets wp_if wp_throw wp_buffer_at wp_errno_exit wp_ret steppedD [OF t]
        mmap_frame_calls_def)
qed simp

lemma wp_find_buffer:
  assumes "buffers s = Some l" "\<forall>i\<in>set is. i < length l" "\<And>b. Q b s"
  shows "wp (find_buffer p n is) Q E s"
  using assms by (induction "is") (auto simp: wp_simps wp_buffer_at)

lemma wp_read_frame_userptr:
  assumes "grab_ok s"
  shows "wp (read_frame_userptr os) (\<lambda>r t. \<exists>cs. stepped s cs t \<and> images cs = (if r = 0 then 0 else 1))
    (\<lambda>e _. e \<noteq> SegFault) s"
  unfolding read_frame_userptr_def wp_bindE
proof (rule wp_xbuf)
  let ?rq = "cleared_buffer\<lparr>memory := V4L2_MEMORY_USERPTR\<rparr>"
  let ?Q = "\<lambda>(r :: int) t. \<exists>cs. stepped s cs t \<and> images cs = (if r = 0 then 0 else 1)" and ?E = "\<lambda>e _. e \<noteq> SegFault"
  fix r b t
  assume t: "stepped s [BufCall VIDIOC_DQBUF ?rq r b] t"
  obtain l where l: "buffers s = Some l" "n_buffers s \<le> length l" using assms by (auto simp: grab_ok_def)
  have tail: "wp (seqE (process_image (m b) (bytesused b))
      (bindE (xbuf os VIDIOC_QBUF b) (\<lambda>(r, _). if r = - 1 then errno_exit else ret 1))) ?Q ?E t"
    unfolding wp_seqE wp_bindE
  proof (rule wp_process_image, rule wp_xbuf)
    fix u r2 b2 v
    assume u: "stepped t (image_calls t (m b) (bytesused b)) u" and v: "stepped u [BufCall VIDIOC_QBUF b r2 b2] v"
    from stepped_trans [OF t stepped_trans [OF u v]]
    show "wp (case (r2, b2) of (r, _) \<Rightarrow> if r = - 1 then errno_exit else ret 1) ?Q ?E v"
      by (auto simp: wp_simps intro!: exI [of _ "[BufCall VIDIOC_DQBUF ?rq r b] @ image_calls t (m b) (bytesused b) @
        [BufCall VIDIOC_QBUF b r2 b2]"])
  qed simp
  have "wp (find_buffer (m b) (buf_len b) [0..<n_buffers s]) (\<lambda>found. wp (if \<not> found then throw AssertFailed
      else seqE (process_image (m b) (bytesused b))
        (bindE (xbuf os VIDIOC_QBUF b) (\<lambda>(r, _). if r = - 1 then errno_exit else ret 1))) ?Q ?E) ?E t"
    by (rule wp_find_buffer [of t l]) (use l tail steppedD [OF t] in \<open>auto simp: wp_throw\<close>)
  then show "wp (case (r, b) of (r, buf) \<Rightarrow> bindE (gets errno) (\<lambda>e.
     if r = - 1 then (if e = EAGAIN then ret 0 else errno_exit)
     else bindE (gets n_buffers) (\<lambda>n. bindE (find_buffer (m buf) (buf_len buf) [0..<n]) (\<lambda>found.
       if \<not> found then throw AssertFailed
       else seqE (process_image (m buf) (bytesused buf))
         (bindE (xbuf os VIDIOC_QBUF buf) (\<lambda>(r, _). if r = - 1 then errno_exit else ret 1)))))) ?Q ?E t"
    using t by (auto simp: wp_bindE wp_gets wp_errno_exit wp_ret steppedD [OF t]
        intro!: exI [of _ "[BufCall VIDIOC_DQBUF ?rq (- 1) b]"])
qed simp

lemma wp_read_frame_read:
  assumes "grab_ok s" "io s = IO_METHOD_READ"
  shows "wp (read_frame_read os) (\<lambda>r t. \<exists>cs. stepped s cs t \<and> images cs = (if r = 0 then 0 else 1))
    (\<lambda>e _. e \<noteq> SegFault) s"
proof -
  let ?Q = "\<lambda>(r :: int) t. \<exists>cs. stepped s cs t \<and> images cs = (if r = 0 then 0 else 1)" and ?E = "\<lambda>e _. e \<noteq> SegFault"
  obtain l where l: "buffers s = Some l" "0 < length l" using assms by (auto simp: grab_ok_def)
  let ?b = "l ! 0"
  have "wp (syscall (sys_read os (fd s) (start ?b) (length_of ?b))) (\<lambda>a. wp (case a of (r, _) \<Rightarrow>
      seqE (log_call (Read (start ?b) (length_of ?b) r)) (bindE (gets errno) (\<lambda>e.
        if r = - 1 then (if e = EAGAIN then ret 0 else errno_exit)
        else seqE (process_image (start ?b) (length_of ?b)) (ret 1)))) ?Q ?E) ?E s"
  proof (rule wp_syscall_step)
    fix r :: int and a :: unit and t
    assume t: "stepped s [] t"
    let ?c = "Read (start ?b) (length_of ?b) r"
    have u: "stepped s [?c] (t\<lparr>trace := trace t @ [?c]\<rparr>)" using t by (simp add: stepped_def)
    have "wp (process_image (start ?b) (length_of ?b)) (\<lambda>_. wp (ret 1) ?Q ?E) ?E (t\<lparr>trace := trace t @ [?c]\<rparr>)"
    proof (rule wp_process_image)
      fix v assume v: "stepped (t\<lparr>trace := trace t @ [?c]\<rparr>) (image_calls (t\<lparr>trace := trace t @ [?c]\<rparr>) (start ?b) (length_of ?b)) v"
      from stepped_trans [OF u v] show "wp (ret 1) ?Q ?E v"
        unfolding wp_ret by (intro exI conjI) (assumption, simp)
    qed
    with u show "wp (case (r, a) of (r, _) \<Rightarrow> seqE (log_call (Read (start ?b) (length_of ?b) r)) (bindE (gets errno) (\<lambda>e.
        if r = - 1 then (if e = EAGAIN then ret 0 else errno_exit)
        else seqE (process_image (start ?b) (length_of ?b)) (ret 1)))) ?Q ?E t"
      by (auto simp: wp_seqE wp_bindE wp_log_call wp_gets wp_ret wp_errno_exit intro!: exI [of _ "[?c]"])
  qed
  with l show ?thesis by (simp add: read_frame_read_def wp_bindE wp_buffer_at wp_gets)
qed

lemma mmap_frame_calls_images: "mmap_frame_calls s r cs \<Longrightarrow> images cs = (if r = 0 then 0 else 1)"
  by (auto simp: mmap_frame_calls_def)

lemma wp_read_frame:
  assumes "grab_ok s"
  shows "wp (read_frame os) (\<lambda>r t. \<exists>cs. stepped s cs t \<and> images cs = (if r = 0 then 0 else 1))
    (\<lambda>e _. e \<noteq> SegFault) s"
proof (cases "io s")
  case IO_METHOD_READ
  with wp_read_frame_read [OF assms IO_METHOD_READ] show ?thesis by (simp add: read_frame_def wp_simps)
next
  case IO_METHOD_MMAP
  have "wp (read_frame_mmap os) (\<lambda>r t. \<exists>cs. stepped s cs t \<and> images cs = (if r = 0 then 0 else 1))
    (\<lambda>e _. e \<noteq> SegFault) s"
    by (rule wp_mono [OF wp_read_frame_mmap [OF assms]]) (use mmap_frame_calls_images in blast)+
  with IO_METHOD_MMAP show ?thesis by (simp add: read_frame_def wp_simps)
next
  case IO_METHOD_USERPTR
  with wp_read_frame_userptr [OF assms] show ?thesis by (simp add: read_frame_def wp_simps)
qed

lemma wp_select_loop:
  assumes "grab_ok s"
  shows "wp (select_loop os k) (\<lambda>_ t. \<exists>cs. stepped s cs t \<and> images cs = 1) (\<lambda>e _. e \<noteq> SegFault) s"
  using assms
proof (induction k arbitrary: s)
  case 0
  then show ?case by (simp add: wp_simps)
next
  case (Suc k)
  let ?Q = "\<lambda>s (_ :: unit) t. \<exists>cs. stepped s cs t \<and> images cs = 1" and ?E = "\<lambda>e _. e \<noteq> SegFault"
  have again: "wp (select_loop os k) (?Q s) ?E t" if "stepped s cs t" "images cs = 0" for cs t
  proof (rule wp_mono [OF Suc.IH])
    show "grab_ok t" using Suc.prems grab_ok_stepped [OF that(1)] by simp
    show "?Q s a u" if "?Q t a u" for a u
      using that \<open>images cs = 0\<close> stepped_trans [OF \<open>stepped s cs t\<close>] by fastforce
  qed
  have frame: "wp (bindE (read_frame os) (\<lambda>got. if got \<noteq> 0 then ret () else select_loop os k)) (?Q s) ?E t"
    if "stepped s cs t" "images cs = 0" for cs t
    unfolding wp_bindE
  proof (rule wp_mono [OF wp_read_frame])
    show "grab_ok t" using Suc.prems grab_ok_stepped [OF that(1)] by simp
    fix r u assume "\<exists>ds. stepped t ds u \<and> images ds = (if r = 0 then 0 else 1)"
    then obtain ds where ds: "stepped s (cs @ ds) u" "images (cs @ ds) = (if r = 0 then 0 else 1)"
      using \<open>images cs = 0\<close> stepped_trans [OF \<open>stepped s cs t\<close>] by fastforce
    then show "wp (if r \<noteq> 0 then ret () else select_loop os k) (?Q s) ?E u"
      using again [OF ds(1)] by (auto simp: wp_ret)
  qed
  have "wp (syscall (sys_select os (fd s + 1))) (\<lambda>a. wp (case a of (r, _) \<Rightarrow> seqE (log_call (Select r)) (bindE (gets errno) (\<lambda>e.
      if r = - 1 then (if e = EINTR then select_loop os k else errno_exit)
      else if r = 0 then throw (ExitCode 1)
      else bindE (read_frame os) (\<lambda>got. if got \<noteq> 0 then ret () else select_loop os k)))) (?Q s) ?E) ?E s"
  proof (rule wp_syscall_step)
    fix r :: int and a :: unit and t
    assume "stepped s [] t"
    then have u: "stepped s [Select r] (t\<lparr>trace := trace t @ [Select r]\<rparr>)" by (simp add: stepped_def)
    show "wp (case (r, a) of (r, _) \<Rightarrow> seqE (log_call (Select r)) (bindE (gets errno) (\<lambda>e.
        if r = - 1 then (if e = EINTR then select_loop os k else errno_exit)
        else if r = 0 then throw (ExitCode 1)
        else bindE (read_frame os) (\<lambda>got. if got \<noteq> 0 then ret () else select_loop os k)))) (?Q s) ?E t"
      using again [OF u] frame [OF u]
      by (auto simp: wp_seqE wp_log_call wp_bindE [where m = "gets errno"] wp_gets wp_errno_exit wp_throw)
  qed
  then show ?case by (simp add: wp_bindE wp_gets)
qed

lemma wp_mainloop:
  assumes "grab_ok s"
  shows "wp (mainloop os) (\<lambda>_ t. \<exists>cs. stepped s cs t \<and> images cs = loop_count (frame_count s))
    (\<lambda>e _. e \<noteq> SegFault) s"
proof -
  let ?n = "loop_count (frame_count s)"
  have "wp (for_each [0..<?n] (\<lambda>_. select_loop os (patience os)))
      (\<lambda>_ t. \<exists>cs. stepped s cs t \<and> images cs = length [0..<?n]) (\<lambda>e _. e \<noteq> SegFault) s"
  proof (rule wp_for_each [where I = "\<lambda>ys t. \<exists>cs. stepped s cs t \<and> images cs = length ys"])
    show "\<exists>cs. stepped s cs s \<and> images cs = length []" by (intro exI [of _ "[]"]) simp
    fix ys :: "nat list" and x zs t
    assume "\<exists>cs. stepped s cs t \<and> images cs = length ys"
    then obtain cs where cs: "stepped s cs t" "images cs = length ys" by blast
    show "wp (select_loop os (patience os)) (\<lambda>_ t. \<exists>cs. stepped s cs t \<and> images cs = length (ys @ [x]))
        (\<lambda>e _. e \<noteq> SegFault) t"
    proof (rule wp_mono [OF wp_select_loop])
      show "grab_ok t" using assms grab_ok_stepped [OF cs(1)] by simp
      fix a u assume "\<exists>cs. stepped t cs u \<and> images cs = 1"
      then show "\<exists>cs. stepped s cs u \<and> images cs = length (ys @ [x])"
        using cs stepped_trans by fastforce
    qed
  qed
  then show ?thesis by (simp add: mainloop_def wp_simps)
qed

section \<open>Starting\<close>

text \<open>The index of a buffer that was handed to the driver successfully.\<close>

definition queued :: "gcall \<Rightarrow> u32 option" where
  "queued c = (case c of BufCall VIDIOC_QBUF b r _ \<Rightarrow> if r \<noteq> - 1 then Some (index b) else None | _ \<Rightarrow> None)"

lemma wp_queue_mmap:
  "wp (queue_mmap os i) (\<lambda>_ t. \<exists>c. stepped s [c] t \<and> queued c = Some (word_of_nat i)) (\<lambda>e _. e \<noteq> SegFault) s"
  unfolding queue_mmap_def wp_bindE
  by (rule wp_xbuf) (auto simp: wp_simps queued_def)

lemma wp_queue_userptr:
  assumes "buffers s = Some l" "i < length l"
  shows "wp (queue_userptr os i) (\<lambda>_ t. \<exists>c. stepped s [c] t \<and> queued c = Some (word_of_nat i)) (\<lambda>e _. e \<noteq> SegFault) s"
  using assms unfolding queue_userptr_def wp_bindE wp_buffer_at
  by simp (rule wp_xbuf, auto simp: wp_simps queued_def)

definition queues :: "gcall list \<Rightarrow> nat list \<Rightarrow> bool" where
  "queues cs is \<longleftrightarrow> map queued cs = map (\<lambda>i. Some (word_of_nat i)) is"

lemma wp_queue_all:
  assumes "\<And>i t cs. stepped s cs t \<Longrightarrow> i < n \<Longrightarrow>
      wp (body i) (\<lambda>_ u. \<exists>c. stepped t [c] u \<and> queued c = Some (word_of_nat i)) (\<lambda>e _. e \<noteq> SegFault) t"
  shows "wp (for_each [0..<n] body) (\<lambda>_ t. \<exists>cs. stepped s cs t \<and> queues cs [0..<n]) (\<lambda>e _. e \<noteq> SegFault) s"
proof (rule wp_for_each [where I = "\<lambda>ys t. \<exists>cs. stepped s cs t \<and> queues cs ys"])
  show "\<exists>cs. stepped s cs s \<and> queues cs []" by (intro exI [of _ "[]"]) (simp add: queues_def)
  fix ys x zs t
  assume xs: "[0..<n] = ys @ x # zs" and "\<exists>cs. stepped s cs t \<and> queues cs ys"
  then obtain cs where cs: "stepped s cs t" "queues cs ys" by blast
  from xs have "x \<in> set [0..<n]" by simp
  then have "x < n" by simp
  then show "wp (body x) (\<lambda>_ t. \<exists>cs. stepped s cs t \<and> queues cs (ys @ [x])) (\<lambda>e _. e \<noteq> SegFault) t"
  proof (rule wp_mono [OF assms [OF cs(1)]])
    fix u assume "\<exists>c. stepped t [c] u \<and> queued c = Some (word_of_nat x)"
    then obtain c where c: "stepped t [c] u" "queued c = Some (word_of_nat x)" by blast
    show "\<exists>cs. stepped s cs u \<and> queues cs (ys @ [x])"
      using stepped_trans [OF cs(1) c(1)] cs(2) c(2) by (intro exI [of _ "cs @ [c]"]) (simp add: queues_def)
  qed
qed

lemma wp_start_capturing:
  assumes "grab_ok s" "io s \<noteq> IO_METHOD_READ"
  shows "wp (start_capturing os) (\<lambda>_ t. \<exists>cs r. stepped s (cs @ [StreamCall VIDIOC_STREAMON r]) t \<and> r \<noteq> - 1 \<and>
      queues cs [0..<n_buffers s]) (\<lambda>e _. e \<noteq> SegFault) s"
proof -
  obtain l where l: "buffers s = Some l" "n_buffers s \<le> length l" using assms(1) by (auto simp: grab_ok_def)
  let ?Q = "\<lambda>(_ :: unit) t. \<exists>cs r. stepped s (cs @ [StreamCall VIDIOC_STREAMON r]) t \<and> r \<noteq> - 1 \<and> queues cs [0..<n_buffers s]"
  have on: "wp (bindE (xstream os VIDIOC_STREAMON) (\<lambda>(r, _). if r = - 1 then errno_exit else ret ())) ?Q
      (\<lambda>e _. e \<noteq> SegFault) t" if t: "stepped s cs t" "queues cs [0..<n_buffers s]" for cs t
    unfolding wp_bindE
  proof (rule wp_xstream)
    fix r u assume u: "stepped t [StreamCall VIDIOC_STREAMON r] u"
    from stepped_trans [OF t(1) u] t(2)
    show "wp (case (r, ()) of (r, _) \<Rightarrow> if r = - 1 then errno_exit else ret ()) ?Q (\<lambda>e _. e \<noteq> SegFault) u"
      by (auto simp: wp_simps)
  qed simp
  have q: "wp (queue_mmap os i) (\<lambda>_ u. \<exists>c. stepped t [c] u \<and> queued c = Some (word_of_nat i)) (\<lambda>e _. e \<noteq> SegFault) t" for i t
    by (rule wp_queue_mmap)
  have u: "wp (queue_userptr os i) (\<lambda>_ u. \<exists>c. stepped t [c] u \<and> queued c = Some (word_of_nat i)) (\<lambda>e _. e \<noteq> SegFault) t"
    if "stepped s cs t" "i < n_buffers s" for cs t i
    by (rule wp_queue_userptr [of t l]) (use that l steppedD [OF that(1)] in auto)
  show ?thesis
  proof (cases "io s")
    case IO_METHOD_MMAP
    then show ?thesis
      by (simp add: start_capturing_def wp_bindE [where m = "gets f" for f] wp_gets wp_seqE)
         (rule wp_mono [OF wp_queue_all], use q on in auto)
  next
    case IO_METHOD_USERPTR
    then show ?thesis
      by (simp add: start_capturing_def wp_bindE [where m = "gets f" for f] wp_gets wp_seqE)
         (rule wp_mono [OF wp_queue_all], use u on in auto)
  qed (use assms in simp)
qed

section \<open>Mapping and unmapping\<close>

fun mapped :: "gcall list \<Rightarrow> (u32 \<times> u32) list" where
  "mapped [] = []"
| "mapped (Mmap len off p # cs) = (p, len) # mapped cs"
| "mapped (c # cs) = mapped cs"

fun unmapped :: "gcall list \<Rightarrow> (u32 \<times> u32) list" where
  "unmapped [] = []"
| "unmapped (Munmap p len r # cs) = (p, len) # unmapped cs"
| "unmapped (c # cs) = unmapped cs"

lemma mapped_append: "mapped (cs @ ds) = mapped cs @ mapped ds"
  by (induction cs rule: mapped.induct) simp_all

lemma unmapped_append: "unmapped (cs @ ds) = unmapped cs @ unmapped ds"
  by (induction cs rule: unmapped.induct) simp_all

definition region :: "buffer \<Rightarrow> u32 \<times> u32" where
  "region b = (start b, length_of b)"

lemma wp_set_buffer:
  "wp (set_buffer i b) Q E s = (case buffers s of
     None \<Rightarrow> E SegFault s
   | Some l \<Rightarrow> if i < length l then Q () (s\<lparr>buffers := Some (l[i := b])\<rparr>) else E SegFault s)"
  by (simp add: set_buffer_def wp_simps split: option.split)

lemma wp_map_buffer:
  assumes "buffers s = Some l" "i < length l"
  shows "wp (map_buffer os i) (\<lambda>_ t. \<exists>b cs. start b \<noteq> MAP_FAILED \<and> buffers t = Some (l[i := b]) \<and>
      n_buffers t = i + 1 \<and> io t = io s \<and> trace t = trace s @ cs \<and> mapped cs = [region b])
    (\<lambda>e _. e \<noteq> SegFault) s"
  unfolding map_buffer_def wp_bindE [where m = "xbuf a b c" for a b c]
proof (rule wp_xbuf)
  let ?Q = "\<lambda>(_ :: unit) t. \<exists>b cs. start b \<noteq> MAP_FAILED \<and> buffers t = Some (l[i := b]) \<and>
      n_buffers t = i + 1 \<and> io t = io s \<and> trace t = trace s @ cs \<and> mapped cs = [region b]"
  fix r b t
  assume t: "stepped s [BufCall VIDIOC_QUERYBUF (cleared_buffer\<lparr>memory := V4L2_MEMORY_MMAP, index := word_of_nat i\<rparr>) r b] t"
  obtain e p w where mm: "sys_mmap os (buf_len b) (fd s) (m b) (world t) = (e, p, w)"
    by (cases "sys_mmap os (buf_len b) (fd s) (m b) (world t)") auto
  show "wp (case (r, b) of (r, buf) \<Rightarrow> if r = - 1 then errno_exit
     else bindE (gets fd) (\<lambda>h. bindE (gets (\<lambda>s. sys_mmap os (buf_len buf) h (m buf) (world s))) (\<lambda>(e, p, w).
       seqE (modify (\<lambda>s. s\<lparr>world := w, errno := (if p = MAP_FAILED then e else errno s)\<rparr>))
       (seqE (log_call (Mmap (buf_len buf) (m buf) p))
       (seqE (set_buffer i \<lparr>start = p, length_of = buf_len buf\<rparr>)
       (if p = MAP_FAILED then errno_exit else modify (\<lambda>s. s\<lparr>n_buffers := i + 1\<rparr>))))))) ?Q (\<lambda>e _. e \<noteq> SegFault) t"
    using assms steppedD [OF t]
    by (simp add: wp_simps wp_set_buffer mm region_def)
       (auto intro!: exI [of _ "\<lparr>start = p, length_of = buf_len b\<rparr>"])
qed simp

lemma wp_request_buffers:
  assumes "\<And>req' r t. stepped s [ReqBufs \<lparr>req_count = 4, req_memory = mem\<rparr> r req'] t \<Longrightarrow> Q req' t"
    and "\<And>t cs. stepped s cs t \<Longrightarrow> (cs = [] \<or> (\<exists>r q q'. cs = [ReqBufs q r q'])) \<Longrightarrow> E Impatient t \<and> E (ExitCode 1) t"
  shows "wp (request_buffers os mem) Q E s"
  unfolding request_buffers_def Let_def wp_bindE [where m = "gets f" for f] wp_gets wp_bindE [where m = "xioctl a b c d" for a b c d]
proof (rule wp_xioctl)
  fix r req' t
  assume t: "stepped s [ReqBufs \<lparr>req_count = 4, req_memory = mem\<rparr> r req'] t"
  show "wp (case (r, req') of (r, req') \<Rightarrow> if r = - 1
      then bindE (gets errno) (\<lambda>e. if e = EINVAL then throw (ExitCode 1) else errno_exit) else ret req') Q E t"
    using assms(1) [OF t] assms(2) [OF t] by (auto simp: wp_simps)
qed (use assms(2) in blast)

text \<open>What the mapping loop has done after the buffers in \<open>ys\<close>.\<close>

definition map_progress :: "'w grab \<Rightarrow> nat \<Rightarrow> nat list \<Rightarrow> 'w grab \<Rightarrow> bool" where
  "map_progress s n ys t \<longleftrightarrow> (\<exists>l cs. buffers t = Some l \<and> length l = n \<and> n_buffers t = length ys \<and> io t = io s \<and>
     trace t = trace s @ cs \<and> mapped cs = map region (take (length ys) l) \<and>
     (\<forall>b\<in>set (take (length ys) l). start b \<noteq> MAP_FAILED))"

lemma map_progress_step:
  fixes s t :: "'w grab"
  assumes "map_progress s n ys t" "length ys < n"
  shows "wp (map_buffer os (length ys)) (\<lambda>_. map_progress s n (ys @ [x])) (\<lambda>e _. e \<noteq> SegFault) t"
proof -
  obtain l cs where l: "buffers t = Some l" "length l = n" "io t = io s" "trace t = trace s @ cs"
    "mapped cs = map region (take (length ys) l)" "\<forall>b\<in>set (take (length ys) l). start b \<noteq> MAP_FAILED"
    using assms(1) by (auto simp: map_progress_def)
  show ?thesis
  proof (rule wp_mono [OF wp_map_buffer [OF l(1)]])
    show "length ys < length l" using assms(2) l(2) by simp
    fix u :: "'w grab" assume "\<exists>b ds. start b \<noteq> MAP_FAILED \<and> buffers u = Some (l[length ys := b]) \<and> n_buffers u = length ys + 1 \<and>
      io u = io t \<and> trace u = trace t @ ds \<and> mapped ds = [region b]"
    then obtain b ds where b: "start b \<noteq> MAP_FAILED" "buffers u = Some (l[length ys := b])"
      "n_buffers u = length ys + 1" "io u = io t" "trace u = trace t @ ds" "mapped ds = [region b]" by blast
    have "take (Suc (length ys)) (l[length ys := b]) = take (length ys) l @ [b]"
      using assms(2) l(2) by (simp add: take_Suc_conv_app_nth)
    with b l show "map_progress s n (ys @ [x]) u"
      unfolding map_progress_def
      by (intro exI [of _ "l[length ys := b]"] exI [of _ "cs @ ds"]) (auto simp: mapped_append)
  qed simp
qed

lemma wp_map_loop:
  assumes "map_progress s n [] t"
  shows "wp (for_each [0..<n] (map_buffer os)) (\<lambda>_. map_progress s n [0..<n]) (\<lambda>e _. e \<noteq> SegFault) t"
proof (rule wp_for_each [where I = "map_progress s n"])
  fix ys x zs u
  assume xs: "[0..<n] = ys @ x # zs" and u: "map_progress s n ys u"
  have "length ys < n" using arg_cong [OF xs, of length] by simp
  moreover have "x = length ys" using arg_cong [OF xs, of "\<lambda>zs. zs ! length ys"] calculation by (simp add: nth_append)
  ultimately show "wp (map_buffer os x) (\<lambda>_. map_progress s n (ys @ [x])) (\<lambda>e _. e \<noteq> SegFault) u"
    using map_progress_step [OF u] by simp
qed (rule assms)

lemma wp_calloc_buffers:
  "wp (calloc_buffers os n) Q E s = (case sys_calloc os n (world s) of (ok, w) \<Rightarrow>
     if ok then Q () (s\<lparr>world := w, buffers := Some (replicate (unat n) \<lparr>start = 0, length_of = 0\<rparr>), trace := trace s @ [Calloc n ok]\<rparr>)
     else E (ExitCode 1) (s\<lparr>world := w, buffers := None, trace := trace s @ [Calloc n ok]\<rparr>))"
  by (simp add: calloc_buffers_def wp_simps split: prod.split)

lemma wp_init_mmap:
  "wp (init_mmap os) (\<lambda>_ t. \<exists>n. 2 \<le> n \<and> map_progress s n [0..<n] t) (\<lambda>e _. e \<noteq> SegFault) s"
  unfolding init_mmap_def wp_bindE [where m = "request_buffers a b" for a b]
proof (rule wp_request_buffers)
  fix req r t
  assume t: "stepped s [ReqBufs \<lparr>req_count = 4, req_memory = V4L2_MEMORY_MMAP\<rparr> r req] t"
  let ?n = "unat (req_count req)"
  have "wp (for_each [0..<?n] (map_buffer os)) (\<lambda>_ t. \<exists>n. 2 \<le> n \<and> map_progress s n [0..<n] t) (\<lambda>e _. e \<noteq> SegFault) u"
    if "\<not> req_count req < 2" "map_progress s ?n [] u" for u
    by (rule wp_mono [OF wp_map_loop [OF that(2)]]) (use that(1) in \<open>auto simp: word_less_nat_alt intro!: exI [of _ ?n]\<close>)
  moreover have "map_progress s ?n [] (t\<lparr>world := w, buffers := Some (replicate ?n \<lparr>start = 0, length_of = 0\<rparr>),
      trace := trace s @ [ReqBufs \<lparr>req_count = 4, req_memory = V4L2_MEMORY_MMAP\<rparr> r req, Calloc (req_count req) True],
      n_buffers := 0\<rparr>)" for w
    using steppedD [OF t] by (simp add: map_progress_def)
  ultimately show "wp (if req_count req < 2 then throw (ExitCode 1)
      else seqE (calloc_buffers os (req_count req)) (seqE (modify (\<lambda>s. s\<lparr>n_buffers := 0\<rparr>))
        (for_each [0..<unat (req_count req)] (map_buffer os))))
      (\<lambda>_ t. \<exists>n. 2 \<le> n \<and> map_progress s n [0..<n] t) (\<lambda>e _. e \<noteq> SegFault) t"
    using steppedD [OF t] by (auto simp: wp_simps wp_calloc_buffers split: prod.split)
qed simp

lemma wp_unmap_all:
  assumes "buffers s = Some l" "n \<le> length l"
  shows "wp (for_each [0..<n] (unmap_buffer os))
    (\<lambda>_ t. \<exists>cs. stepped s cs t \<and> unmapped cs = map region (take (length [0..<n]) l)) (\<lambda>e _. e \<noteq> SegFault) s"
proof (rule wp_for_each [where I = "\<lambda>ys t. \<exists>cs. stepped s cs t \<and> unmapped cs = map region (take (length ys) l)"])
  show "\<exists>cs. stepped s cs s \<and> unmapped cs = map region (take (length []) l)" by (intro exI [of _ "[]"]) simp
  fix ys x zs t
  assume xs: "[0..<n] = ys @ x # zs"
    and "\<exists>cs. stepped s cs t \<and> unmapped cs = map region (take (length ys) l)"
  then obtain cs where cs: "stepped s cs t" "unmapped cs = map region (take (length ys) l)" by blast
  have len: "length ys < n" using arg_cong [OF xs, of length] by simp
  have x: "x = length ys" using arg_cong [OF xs, of "\<lambda>zs. zs ! length ys"] len by (simp add: nth_append)
  let ?I = "\<lambda>(_ :: unit) t. \<exists>cs. stepped s cs t \<and> unmapped cs = map region (take (length (ys @ [x])) l)"
  have "wp (syscall (sys_munmap os (start (l ! x)) (length_of (l ! x)))) (\<lambda>a. wp (case a of (r, _) \<Rightarrow>
      seqE (log_call (Munmap (start (l ! x)) (length_of (l ! x)) r)) (if r = - 1 then errno_exit else ret ())) ?I
      (\<lambda>e _. e \<noteq> SegFault)) (\<lambda>e _. e \<noteq> SegFault) t"
  proof (rule wp_syscall_step)
    fix r :: int and a :: unit and u assume u: "stepped t [] u"
    let ?c = "Munmap (start (l ! x)) (length_of (l ! x)) r"
    have "stepped s (cs @ [?c]) (u\<lparr>trace := trace u @ [?c]\<rparr>)" using stepped_trans [OF cs(1) u] by (simp add: stepped_def)
    moreover have "unmapped (cs @ [?c]) = map region (take (length (ys @ [x])) l)"
      using cs(2) x len assms(2) by (simp add: unmapped_append region_def take_Suc_conv_app_nth)
    ultimately show "wp (case (r, a) of (r, _) \<Rightarrow>
        seqE (log_call (Munmap (start (l ! x)) (length_of (l ! x)) r)) (if r = - 1 then errno_exit else ret ())) ?I (\<lambda>e _. e \<noteq> SegFault) u"
      by (auto simp: wp_simps)
  qed
  with steppedD [OF cs(1)] assms x len show "wp (unmap_buffer os x) ?I (\<lambda>e _. e \<noteq> SegFault) t"
    by (simp add: unmap_buffer_def wp_bindE wp_buffer_at)
qed

lemma wp_uninit_mmap:
  assumes "buffers s = Some l" "n_buffers s \<le> length l" "io s = IO_METHOD_MMAP"
  shows "wp (uninit_device os) (\<lambda>_ t. \<exists>cs. stepped s cs t \<and> unmapped cs = map region (take (n_buffers s) l))
    (\<lambda>e _. e \<noteq> SegFault) s"
proof -
  have "wp (for_each [0..<n_buffers s] (unmap_buffer os)) (\<lambda>_. wp (log_call FreeBuffers)
      (\<lambda>_ t. \<exists>cs. stepped s cs t \<and> unmapped cs = map region (take (n_buffers s) l)) (\<lambda>e _. e \<noteq> SegFault)) (\<lambda>e _. e \<noteq> SegFault) s"
  proof (rule wp_mono [OF wp_unmap_all [OF assms(1,2)]])
    fix t assume "\<exists>cs. stepped s cs t \<and> unmapped cs = map region (take (length [0..<n_buffers s]) l)"
    then obtain cs where "stepped s cs t" "unmapped cs = map region (take (n_buffers s) l)" by auto
    then show "wp (log_call FreeBuffers) (\<lambda>_ t. \<exists>cs. stepped s cs t \<and> unmapped cs = map region (take (n_buffers s) l))
        (\<lambda>e _. e \<noteq> SegFault) t"
      by (auto simp: wp_log_call stepped_def unmapped_append intro!: exI [of _ "cs @ [FreeBuffers]"])
  qed simp
  with assms(3) show ?thesis by (simp add: uninit_device_def wp_bindE wp_gets wp_seqE)
qed

section \<open>Initialisation\<close>

lemma wp_check_capabilities:
  "wp (check_capabilities os cap0) (\<lambda>_ t. \<exists>cs. stepped s cs t) (\<lambda>e _. e \<noteq> SegFault) s"
  unfolding check_capabilities_def wp_bindE [where m = "gets fd"] wp_gets wp_bindE [where m = "xioctl a b c d" for a b c d]
  by (rule wp_xioctl) (auto simp: wp_simps)

lemma wp_reset_crop: "wp (reset_crop os) (\<lambda>_ t. \<exists>cs. stepped s cs t) (\<lambda>e _. e \<noteq> SegFault) s"
  unfolding reset_crop_def wp_bindE [where m = "gets fd"] wp_gets wp_bindE [where m = "xioctl a b c d" for a b c d]
proof (rule wp_xioctl)
  fix r defrect t assume t: "stepped s [CropCap r] t"
  have "wp (xioctl os (ioctl_s_crop os (fd s)) (\<lambda>r _. SCrop defrect r) defrect)
      (\<lambda>_. wp (ret ()) (\<lambda>_ t. \<exists>cs. stepped s cs t) (\<lambda>e _. e \<noteq> SegFault)) (\<lambda>e _. e \<noteq> SegFault) t"
    by (rule wp_xioctl) (auto simp: wp_ret intro: stepped_trans [OF t])
  with t show "wp (case (r, defrect) of (r, defrect) \<Rightarrow> if r = 0
      then seqE (xioctl os (ioctl_s_crop os (fd s)) (\<lambda>r _. SCrop defrect r) defrect) (ret ()) else ret ())
      (\<lambda>_ t. \<exists>cs. stepped s cs t) (\<lambda>e _. e \<noteq> SegFault) t"
    by (auto simp: wp_seqE wp_ret)
qed simp

lemma wp_choose_format: "wp (choose_format os) (\<lambda>_ t. \<exists>cs. stepped s cs t) (\<lambda>e _. e \<noteq> SegFault) s"
  unfolding choose_format_def Let_def wp_bindE [where m = "gets f" for f] wp_gets
    wp_bindE [where m = "xioctl a b c d" for a b c d]
  by (rule wp_xioctl) (auto simp: wp_simps)

lemma wp_malloc_call:
  "wp (malloc_call os n) Q E s = (case sys_malloc os n (world s) of (p, w) \<Rightarrow>
     Q p (s\<lparr>world := w, trace := trace s @ [Malloc n p]\<rparr>))"
  by (simp add: malloc_call_def wp_simps split: prod.split)

lemma wp_init_read:
  assumes "n_buffers s \<le> 1"
  shows "wp (init_read os n) (\<lambda>_ t. grab_ok t \<and> io t = io s) (\<lambda>e _. e \<noteq> SegFault) s"
  using assms
  by (auto simp: init_read_def wp_simps wp_calloc_buffers wp_malloc_call wp_set_buffer grab_ok_def split: prod.split)

lemma wp_init_userp:
  "wp (init_userp os n) (\<lambda>_ t. grab_ok t \<and> io t = io s) (\<lambda>e _. e \<noteq> SegFault) s"
  if "io s = IO_METHOD_USERPTR"
  unfolding init_userp_def wp_bindE [where m = "request_buffers a b" for a b]
proof (rule wp_request_buffers)
  fix req r t
  assume t: "stepped s [ReqBufs \<lparr>req_count = 4, req_memory = V4L2_MEMORY_USERPTR\<rparr> r req] t"
  define I where "I t \<longleftrightarrow> (\<exists>l. buffers t = Some l \<and> length l = 4 \<and> n_buffers t \<le> 4 \<and> io t = io s)" for t :: "'a grab"
  have "wp (for_each [0..<4] (alloc_buffer os n)) (\<lambda>_. I) (\<lambda>e _. e \<noteq> SegFault) u" if "I u" for u
  proof (rule wp_for_each [where I = "\<lambda>_. I"])
    fix ys x zs v assume xs: "[0..<4] = ys @ x # zs" and v: "I v"
    from xs have "x \<in> set [0..<4]" by simp
    with v show "wp (alloc_buffer os n x) (\<lambda>_. I) (\<lambda>e _. e \<noteq> SegFault) v"
      by (auto simp: I_def alloc_buffer_def wp_simps wp_malloc_call wp_set_buffer split: prod.split)
  qed (rule that)
  moreover have "I u \<Longrightarrow> grab_ok u \<and> io u = io s" for u using that by (auto simp: I_def grab_ok_def)
  ultimately have loop: "wp (for_each [0..<4] (alloc_buffer os n)) (\<lambda>_ t. grab_ok t \<and> io t = io s) (\<lambda>e _. e \<noteq> SegFault) u"
    if "I u" for u using that by (blast intro: wp_mono)
  have "I (t\<lparr>world := w, buffers := Some (replicate 4 \<lparr>start = 0, length_of = 0\<rparr>), trace := tr, n_buffers := 0\<rparr>)" for w tr
    using steppedD [OF t] by (simp add: I_def)
  with loop show "wp (seqE (calloc_buffers os 4) (seqE (modify (\<lambda>s. s\<lparr>n_buffers := 0\<rparr>))
      (for_each [0..<4] (alloc_buffer os n)))) (\<lambda>_ t. grab_ok t \<and> io t = io s) (\<lambda>e _. e \<noteq> SegFault) t"
    by (auto simp: wp_seqE wp_modify wp_calloc_buffers split: prod.split)
qed simp

lemma wp_init_device:
  assumes "n_buffers s \<le> 1"
  shows "wp (init_device os cap0) (\<lambda>_ t. grab_ok t \<and> io t = io s) (\<lambda>e _. e \<noteq> SegFault) s"
proof -
  let ?Q = "\<lambda>(_ :: unit) t. grab_ok t \<and> io t = io s" and ?E = "\<lambda>e _. e \<noteq> SegFault"
  have last: "wp (bindE (gets io) (\<lambda>i. case i of IO_METHOD_READ \<Rightarrow> init_read os (sizeimage fmt)
      | IO_METHOD_MMAP \<Rightarrow> init_mmap os | IO_METHOD_USERPTR \<Rightarrow> init_userp os (sizeimage fmt))) ?Q ?E t"
    if "stepped s cs t" for cs t fmt
  proof (cases "io t")
    case IO_METHOD_READ
    with wp_init_read [of t os "sizeimage fmt"] assms steppedD [OF that] show ?thesis by (simp add: wp_simps)
  next
    case IO_METHOD_MMAP
    have "wp (init_mmap os) ?Q ?E t"
      by (rule wp_mono [OF wp_init_mmap])
         (use steppedD [OF that] IO_METHOD_MMAP in \<open>auto simp: map_progress_def grab_ok_def\<close>)
    with IO_METHOD_MMAP show ?thesis by (simp add: wp_simps)
  next
    case IO_METHOD_USERPTR
    with wp_init_userp [OF this, of os "sizeimage fmt"] steppedD [OF that] show ?thesis by (simp add: wp_simps)
  qed
  show ?thesis
    unfolding init_device_def wp_seqE wp_bindE [where m = "choose_format a" for a]
  proof (rule wp_mono [OF wp_check_capabilities], rule wp_mono [OF wp_reset_crop], rule wp_mono [OF wp_choose_format])
    fix a b t u v fmt
    assume "\<exists>cs. stepped s cs t" "\<exists>cs. stepped t cs u" "\<exists>cs. stepped u cs v"
    then obtain cs where "stepped s cs v" using stepped_trans by metis
    then show "wp (bindE (gets io) (\<lambda>i. case i of IO_METHOD_READ \<Rightarrow> init_read os (sizeimage fmt)
      | IO_METHOD_MMAP \<Rightarrow> init_mmap os | IO_METHOD_USERPTR \<Rightarrow> init_userp os (sizeimage fmt))) ?Q ?E v"
      by (rule last)
  qed simp_all
qed

text \<open>Calls that set a device up, as opposed to those that queue, stream or read.\<close>

definition setup_call :: "gcall \<Rightarrow> bool" where
  "setup_call c = (case c of
      BufCall rq _ _ _ \<Rightarrow> rq = VIDIOC_QUERYBUF
    | StreamCall _ _ \<Rightarrow> False | Read _ _ _ \<Rightarrow> False | Select _ \<Rightarrow> False
    | Image _ _ \<Rightarrow> False | Output _ _ \<Rightarrow> False | _ \<Rightarrow> True)"

definition setup_only :: "'w grab \<Rightarrow> bool" where
  "setup_only s = list_all setup_call (trace s)"

lemma keeps_log_call [keeps_intros]: "setup_call c \<Longrightarrow> keeps setup_only (log_call c)"
  by (simp add: keeps_def wp_log_call setup_only_def)

lemma keeps_syscall [keeps_intros]: "keeps setup_only (syscall f)"
  by (simp add: keeps_def wp_syscall setup_only_def split: prod.split)

lemma keeps_errno_exit [keeps_intros]: "keeps setup_only errno_exit"
  by (simp add: errno_exit_def keeps_intros)

lemma keeps_xioctl [keeps_intros]: "(\<And>r a. setup_call (ev r a)) \<Longrightarrow> keeps setup_only (xioctl os f ev a)"
  unfolding keeps_def by (intro allI impI wp_xioctl) (simp_all add: setup_only_def steppedD)

lemma keeps_set_buffer [keeps_intros]: "keeps setup_only (set_buffer i b)"
  by (simp add: keeps_def wp_set_buffer setup_only_def split: option.split)

lemma keeps_calloc_buffers [keeps_intros]: "keeps setup_only (calloc_buffers os n)"
  by (simp add: keeps_def wp_calloc_buffers setup_only_def setup_call_def split: prod.split)

lemma keeps_malloc_call [keeps_intros]: "keeps setup_only (malloc_call os n)"
  by (simp add: keeps_def wp_malloc_call setup_only_def setup_call_def split: prod.split)

lemma keeps_prod [keeps_intros]: "(\<And>a b. keeps I (k a b)) \<Longrightarrow> keeps I (case p of (a, b) \<Rightarrow> k a b)"
  by (simp split: prod.split)

lemma keeps_io_method [keeps_intros]:
  "keeps I a \<Longrightarrow> keeps I b \<Longrightarrow> keeps I c \<Longrightarrow>
   keeps I (case i of IO_METHOD_READ \<Rightarrow> a | IO_METHOD_MMAP \<Rightarrow> b | IO_METHOD_USERPTR \<Rightarrow> c)"
  by (cases i) simp_all

lemma keeps_map_buffer [keeps_intros]: "keeps setup_only (map_buffer os i)"
  unfolding map_buffer_def xbuf_def by (intro keeps_intros) (simp_all add: setup_call_def setup_only_def)

lemma keeps_request_buffers [keeps_intros]: "keeps setup_only (request_buffers os mem)"
  unfolding request_buffers_def Let_def by (intro keeps_intros) (simp_all add: setup_call_def)

lemma keeps_init_device [keeps_intros]: "keeps setup_only (init_device os cap0)"
  unfolding init_device_def check_capabilities_def reset_crop_def choose_format_def init_read_def
    init_mmap_def init_userp_def alloc_buffer_def Let_def
  by (intro keeps_intros) (simp_all add: setup_call_def setup_only_def)

lemma keeps_open_device [keeps_intros]: "keeps setup_only (open_device os)"
  unfolding open_device_def by (intro keeps_intros) (simp_all add: setup_call_def setup_only_def)

lemma wp_usage [wp_simps]:
  "wp (usage o' a) Q E s = Q () (s\<lparr>trace := trace s @
     [Usage o' (concat (map (\<lambda>l. l @ [CHR 0x0A]) (usage_lines a (dev_name s) (frame_count s))))]\<rparr>)"
  by (simp add: usage_def wp_simps)

lemma wp_do_option_buffers:
  "wp (do_option a opt) (\<lambda>_ t. n_buffers t = n_buffers s) (\<lambda>e _. e \<noteq> SegFault) s"
  unfolding do_option_def Let_def wp_simps by simp

lemma keeps_usage [keeps_intros]: "keeps setup_only (usage o' a)"
  unfolding usage_def by (intro keeps_intros) (simp add: setup_call_def)

lemma keeps_do_option [keeps_intros]: "keeps setup_only (do_option a opt)"
  unfolding do_option_def Let_def by (intro keeps_intros) (simp_all add: setup_only_def)

lemma keeps_grabber_main: "keeps setup_only (grabber_main os cap0 argv)"
  unfolding grabber_main_def by (intro keeps_intros) (simp_all add: setup_only_def)

section \<open>What capturing leaves alone\<close>

text \<open>
  While it captures, the program changes neither its settings nor its buffer array, whichever way a
  function ends.
\<close>

definition reached :: "'w grab \<Rightarrow> 'w grab \<Rightarrow> bool" where
  "reached s t \<longleftrightarrow> (\<exists>cs. stepped s cs t)"

lemma reached_step: "reached s t \<Longrightarrow> stepped t cs u \<Longrightarrow> reached s u"
  unfolding reached_def using stepped_trans by blast

named_theorems reach_intros \<open>functions that only make calls\<close>

lemma reach_log_call [reach_intros]: "keeps (reached s) (log_call c)"
  unfolding keeps_def wp_log_call using reached_step stepped_upd(3) by blast

lemma reach_syscall [reach_intros]: "keeps (reached s) (syscall f)"
  unfolding keeps_def by (auto intro!: wp_syscall_step intro: reached_step)

lemma reach_errno_exit [reach_intros]: "keeps (reached s) errno_exit"
  by (simp add: keeps_def wp_errno_exit)

lemma reach_xioctl [reach_intros]: "keeps (reached s) (xioctl os f ev a)"
  unfolding keeps_def by (auto intro!: wp_xioctl intro: reached_step)

lemma reach_buffer_at [reach_intros]: "keeps (reached s) (buffer_at i)"
  by (simp add: keeps_def wp_buffer_at split: option.split)

lemma reach_process_image [reach_intros]: "keeps (reached s) (process_image p n)"
  unfolding process_image_def by (intro keeps_bindE keeps_seqE keeps_basic keeps_if_then reach_intros)

lemma reach_find_buffer [reach_intros]: "keeps (reached s) (find_buffer p n is)"
  by (induction "is") (auto intro!: keeps_bindE keeps_if keeps_basic reach_intros)

lemma reach_read_frame [reach_intros]: "keeps (reached s) (read_frame os)"
  unfolding read_frame_def read_frame_read_def read_frame_mmap_def read_frame_userptr_def xbuf_def
  by (intro keeps_bindE keeps_seqE keeps_if keeps_basic keeps_prod keeps_io_method reach_intros)

lemma reach_select_loop [reach_intros]: "keeps (reached s) (select_loop os k)"
  by (induction k) (auto intro!: keeps_bindE keeps_seqE keeps_if keeps_basic keeps_prod reach_intros)

lemma reach_mainloop: "keeps (reached s) (mainloop os)"
  unfolding mainloop_def by (intro keeps_bindE keeps_for_each keeps_basic reach_intros)

lemma reach_start_capturing: "keeps (reached s) (start_capturing os)"
  unfolding start_capturing_def queue_mmap_def queue_userptr_def xbuf_def xstream_def
  by (intro keeps_bindE keeps_seqE keeps_if keeps_for_each keeps_basic keeps_prod keeps_io_method reach_intros)

lemma reach_stop_capturing: "keeps (reached s) (stop_capturing os)"
  unfolding stop_capturing_def xstream_def
  by (intro keeps_bindE keeps_if keeps_basic keeps_prod reach_intros)

lemma keeps_reached:
  assumes "\<And>s. keeps (reached s) p" "\<And>s cs t. stepped s cs t \<Longrightarrow> I s \<Longrightarrow> I t"
  shows "keeps I p"
  unfolding keeps_def
proof (intro allI impI)
  fix s assume "I s"
  have "reached s s" unfolding reached_def using stepped_refl by blast
  from keepsD [OF assms(1) this] show "wp p (\<lambda>_. I) (\<lambda>_. I) s"
    by (rule wp_mono) (use assms(2) \<open>I s\<close> in \<open>auto simp: reached_def\<close>)
qed

section \<open>A system that answers\<close>

text \<open>
  \<open>ready os n\<close>: calls are looked at, \<open>select\<close> reports data, a dequeue delivers one of \<open>n\<close> buffers, and
  buffers are taken back.
\<close>

definition ready :: "'w os \<Rightarrow> nat \<Rightarrow> bool" where
  "ready os n \<longleftrightarrow> 0 < patience os \<and>
     (\<forall>h w. fst (sys_select os h w) \<noteq> - 1 \<and> fst (sys_select os h w) \<noteq> 0) \<and>
     (\<forall>h b w. fst (ioctl_buf os h VIDIOC_DQBUF b w) \<noteq> - 1 \<and>
        unat (index (fst (snd (snd (ioctl_buf os h VIDIOC_DQBUF b w))))) < n \<and>
        fst (ioctl_buf os h VIDIOC_QBUF b w) \<noteq> - 1)"

lemma wp_xbuf_answer:
  assumes "0 < patience os" "fst (ioctl_buf os (fd s) rq b (world s)) \<noteq> - 1"
    and "\<And>r e b' w t. ioctl_buf os (fd s) rq b (world s) = (r, e, b', w) \<Longrightarrow> stepped s [BufCall rq b r b'] t \<Longrightarrow> Q (r, b') t"
  shows "wp (xbuf os rq b) Q E s"
proof -
  obtain r e b' w where a: "ioctl_buf os (fd s) rq b (world s) = (r, e, b', w)"
    by (cases "ioctl_buf os (fd s) rq b (world s)") auto
  obtain k where k: "patience os = Suc k" using assms(1) by (cases "patience os") auto
  have "stepped s [BufCall rq b r b'] (s\<lparr>world := w, trace := trace s @ [BufCall rq b r b']\<rparr>)"
    by (simp add: stepped_def)
  from assms(3) [OF a this] a assms(2) k show ?thesis
    by (simp add: xbuf_def xioctl_def wp_simps)
qed

lemma wp_read_frame_ready:
  assumes "ready os (n_buffers t)" "grab_ok t"
  shows "wp (read_frame_mmap os) (\<lambda>r u. r = 1 \<and> (\<exists>cs. stepped t cs u)) (\<lambda>_ _. False) t"
  unfolding read_frame_mmap_def wp_bindE [where m = "xbuf a b c" for a b c]
proof (rule wp_xbuf_answer)
  let ?Q = "\<lambda>r u. r = (1 :: int) \<and> (\<exists>cs. stepped t cs u)" and ?rq = "cleared_buffer\<lparr>memory := V4L2_MEMORY_MMAP\<rparr>"
  obtain l where l: "buffers t = Some l" "n_buffers t \<le> length l" using assms(2) by (auto simp: grab_ok_def)
  fix r e b w u
  assume a: "ioctl_buf os (fd t) VIDIOC_DQBUF ?rq (world t) = (r, e, b, w)"
    and u: "stepped t [BufCall VIDIOC_DQBUF ?rq r b] u"
  have b: "r \<noteq> - 1" "unat (index b) < n_buffers t" using assms(1) a by (metis ready_def fst_conv snd_conv)+
  have "wp (seqE (process_image (start (l ! unat (index b))) (bytesused b)) (bindE (xbuf os VIDIOC_QBUF b)
      (\<lambda>(r, _). if r = - 1 then errno_exit else ret 1))) ?Q (\<lambda>_ _. False) u"
    unfolding wp_seqE wp_bindE
  proof (rule wp_process_image, rule wp_xbuf_answer)
    fix v r2 e2 b2 w2 x
    assume v: "stepped u (image_calls u (start (l ! unat (index b))) (bytesused b)) v"
      and q: "ioctl_buf os (fd v) VIDIOC_QBUF b (world v) = (r2, e2, b2, w2)"
      and x: "stepped v [BufCall VIDIOC_QBUF b r2 b2] x"
    have "r2 \<noteq> - 1" using assms(1) q by (metis ready_def fst_conv)
    with stepped_trans [OF u stepped_trans [OF v x]]
    show "wp (case (r2, b2) of (r, _) \<Rightarrow> if r = - 1 then errno_exit else ret 1) ?Q (\<lambda>_ _. False) x"
      by (auto simp: wp_ret)
  qed (use assms(1) in \<open>auto simp: ready_def\<close>)
  with b l steppedD [OF u] show "wp (case (r, b) of (r, buf) \<Rightarrow> bindE (gets errno) (\<lambda>e.
     if r = - 1 then (if e = EAGAIN then ret 0 else errno_exit)
     else bindE (gets n_buffers) (\<lambda>n. if \<not> unat (index buf) < n then throw AssertFailed
       else bindE (buffer_at (unat (index buf))) (\<lambda>b. seqE (process_image (start b) (bytesused buf))
         (bindE (xbuf os VIDIOC_QBUF buf) (\<lambda>(r, _). if r = - 1 then errno_exit else ret 1)))))) ?Q (\<lambda>_ _. False) u"
    by (simp add: wp_bindE wp_gets wp_buffer_at)
qed (use assms(1) in \<open>auto simp: ready_def\<close>)

lemma wp_select_ready:
  assumes "ready os (n_buffers t)" "grab_ok t" "io t = IO_METHOD_MMAP"
  shows "wp (select_loop os (patience os)) (\<lambda>_ u. \<exists>cs. stepped t cs u) (\<lambda>_ _. False) t"
proof -
  obtain k where k: "patience os = Suc k" using assms(1) by (cases "patience os") (auto simp: ready_def)
  obtain r e w where sel: "sys_select os (fd t + 1) (world t) = (r, e, (), w)"
    by (cases "sys_select os (fd t + 1) (world t)") auto
  then have r: "r \<noteq> - 1" "r \<noteq> 0" using assms(1) by (metis ready_def fst_conv)+
  let ?u = "t\<lparr>world := w, trace := trace t @ [Select r]\<rparr>"
  have u: "stepped t [Select r] ?u" by (simp add: stepped_def)
  have "wp (read_frame_mmap os) (\<lambda>r x. r = 1 \<and> (\<exists>cs. stepped ?u cs x)) (\<lambda>_ _. False) ?u"
    by (rule wp_read_frame_ready) (use assms in \<open>simp_all add: grab_ok_def\<close>)
  then have "wp (read_frame_mmap os) (\<lambda>got. wp (if got \<noteq> 0 then ret () else select_loop os k)
      (\<lambda>_ u. \<exists>cs. stepped t cs u) (\<lambda>_ _. False)) (\<lambda>_ _. False) ?u"
    by (rule wp_mono) (use stepped_trans [OF u] in \<open>auto simp: wp_ret\<close>)
  with sel r k assms(3) show ?thesis
    by (simp add: read_frame_def wp_bindE wp_seqE wp_gets wp_syscall wp_log_call)
qed

lemma wp_mainloop_ready:
  assumes "ready os (n_buffers s)" "grab_ok s" "io s = IO_METHOD_MMAP"
  shows "wp (mainloop os) (\<lambda>_ t. \<exists>cs. stepped s cs t) (\<lambda>_ _. False) s"
proof -
  have "wp (for_each [0..<loop_count (frame_count s)] (\<lambda>_. select_loop os (patience os)))
      (\<lambda>_ t. \<exists>cs. stepped s cs t) (\<lambda>_ _. False) s"
  proof (rule wp_for_each [where I = "\<lambda>_ t. \<exists>cs. stepped s cs t"])
    fix t assume "\<exists>cs. stepped s cs t"
    then obtain cs where t: "stepped s cs t" by blast
    show "wp (select_loop os (patience os)) (\<lambda>_ t. \<exists>cs. stepped s cs t) (\<lambda>_ _. False) t"
      by (rule wp_mono [OF wp_select_ready])
         (use assms steppedD [OF t] grab_ok_stepped [OF t] stepped_trans [OF t] in auto)
  qed (use stepped_refl in blast)
  then show ?thesis by (simp add: mainloop_def wp_simps)
qed

end
