(* ===== verification/Grabber_Spec.thy ===== *)
theory Grabber_Spec
  imports Grabber_Run
begin

text \<open>
  The properties of the capture program, on any operating system that meets the hypotheses each one
  names. The small system \<open>demo_os\<close>, whose world is a number, shows that the hypotheses can hold: it
  delivers the buffers in turn and maps memory at increasing addresses.
\<close>

definition demo_os :: "nat os" where
  "demo_os = \<lparr>patience = 3,
     ioctl_buf = (\<lambda>h rq b w. case rq of
        VIDIOC_QUERYBUF \<Rightarrow> (0, 0, b\<lparr>buf_len := 921600, m := index b * 921600\<rparr>, w)
      | VIDIOC_QBUF \<Rightarrow> (0, 0, b, w)
      | VIDIOC_DQBUF \<Rightarrow> (0, 0, b\<lparr>index := word_of_nat (w mod 2), bytesused := 921600\<rparr>, w + 1)),
     ioctl_stream = (\<lambda>h rq a w. (0, 0, a, w)),
     ioctl_reqbufs = (\<lambda>h q w. (0, 0, q\<lparr>req_count := 2\<rparr>, w)),
     ioctl_querycap = (\<lambda>h c w. if w = 7 then (- 1, EINTR, c, 8) else (0, 0, c\<lparr>capabilities := 0x85000001\<rparr>, w)),
     ioctl_cropcap = (\<lambda>h c w. (- 1, EINVAL, c, w)),
     ioctl_s_crop = (\<lambda>h c w. (0, 0, c, w)),
     ioctl_fmt = (\<lambda>h rq f w. (0, 0, f\<lparr>sizeimage := 921600\<rparr>, w)),
     sys_read = (\<lambda>h p n w. (0, 0, (), w)),
     sys_select = (\<lambda>h w. (1, 0, (), w)),
     sys_mmap = (\<lambda>n h off w. (0, 0xB0000000 + off, w)),
     sys_munmap = (\<lambda>p n w. (0, 0, (), w)),
     sys_malloc = (\<lambda>n w. (0xA0000000, w)),
     sys_calloc = (\<lambda>n w. (True, w)),
     sys_stat = (\<lambda>f w. (0, 0, True, w)),
     sys_open = (\<lambda>f w. (3, 0, (), w)),
     sys_close = (\<lambda>h w. (0, 0, (), w))\<rparr>"

definition demo_cap :: v4l2_capability where
  "demo_cap = \<lparr>cap_driver = [], card = [], bus_info = [], device_caps = 0, capabilities = 0\<rparr>"

definition demo_state :: "nat grab" where
  "demo_state = (initial_grab 0)\<lparr>fd := 3, buffers := Some [\<lparr>start = 0xB0000000, length_of = 921600\<rparr>,
     \<lparr>start = 0xB00E1000, length_of = 921600\<rparr>], n_buffers := 2, frame_count := 5\<rparr>"

lemma demo_state_ok: "grab_ok demo_state" "io demo_state = IO_METHOD_MMAP" "n_buffers demo_state = 2"
  by (simp_all add: demo_state_def grab_ok_def initial_grab_def)

lemma demo_ready: "ready demo_os 2"
proof -
  have "unat (word_of_nat (w mod 2) :: u32) < 2" for w :: nat
    by (cases "w mod 2 = 0") (auto simp: mod2_eq_if)
  then show ?thesis by (simp add: ready_def demo_os_def)
qed

text \<open>
  C9. The capture loop, when it ends, has processed exactly as many images as the frame count says,
  read as an unsigned 32-bit number, in every input method and whatever interruptions and empty
  dequeues happened in between; and on no operating system does it ever reach outside the buffer
  array.
\<close>

theorem mainloop_frame_count:
  assumes "grab_ok s"
  shows "fst (run (mainloop os) s) \<noteq> Inl SegFault \<and>
    (\<forall>t. run (mainloop os) s = (Inr (), t) \<longrightarrow>
      (\<exists>cs. trace t = trace s @ cs \<and> images cs = unat (word_of_int (frame_count s) :: u32)))"
proof -
  note w = wp_mainloop [OF assms, of os]
  have "fst (run (mainloop os) s) \<noteq> Inl SegFault"
    using w by (cases "run (mainloop os) s") (auto simp: wp_def)
  moreover have "\<exists>cs. trace t = trace s @ cs \<and> images cs = unat (word_of_int (frame_count s) :: u32)"
    if "run (mainloop os) s = (Inr (), t)" for t
    using wp_InrD [OF w that] steppedD(7) by (auto simp: loop_count_def)
  ultimately show ?thesis by blast
qed

theorem mainloop_frame_count_witness:
  "\<exists>t cs. run (mainloop demo_os) demo_state = (Inr (), t) \<and> trace t = trace demo_state @ cs \<and> images cs = 5"
proof -
  obtain t where t: "run (mainloop demo_os) demo_state = (Inr (), t)"
    using wp_total [OF wp_mainloop_ready [of demo_os demo_state]] demo_ready demo_state_ok by auto
  have "frame_count demo_state = 5" by (simp add: demo_state_def)
  with mainloop_frame_count [OF demo_state_ok(1), of demo_os] t show ?thesis by fastforce
qed

text \<open>
  On a system where \<open>select\<close> reports data, dequeuing delivers one of the program's buffers and
  buffers are taken back, the capture loop ends normally, for every frame count.
\<close>

theorem mainloop_returns:
  assumes "ready os (n_buffers s)" "grab_ok s" "io s = IO_METHOD_MMAP"
  shows "\<exists>t. run (mainloop os) s = (Inr (), t)"
  using wp_total [OF wp_mainloop_ready [OF assms]] by auto

theorem mainloop_returns_witness: "\<exists>t. run (mainloop demo_os) demo_state = (Inr (), t)"
  by (rule mainloop_returns) (simp_all add: demo_ready demo_state_ok)

text \<open>
  With memory mapping, \<open>read_frame\<close> answers 1 only after it has dequeued a buffer of the program,
  processed exactly that buffer with the length the driver gave, and handed the same buffer back to the
  driver; it answers 0 only after a dequeue that found nothing, and then does nothing else.
\<close>

theorem read_frame_requeues:
  assumes "grab_ok s" "io s = IO_METHOD_MMAP" "run (read_frame os) s = (Inr r, t)"
  shows "\<exists>cs. trace t = trace s @ cs \<and>
    (r = 0 \<and> (\<exists>b0 b. cs = [BufCall VIDIOC_DQBUF b0 (- 1) b]) \<or>
     r = 1 \<and> (\<exists>b0 q b l r2 b2. q \<noteq> - 1 \<and> r2 \<noteq> - 1 \<and> buffers s = Some l \<and> unat (index b) < length l \<and>
       cs = BufCall VIDIOC_DQBUF b0 q b # image_calls s (start (l ! unat (index b))) (bytesused b) @
         [BufCall VIDIOC_QBUF b r2 b2]))"
proof -
  have "run (read_frame_mmap os) s = (Inr r, t)" using assms(2,3) by (simp add: read_frame_def prog_simps)
  with wp_InrD [OF wp_read_frame_mmap [OF assms(1)]] obtain cs
    where cs: "stepped s cs t" "mmap_frame_calls s r cs" by blast
  from cs(2) assms(1) have "r = 0 \<and> (\<exists>b0 b. cs = [BufCall VIDIOC_DQBUF b0 (- 1) b]) \<or>
     r = 1 \<and> (\<exists>b0 q b l r2 b2. q \<noteq> - 1 \<and> r2 \<noteq> - 1 \<and> buffers s = Some l \<and> unat (index b) < length l \<and>
       cs = BufCall VIDIOC_DQBUF b0 q b # image_calls s (start (l ! unat (index b))) (bytesused b) @
         [BufCall VIDIOC_QBUF b r2 b2])"
    unfolding mmap_frame_calls_def grab_ok_def by fastforce
  with steppedD(7) [OF cs(1)] show ?thesis by blast
qed

theorem read_frame_requeues_witness:
  "\<exists>t cs. run (read_frame demo_os) demo_state = (Inr 1, t) \<and> trace t = cs \<and> length cs = 3"
proof -
  have "\<exists>t. run (read_frame_mmap demo_os) demo_state = (Inr 1, t)"
    using wp_total [OF wp_read_frame_ready [of demo_os demo_state]] demo_ready demo_state_ok by auto
  then obtain t where t: "run (read_frame demo_os) demo_state = (Inr 1, t)"
    using demo_state_ok(2) by (auto simp: read_frame_def prog_simps)
  have "trace demo_state = []" "out_buf demo_state = 0" by (simp_all add: demo_state_def initial_grab_def)
  with read_frame_requeues [OF demo_state_ok(1,2) t] t show ?thesis by (auto simp: image_calls_def)
qed

text \<open>
  C23. The shape of the program's state: a set-up that succeeds, in any input method and on any system,
  leaves a buffer array that covers the counted buffers (and has an element in read mode), and a
  set-up that fails never does so through a memory fault; starting, capturing and stopping keep that
  shape, whether they end normally or not.
\<close>

theorem grab_ok_invariant:
  assumes "n_buffers s \<le> 1"
  shows "(case run (init_device os cap0) s of (Inr _, t) \<Rightarrow> grab_ok t \<and> io t = io s | (Inl e, _) \<Rightarrow> e \<noteq> SegFault) \<and>
    list_all (keeps grab_ok) [start_capturing os, mainloop os, stop_capturing os]"
proof
  show "case run (init_device os cap0) s of (Inr _, t) \<Rightarrow> grab_ok t \<and> io t = io s | (Inl e, _) \<Rightarrow> e \<noteq> SegFault"
    using wp_init_device [OF assms, of os cap0] by (auto simp: wp_def split: prod.splits sum.splits)
  show "list_all (keeps grab_ok) [start_capturing os, mainloop os, stop_capturing os]"
    using keeps_reached [OF reach_start_capturing, of grab_ok os] keeps_reached [OF reach_mainloop, of grab_ok os]
      keeps_reached [OF reach_stop_capturing, of grab_ok os] grab_ok_stepped
    by simp blast
qed

theorem grab_ok_invariant_witness:
  "\<exists>t. run (init_device demo_os demo_cap) ((initial_grab 0)\<lparr>io := IO_METHOD_USERPTR\<rparr>) = (Inr (), t) \<and> grab_ok t \<and> n_buffers t = 4"
proof -
  let ?s = "(initial_grab 0)\<lparr>io := IO_METHOD_USERPTR\<rparr>"
  obtain t where t: "run (init_device demo_os demo_cap) ?s = (Inr (), t)" "n_buffers t = 4"
    by (simp add: init_device_def check_capabilities_def reset_crop_def choose_format_def init_userp_def request_buffers_def
        calloc_buffers_def alloc_buffer_def malloc_call_def set_buffer_def xioctl_def syscall_def log_call_def prog_simps demo_os_def
        demo_cap_def initial_grab_def upt_rec numeral_3_eq_3 V4L2_CAP_VIDEO_CAPTURE_def V4L2_CAP_STREAMING_def EINVAL_def EINTR_def)
  moreover have "n_buffers ?s \<le> 1" by (simp add: initial_grab_def)
  ultimately show ?thesis using grab_ok_invariant [of ?s demo_os demo_cap] by auto
qed

text \<open>
  C11. A start of streaming that ends normally has handed every buffer of the program to the driver,
  in the order of their numbers and each exactly once, and only then switched the stream on. Nothing
  else is called.
\<close>

theorem start_capturing_order:
  assumes "grab_ok s" "io s \<noteq> IO_METHOD_READ" "run (start_capturing os) s = (Inr (), t)"
  shows "\<exists>cs r. trace t = trace s @ cs @ [StreamCall VIDIOC_STREAMON r] \<and> r \<noteq> - 1 \<and>
    map queued cs = map (\<lambda>i. Some (word_of_nat i)) [0..<n_buffers s]"
proof -
  obtain cs r where cs: "stepped s (cs @ [StreamCall VIDIOC_STREAMON r]) t" "r \<noteq> - 1" "queues cs [0..<n_buffers s]"
    using wp_InrD [OF wp_start_capturing [OF assms(1,2)] assms(3)] by blast
  then show ?thesis using steppedD(7) [OF cs(1)] by (auto simp: queues_def)
qed

theorem start_capturing_order_witness:
  "\<exists>t cs. run (start_capturing demo_os) demo_state = (Inr (), t) \<and>
     trace t = cs @ [StreamCall VIDIOC_STREAMON 0] \<and> map queued cs = [Some 0, Some 1]"
proof -
  let ?b = "\<lambda>i. cleared_buffer\<lparr>memory := V4L2_MEMORY_MMAP, index := i\<rparr>"
  obtain t where t: "run (start_capturing demo_os) demo_state = (Inr (), t)"
    and tr: "trace t = [BufCall VIDIOC_QBUF (?b 0) 0 (?b 0), BufCall VIDIOC_QBUF (?b 1) 0 (?b 1), StreamCall VIDIOC_STREAMON 0]"
    by (simp add: start_capturing_def queue_mmap_def xbuf_def xstream_def xioctl_def syscall_def log_call_def
        prog_simps demo_os_def demo_state_def initial_grab_def upt_rec numeral_2_eq_2 numeral_3_eq_3)
  from start_capturing_order [OF demo_state_ok(1) _ t] demo_state_ok(2) obtain cs r where
    cs: "trace t = trace demo_state @ cs @ [StreamCall VIDIOC_STREAMON r]"
      "map queued cs = map (\<lambda>i. Some (word_of_nat i)) [0..<n_buffers demo_state]" by auto
  have "trace demo_state = []" by (simp add: demo_state_def initial_grab_def)
  with t tr cs demo_state_ok(3) show ?thesis by (auto simp: upt_rec)
qed

text \<open>
  C10. Memory mapping and unmapping match: if \<open>init_mmap\<close> ends normally the program has at least two
  buffers, each of them a successful mapping, and if \<open>uninit_device\<close> then ends normally it has
  unmapped exactly the same regions, each once and in the same order.
\<close>

theorem map_unmap_round_trip:
  assumes "io s = IO_METHOD_MMAP" "run (init_mmap os) s = (Inr (), t)" "run (uninit_device os) t = (Inr (), u)"
  shows "\<exists>cs ds l. trace t = trace s @ cs \<and> trace u = trace t @ ds \<and> buffers t = Some l \<and>
    2 \<le> n_buffers t \<and> n_buffers t = length l \<and> (\<forall>b\<in>set l. start b \<noteq> MAP_FAILED) \<and>
    mapped cs = map region l \<and> unmapped ds = mapped cs"
proof -
  obtain n where n: "2 \<le> n" "map_progress s n [0..<n] t"
    using wp_InrD [OF wp_init_mmap assms(2)] by blast
  then obtain l cs where l: "buffers t = Some l" "length l = n" "n_buffers t = n" "io t = io s"
    "trace t = trace s @ cs" "mapped cs = map region l" "\<forall>b\<in>set l. start b \<noteq> MAP_FAILED"
    by (auto simp: map_progress_def)
  obtain ds where "stepped t ds u" "unmapped ds = map region (take (n_buffers t) l)"
    using wp_InrD [OF wp_uninit_mmap assms(3)] l assms(1) by auto
  with l n(1) steppedD(7) [of t ds u] show ?thesis by auto
qed

theorem map_unmap_round_trip_witness:
  "\<exists>t u. run (init_mmap demo_os) (initial_grab 0) = (Inr (), t) \<and> run (uninit_device demo_os) t = (Inr (), u) \<and>
     mapped (trace t) = [(0xB0000000, 921600), (0xB00E1000, 921600)] \<and> unmapped (trace u) = mapped (trace t)"
proof -
  obtain t where t: "run (init_mmap demo_os) (initial_grab 0) = (Inr (), t)"
    and m: "mapped (trace t) = [(0xB0000000, 921600), (0xB00E1000, 921600)]" "unmapped (trace t) = []"
    by (simp add: init_mmap_def request_buffers_def calloc_buffers_def map_buffer_def set_buffer_def xbuf_def
        xioctl_def syscall_def log_call_def prog_simps demo_os_def initial_grab_def upt_rec numeral_3_eq_3 MAP_FAILED_def)
  obtain u where u: "run (uninit_device demo_os) t = (Inr (), u)"
    using t by (auto simp: uninit_device_def unmap_buffer_def buffer_at_def init_mmap_def request_buffers_def
        calloc_buffers_def map_buffer_def set_buffer_def xbuf_def xioctl_def syscall_def log_call_def prog_simps
        demo_os_def initial_grab_def upt_rec numeral_3_eq_3 MAP_FAILED_def)
  from map_unmap_round_trip [OF _ t u] t u m show ?thesis
    by (auto simp: initial_grab_def unmapped_append)
qed

text \<open>
  C19. \<open>main\<close>, with any options and on any system, never queues or dequeues a buffer, never starts a
  stream, never reads and never processes an image: the calls that would are commented out. It ends
  normally with 0, or exits, and never through a memory fault.
\<close>

theorem main_only_sets_up:
  "list_all setup_call (trace (snd (run (grabber_main os cap0 argv) (initial_grab w)))) \<and>
   fst (run (grabber_main os cap0 argv) (initial_grab w)) \<noteq> Inl SegFault"
proof
  have "setup_only (initial_grab w)" by (simp add: setup_only_def initial_grab_def)
  from keepsD [OF keeps_grabber_main this, of os cap0 argv]
  show "list_all setup_call (trace (snd (run (grabber_main os cap0 argv) (initial_grab w))))"
    by (cases "run (grabber_main os cap0 argv) (initial_grab w)"; cases "fst (run (grabber_main os cap0 argv) (initial_grab w))")
       (auto simp: wp_def setup_only_def)
  let ?I = "\<lambda>s :: 'a grab. n_buffers s \<le> 1"
  have opts: "wp (for_each xs (do_option a)) (\<lambda>_. ?I) (\<lambda>e _. e \<noteq> SegFault) s" if "?I s" for s xs a
    by (rule wp_for_each [where I = "\<lambda>_. ?I"], use that in simp, rule wp_mono [OF wp_do_option_buffers]) auto
  have opn: "wp (open_device os) (\<lambda>_. ?I) (\<lambda>e _. e \<noteq> SegFault) s" if "?I s" for s
    using that by (auto simp: open_device_def wp_simps split: prod.split)
  have ini: "wp (init_device os cap0) (\<lambda>_. wp (ret 0) (\<lambda>_ _. True) (\<lambda>e _. e \<noteq> SegFault)) (\<lambda>e _. e \<noteq> SegFault) s" if "?I s" for s
    by (rule wp_mono [OF wp_init_device [OF that]]) (simp_all add: wp_ret)
  have "wp (grabber_main os cap0 argv) (\<lambda>_ _. True) (\<lambda>e _. e \<noteq> SegFault) (initial_grab w)"
    unfolding grabber_main_def wp_seqE wp_modify
    by (rule wp_mono [OF opts], simp add: initial_grab_def, rule wp_mono [OF opn], simp, rule ini) simp_all
  then show "fst (run (grabber_main os cap0 argv) (initial_grab w)) \<noteq> Inl SegFault"
    by (cases "run (grabber_main os cap0 argv) (initial_grab w)") (auto simp: wp_def)
qed

text \<open>
  C18. The wrapper around \<open>ioctl\<close>: a call that is interrupted \<open>k\<close> times in a row and then answers is
  answered with exactly that result, the structure as the last call left it, provided \<open>k\<close> is below
  the patience; in between, nothing of the program changes.
\<close>

theorem xioctl_retries:
  assumes "interrupted_for f k a (world s) (r, e, a', w')" "k < patience os" "\<not> (r = - 1 \<and> e = EINTR)"
  shows "\<exists>t. run (xioctl os f ev a) s = (Inr (r, a'), t) \<and> world t = w' \<and> trace t = trace s @ [ev r a'] \<and>
    (r = - 1 \<longrightarrow> errno t = e)"
  using xioctl_loop_returns [OF assms]
  by (auto simp: xioctl_def log_call_def prog_simps)

theorem xioctl_retries_witness:
  "\<exists>t. run (xioctl demo_os (ioctl_querycap demo_os 3) (\<lambda>r _. QueryCap r) demo_cap) (initial_grab 7) =
     (Inr (0, demo_cap\<lparr>capabilities := 0x85000001\<rparr>), t) \<and> trace t = [QueryCap 0]"
proof -
  have "interrupted_for (ioctl_querycap demo_os 3) 1 demo_cap (world (initial_grab 7)) (0, 0, demo_cap\<lparr>capabilities := 0x85000001\<rparr>, 8)"
    by (simp add: demo_os_def initial_grab_def)
  moreover have "1 < patience demo_os" by (simp add: demo_os_def)
  ultimately have "\<exists>t. run (xioctl demo_os (ioctl_querycap demo_os 3) (\<lambda>r _. QueryCap r) demo_cap) (initial_grab 7) =
      (Inr (0, demo_cap\<lparr>capabilities := 0x85000001\<rparr>), t) \<and> world t = 8 \<and> trace t = trace (initial_grab (7 :: nat)) @ [QueryCap 0] \<and>
      ((0 :: int) = - 1 \<longrightarrow> errno t = 0)"
    by (rule xioctl_retries) simp
  then show ?thesis by (simp add: initial_grab_def) blast
qed

text \<open>
  C40. The option \<open>-c\<close> with a number that fits sets the frame count to it; the capture loop then
  counts modulo \<open>2 ^ 32\<close>, so that \<open>-c -1\<close> asks for 4294967295 frames.
\<close>

theorem count_option:
  assumes "\<not> snd (strtol arg)" "grab_ok s"
  shows "\<exists>t. run (do_option argv0 (CHR ''c'', arg)) s = (Inr (), t) \<and> frame_count t = fst (strtol arg) \<and>
    (\<forall>u. run (mainloop os) t = (Inr (), u) \<longrightarrow>
       (\<exists>cs. trace u = trace t @ cs \<and> int (images cs) = fst (strtol arg) mod 2 ^ 32))"
proof -
  let ?t = "s\<lparr>errno := 0, frame_count := fst (strtol arg)\<rparr>"
  have "run (do_option argv0 (CHR ''c'', arg)) s = (Inr (), ?t)"
    using assms(1) by (simp add: do_option_def prog_simps)
  moreover have "\<exists>cs. trace u = trace ?t @ cs \<and> int (images cs) = fst (strtol arg) mod 2 ^ 32"
    if u: "run (mainloop os) ?t = (Inr (), u)" for u
  proof -
    have "grab_ok ?t" using assms(2) by (simp add: grab_ok_def)
    from wp_InrD [OF wp_mainloop [OF this] u] obtain cs
      where "stepped ?t cs u" "images cs = unat (word_of_int (fst (strtol arg)) :: u32)"
      by (auto simp: loop_count_def)
    then show ?thesis using steppedD(7) [of ?t cs u]
      by (auto simp: unsigned_of_int take_bit_eq_mod)
  qed
  ultimately show ?thesis by (intro exI [of _ ?t]) simp
qed

theorem count_option_witness:
  "\<exists>t. run (do_option [] (CHR ''c'', ''-1'')) demo_state = (Inr (), t) \<and> frame_count t = - 1 \<and>
     loop_count (frame_count t) = 4294967295"
proof -
  have "strtol ''-1'' = (- 1, False)"
    by (simp add: strtol_def strtol_magnitude_def digit_in_def is_space_def Let_def)
  with count_option [of "''-1''" demo_state "[]" demo_os] demo_state_ok(1) obtain t
    where "run (do_option [] (CHR ''c'', ''-1'')) demo_state = (Inr (), t)" "frame_count t = - 1" by auto
  then show ?thesis by (auto simp: loop_count_def unsigned_minus_1_eq_mask mask_eq_exp_minus_1)
qed

end
