(* ===== verification/Grabber_Options.thy ===== *)
theory Grabber_Options
  imports Grabber_Run
begin

text \<open>
  The command line of the capture program \<open>src/lkml/v4l2-app/grabber.c\<close>: its two option tables and
  its help text agree, every way of writing options is read back as those options, and what the
  settings are after the option loop of \<open>main\<close>.
\<close>

section \<open>The tables\<close>

lemma short_opt_options:
  "short_opt short_options (CHR ''d'') = Some required_argument" "short_opt short_options (CHR ''h'') = Some no_argument"
  "short_opt short_options (CHR ''m'') = Some no_argument" "short_opt short_options (CHR ''r'') = Some no_argument"
  "short_opt short_options (CHR ''u'') = Some no_argument" "short_opt short_options (CHR ''o'') = Some no_argument"
  "short_opt short_options (CHR ''f'') = Some no_argument" "short_opt short_options (CHR ''c'') = Some required_argument"
  by (simp_all add: short_options_def char_at_def)

lemma grabber_tables: "tables_agree short_options long_options"
  by (simp add: tables_agree_def long_options_def short_opt_options)

section \<open>Reading back what was written\<close>

text \<open>
  A command line: options in any style between operands, and possibly \<open>--\<close> with anything behind it.
\<close>

datatype cmd_item = Opt style longopt string | Operand string

fun write_item :: "cmd_item \<Rightarrow> string list" where
  "write_item (Opt st l arg) = write_option st l arg"
| "write_item (Operand w) = [w]"

fun item_ok :: "cmd_item \<Rightarrow> bool" where
  "item_ok (Opt st l arg) = (l \<in> set long_options \<and> writable st l arg)"
| "item_ok (Operand w) = (char_at w \<noteq> CHR ''-'' \<or> w = ''-'')"

fun item_answers :: "cmd_item \<Rightarrow> (char \<times> string) list" where
  "item_answers (Opt st l arg) = [option_answer l arg]"
| "item_answers (Operand w) = []"

definition line_end :: "string list \<Rightarrow> bool" where
  "line_end ws = (case ws of [] \<Rightarrow> True | w # _ \<Rightarrow> w = ''--'')"

lemma getopt_operand:
  assumes "item_ok (Operand w)"
  shows "getopt_long os los (w # ws) = getopt_long os los ws"
proof -
  have "take 2 w \<noteq> ''--''" using assms by (cases w; cases "tl w") (auto simp: char_at_def)
  then show ?thesis using assms by (auto simp: getopt_long.simps(2))
qed

lemma getopt_long_line:
  assumes "\<forall>x\<in>set xs. item_ok x" "line_end ws"
  shows "getopt_long short_options long_options (concat (map write_item xs) @ ws) = concat (map item_answers xs)"
  using assms(1)
proof (induction xs)
  case Nil
  show ?case using assms(2) by (cases ws) (simp_all add: line_end_def getopt_long.simps(2))
next
  case (Cons x xs)
  then show ?case
    by (cases x) (simp_all add: getopt_long_option [OF grabber_tables] getopt_operand)
qed

text \<open>
  C21. Round trip of the command line: whatever mixture of options and operands is written, in whichever of
  the four styles for each option, the calls of \<open>getopt_long\<close> answer exactly the options that were
  written, in order and with their arguments; operands, and everything behind a \<open>--\<close>, are passed over.
\<close>

theorem options_round_trip:
  assumes "\<forall>x\<in>set xs. item_ok x" "line_end ws"
  shows "getopt_long short_options long_options (concat (map write_item xs) @ ws) = concat (map item_answers xs)"
  using assms by (rule getopt_long_line)

theorem options_round_trip_witness:
  "getopt_long short_options long_options
     [''-d/dev/video1'', ''x'', ''--count=3'', ''-c'', ''-5'', ''--userp'', ''--device'', ''-'', ''--'', ''-h''] =
   [(CHR ''d'', ''/dev/video1''), (CHR ''c'', ''3''), (CHR ''c'', ''-5''), (CHR ''u'', []), (CHR ''d'', ''-'')]"
proof -
  let ?d = "long_options ! 0" and ?u = "long_options ! 4" and ?c = "long_options ! 7"
  let ?xs = "[Opt ShortAttached ?d ''/dev/video1'', Operand ''x'', Opt LongEquals ?c ''3'', Opt ShortApart ?c ''-5'',
     Opt LongApart ?u [], Opt LongApart ?d ''-'']"
  have "\<forall>x\<in>set ?xs. item_ok x" by (simp add: long_options_def writable_def char_at_def)
  from options_round_trip [OF this, of "[''--'', ''-h'']"] show ?thesis
    by (simp add: long_options_def write_option_def option_answer_def line_end_def)
qed

section \<open>The settings\<close>

text \<open>
  What a sequence of options asks for: of the options that set something the last one counts, the
  counting ones add up.
\<close>

definition last_arg :: "char \<Rightarrow> string \<Rightarrow> (char \<times> string) list \<Rightarrow> string" where
  "last_arg c d as = last (d # map snd (filter (\<lambda>x. fst x = c) as))"

fun method_of :: "char \<Rightarrow> io_method option" where
  "method_of c = (if c = CHR ''m'' then Some IO_METHOD_MMAP else if c = CHR ''r'' then Some IO_METHOD_READ
     else if c = CHR ''u'' then Some IO_METHOD_USERPTR else None)"

definition last_method :: "io_method \<Rightarrow> (char \<times> string) list \<Rightarrow> io_method" where
  "last_method i as = last (i # List.map_filter (\<lambda>x. method_of (fst x)) as)"

definition how_often :: "char \<Rightarrow> (char \<times> string) list \<Rightarrow> int" where
  "how_often c as = int (length (filter (\<lambda>x. fst x = c) as))"

definition last_count :: "int \<Rightarrow> (char \<times> string) list \<Rightarrow> int" where
  "last_count n as = last (n # map (\<lambda>x. fst (strtol (snd x))) (filter (\<lambda>x. fst x = CHR ''c'') as))"

lemma last_Cons_Cons: "last (d # e # xs) = last (e # xs)"
  by simp

lemmas setting_defs = last_arg_def last_method_def how_often_def last_count_def

lemma settings_Cons:
  "last_arg (CHR ''d'') d ((c, a) # as) = last_arg (CHR ''d'') (if c = CHR ''d'' then a else d) as"
  "last_method i ((c, a) # as) = last_method (case method_of c of None \<Rightarrow> i | Some j \<Rightarrow> j) as"
  "how_often k ((c, a) # as) = (if c = k then 1 else 0) + how_often k as"
  "last_count n ((c, a) # as) = last_count (if c = CHR ''c'' then fst (strtol a) else n) as"
  by (simp_all add: setting_defs List.map_filter_simps split: option.split)

definition setting_option :: "char \<times> string \<Rightarrow> bool" where
  "setting_option x \<longleftrightarrow> fst x \<in> set ''dmruofc'' \<and> (fst x = CHR ''c'' \<longrightarrow> \<not> snd (strtol (snd x)))"

definition configured :: "(char \<times> string) list \<Rightarrow> 'w grab \<Rightarrow> 'w grab \<Rightarrow> bool" where
  "configured as s t \<longleftrightarrow> dev_name t = last_arg (CHR ''d'') (dev_name s) as \<and> io t = last_method (io s) as \<and>
     out_buf t = out_buf s + how_often (CHR ''o'') as \<and> force_format t = force_format s + how_often (CHR ''f'') as \<and>
     frame_count t = last_count (frame_count s) as \<and> world t = world s \<and> trace t = trace s"

lemma run_do_option:
  assumes "setting_option (c, a)"
  shows "\<exists>t. run (do_option a0 (c, a)) s = (Inr (), t) \<and> configured [(c, a)] s t"
proof -
  consider "c = CHR ''d''" | "c = CHR ''m''" | "c = CHR ''r''" | "c = CHR ''u''" | "c = CHR ''o''" | "c = CHR ''f''"
    | "c = CHR ''c''" "\<not> snd (strtol a)"
    using assms by (auto simp: setting_option_def)
  then show ?thesis
    by cases (simp_all add: do_option_def prog_simps configured_def setting_defs List.map_filter_simps)
qed

lemma configured_Cons:
  assumes "configured [(c, a)] s t" "configured as t u"
  shows "configured ((c, a) # as) s u"
  using assms by (simp add: configured_def settings_Cons)
     (simp add: setting_defs)

text \<open>
  C22. The command line decides the settings: options written in any style, with operands between them, and
  without \<open>-h\<close> and with counts that fit, leave the option loop of \<open>main\<close> normally, with the device and
  the frame count given last, the input method given last, and the numbers of \<open>-o\<close> and \<open>-f\<close>; nothing
  is called.
\<close>

theorem options_configure:
  assumes "\<forall>x\<in>set xs. item_ok x \<and> list_all setting_option (item_answers x)" "line_end ws"
  shows "\<exists>t. run (for_each (getopt_long short_options long_options (concat (map write_item xs) @ ws)) (do_option a0)) s = (Inr (), t) \<and>
    configured (concat (map item_answers xs)) s t"
proof -
  have "\<exists>t. run (for_each as (do_option a0)) s = (Inr (), t) \<and> configured as s t" if "list_all setting_option as" for as
    using that
  proof (induction as arbitrary: s)
    case Nil
    then show ?case by (simp add: configured_def setting_defs List.map_filter_simps)
  next
    case (Cons x as)
    obtain c a where x: "x = (c, a)" by (cases x)
    obtain t where t: "run (do_option a0 (c, a)) s = (Inr (), t)" "configured [(c, a)] s t"
      using run_do_option [of c a a0 s] Cons.prems x by auto
    obtain u where "run (for_each as (do_option a0)) t = (Inr (), u)" "configured as t u"
      using Cons by auto
    with t x configured_Cons [OF t(2)] show ?case by (auto simp: run_seqE)
  qed
  moreover have "list_all setting_option (concat (map item_answers xs))"
    using assms(1) by (induction xs) auto
  moreover have "getopt_long short_options long_options (concat (map write_item xs) @ ws) = concat (map item_answers xs)"
    using assms by (intro getopt_long_line) auto
  ultimately show ?thesis by simp
qed

theorem options_configure_witness:
  "\<exists>t. run (for_each (getopt_long short_options long_options [''-u'', ''--mmap'', ''-o'', ''--count=12'', ''-d'', ''/dev/video1'', ''-o'']) (do_option [])) (initial_grab (0 :: nat)) = (Inr (), t) \<and>
     dev_name t = ''/dev/video1'' \<and> io t = IO_METHOD_MMAP \<and> out_buf t = 2 \<and> force_format t = 0 \<and> frame_count t = 12"
proof -
  let ?o = "Opt ShortApart (long_options ! 5) []"
  let ?xs = "[Opt ShortApart (long_options ! 4) [], Opt LongApart (long_options ! 2) [], ?o,
     Opt LongEquals (long_options ! 7) ''12'', Opt ShortApart (long_options ! 0) ''/dev/video1'', ?o]"
  have n: "strtol ''12'' = (12, False)"
    by (simp add: strtol_def strtol_magnitude_def digit_in_def is_space_def Let_def char_at_def)
  have "\<forall>x\<in>set ?xs. item_ok x \<and> list_all setting_option (item_answers x)"
    by (simp add: long_options_def writable_def option_answer_def setting_option_def n)
  from options_configure [OF this, of "[]" "[]" "initial_grab (0 :: nat)"] show ?thesis
    by (auto simp: long_options_def write_option_def option_answer_def line_end_def configured_def setting_defs
        List.map_filter_simps initial_grab_def n)
qed

text \<open>
  C24. The option string, the table of long options and the help text agree: each letter of the table is in
  the option string with the same need of an argument, names and letters are distinct, and for each
  entry there is exactly one line of help, which starts with its letter and its name. The options that
  the loop does not know end the program with a failure, after the help text went to the standard
  error output.
\<close>

theorem option_tables_agree:
  "tables_agree short_options long_options \<and> distinct (map lval long_options) \<and>
   list_all (\<lambda>l. length (filter (is_prefix (CHR ''-'' # lval l # '' | --'' @ lname l)) (usage_lines a0 dev cnt)) = 1) long_options \<and>
   (\<forall>c arg. c \<noteq> NUL \<and> c \<notin> lval ` set long_options \<longrightarrow>
      run (do_option a0 (c, arg)) s = (Inl (ExitCode 1), s\<lparr>trace := trace s @
        [Usage False (concat (map (\<lambda>l. l @ [CHR 0x0A]) (usage_lines a0 (dev_name s) (frame_count s))))]\<rparr>))"
proof (intro conjI allI impI)
  show "list_all (\<lambda>l. length (filter (is_prefix (CHR ''-'' # lval l # '' | --'' @ lname l)) (usage_lines a0 dev cnt)) = 1) long_options"
    by (simp add: long_options_def usage_lines_def)
  fix c arg assume "c \<noteq> NUL \<and> c \<notin> lval ` set long_options"
  then have "run (do_option a0 (c, arg)) s = run (seqE (usage False a0) (throw (ExitCode 1))) s"
    by (simp add: do_option_def long_options_def)
  then show "run (do_option a0 (c, arg)) s = (Inl (ExitCode 1), s\<lparr>trace := trace s @
        [Usage False (concat (map (\<lambda>l. l @ [CHR 0x0A]) (usage_lines a0 (dev_name s) (frame_count s))))]\<rparr>)"
    by (simp add: usage_def log_call_def prog_simps)
qed (rule grabber_tables, simp add: long_options_def)

theorem option_tables_agree_witness:
  "run (do_option ''grab'' (CHR ''?'', [])) (initial_grab (0 :: nat)) =
     (Inl (ExitCode 1), (initial_grab 0)\<lparr>trace := [Usage False (concat (map (\<lambda>l. l @ [CHR 0x0A]) (usage_lines ''grab'' [] 70)))]\<rparr>)"
proof -
  have "CHR ''?'' \<noteq> NUL \<and> CHR ''?'' \<notin> lval ` set long_options" by (simp add: long_options_def)
  then show ?thesis
    using option_tables_agree [of "''grab''" "[]" 70 "initial_grab (0 :: nat)"] by (simp add: initial_grab_def)
qed

end
