(* ===== verification/Capture_Contract.thy ===== *)
theory Capture_Contract
  imports Grabber_Run "HOL-Library.Multiset"
begin

text \<open>
  What the capture program of \<open>src/lkml/v4l2-app/grabber.c\<close> relies on when it streams: the V4L2
  streaming interface as a contract about who has which buffer. The contract is a locale over an
  operating system, the abstraction \<open>held\<close> to the buffers the driver has, and an invariant of the
  driver's state; an extension of it covers user pointers. The program's lemmas are proved once from
  the contract.
\<close>

section \<open>Calls that keep an invariant of the world\<close>

text \<open>
  An interrupted or failed call leaves its structure alone and keeps \<open>J\<close>; a call that succeeds
  establishes \<open>R\<close>.
\<close>

lemma wp_xioctl_loop_inv:
  assumes "J (world s)"
    and "\<And>w r e a' w'. J w \<Longrightarrow> f a w = (r, e, a', w') \<Longrightarrow> if r = - 1 then a' = a \<and> J w' else R r a' w'"
    and "\<And>t. stepped s [] t \<Longrightarrow> J (world t) \<Longrightarrow> Q (- 1, a) t"
    and "\<And>r a' t. r \<noteq> - 1 \<Longrightarrow> R r a' (world t) \<Longrightarrow> stepped s [] t \<Longrightarrow> Q (r, a') t"
    and "\<And>t. stepped s [] t \<Longrightarrow> J (world t) \<Longrightarrow> E Impatient t"
  shows "wp (xioctl_loop f k a) Q E s"
  using assms(1,3-)
proof (induction k arbitrary: s)
  case 0
  then show ?case by (simp add: wp_simps)
next
  case (Suc k)
  obtain r e a' w' where f: "f a (world s) = (r, e, a', w')" by (metis prod_cases4)
  let ?t = "s\<lparr>world := w', errno := (if r = - 1 then e else errno s)\<rparr>"
  have t: "stepped s [] ?t" "world ?t = w'" by simp_all
  have step: "if r = - 1 then a' = a \<and> J w' else R r a' w'" using assms(2) [OF Suc.prems(1) f] .
  have "wp (xioctl_loop f k a) Q E ?t" if "r = - 1"
  proof (rule Suc.IH)
    show "J (world ?t)" using step that by simp
    show "Q (- 1, a) u" if "stepped ?t [] u" "J (world u)" for u
      using Suc.prems(2) stepped_trans [OF t(1) that(1)] that(2) by simp
    show "Q (r, a') u" if "r \<noteq> - 1" "R r a' (world u)" "stepped ?t [] u" for r a' u
      using Suc.prems(3) stepped_trans [OF t(1) that(3)] that(1,2) by simp
    show "E Impatient u" if "stepped ?t [] u" "J (world u)" for u
      using Suc.prems(4) stepped_trans [OF t(1) that(1)] that(2) by simp
  qed
  with step f t Suc.prems(2) [of ?t] Suc.prems(3) [of r a' ?t] show ?case
    by (auto simp: wp_simps split: if_splits)
qed

lemma wp_xioctl_inv:
  assumes "J (world s)"
    and "\<And>w r e a' w'. J w \<Longrightarrow> f a w = (r, e, a', w') \<Longrightarrow> if r = - 1 then a' = a \<and> J w' else R r a' w'"
    and "\<And>t. stepped s [ev (- 1) a] t \<Longrightarrow> J (world t) \<Longrightarrow> Q (- 1, a) t"
    and "\<And>r a' t. r \<noteq> - 1 \<Longrightarrow> R r a' (world t) \<Longrightarrow> stepped s [ev r a'] t \<Longrightarrow> Q (r, a') t"
    and "\<And>t. stepped s [] t \<Longrightarrow> J (world t) \<Longrightarrow> E Impatient t"
  shows "wp (xioctl os f ev a) Q E s"
  unfolding xioctl_def wp_bindE
proof (rule wp_xioctl_loop_inv [where J = J and R = R])
  have logged: "stepped s [c] (t\<lparr>trace := trace t @ [c]\<rparr>)" if "stepped s [] t" for c t
    using that by (simp add: stepped_def)
  show "wp (case (- 1, a) of (r, a') \<Rightarrow> seqE (log_call (ev r a')) (ret (r, a'))) Q E t"
    if "stepped s [] t" "J (world t)" for t
    using assms(3) [OF logged [OF that(1)]] that(2) by (simp add: wp_simps)
  show "wp (case (r, a') of (r, a') \<Rightarrow> seqE (log_call (ev r a')) (ret (r, a'))) Q E t"
    if "r \<noteq> - 1" "R r a' (world t)" "stepped s [] t" for r a' t
    using assms(4) [OF that(1) _ logged [OF that(3)]] that(2) by (simp add: wp_simps)
qed (use assms in auto)

lemma wp_xbuf_inv:
  assumes "J (world s)"
    and "\<And>w r e b' w'. J w \<Longrightarrow> ioctl_buf os (fd s) rq b w = (r, e, b', w') \<Longrightarrow>
      if r = - 1 then b' = b \<and> J w' else R b' w'"
    and "\<And>t. stepped s [BufCall rq b (- 1) b] t \<Longrightarrow> J (world t) \<Longrightarrow> Q (- 1, b) t"
    and "\<And>r b' t. r \<noteq> - 1 \<Longrightarrow> R b' (world t) \<Longrightarrow> stepped s [BufCall rq b r b'] t \<Longrightarrow> Q (r, b') t"
    and "\<And>t. stepped s [] t \<Longrightarrow> J (world t) \<Longrightarrow> E Impatient t"
  shows "wp (xbuf os rq b) Q E s"
  unfolding xbuf_def wp_bindE wp_gets
  by (rule wp_xioctl_inv [where J = J and R = "\<lambda>_. R"]) (use assms in auto)

lemma wp_process_image_inv:
  assumes "stepped s cs t" "\<And>u. stepped s (cs @ image_calls t p n) u \<Longrightarrow> world u = world t \<Longrightarrow> Q () u"
  shows "wp (process_image p n) Q E t"
proof -
  have "stepped s (cs @ image_calls t p n) (t\<lparr>trace := trace t @ image_calls t p n\<rparr>)"
    using assms(1) by (simp add: stepped_def)
  from assms(2) [OF this] show ?thesis
    by (cases "out_buf t = 0") (simp_all add: process_image_def wp_simps image_calls_def)
qed

text \<open>The end of \<open>read_frame\<close>: the image is processed and the buffer handed back.\<close>

lemma wp_requeue:
  assumes t: "stepped s cs t" and "J (world t)"
    and "\<And>h w r e b' w'. J w \<Longrightarrow> ioctl_buf os h VIDIOC_QBUF b w = (r, e, b', w') \<Longrightarrow>
      if r = - 1 then b' = b \<and> J w' else K w'"
    and stop: "\<And>u. J (world u) \<Longrightarrow> E Impatient u \<and> E (ExitCode 1) u"
  shows "wp (seqE (process_image p n) (bindE (xbuf os VIDIOC_QBUF b) (\<lambda>(r, _). if r = - 1 then errno_exit else ret 1)))
    (\<lambda>_ u. K (world u) \<and> (\<exists>ds. stepped s ds u)) E t"
  unfolding wp_seqE
proof (rule wp_process_image_inv [OF t])
  fix u assume u: "stepped s (cs @ image_calls t p n) u" and w: "world u = world t"
  have more: "\<exists>ds. stepped s ds v" if "stepped u c v" for c v using stepped_trans [OF u that] by blast
  show "wp (bindE (xbuf os VIDIOC_QBUF b) (\<lambda>(r, _). if r = - 1 then errno_exit else ret 1))
      (\<lambda>_ u. K (world u) \<and> (\<exists>ds. stepped s ds u)) E u"
    unfolding wp_bindE
  proof (rule wp_xbuf_inv [where J = J and R = "\<lambda>_. K"])
    show "wp (case (r, b') of (r, _) \<Rightarrow> if r = - 1 then errno_exit else ret 1)
        (\<lambda>_ u. K (world u) \<and> (\<exists>ds. stepped s ds u)) E v"
      if "r \<noteq> - 1" "K (world v)" "stepped u [BufCall VIDIOC_QBUF b r b'] v" for r b' v
      using that more [OF that(3)] by (simp add: wp_ret)
  qed (use assms(2,3) w stop in \<open>auto simp: wp_errno_exit\<close>)
qed

text \<open>
  The main loop keeps whatever one frame and \<open>select\<close> keep.
\<close>

lemma wp_select_loop_inv:
  assumes "J (world t)" "stepped s cs t"
    and frame: "\<And>t cs. stepped s cs t \<Longrightarrow> J (world t) \<Longrightarrow>
      wp (read_frame os) (\<lambda>_ u. J (world u) \<and> (\<exists>ds. stepped t ds u)) E t"
    and select: "\<And>h w r e w'. J w \<Longrightarrow> sys_select os h w = (r, e, (), w') \<Longrightarrow> J w'"
    and stop: "\<And>t. J (world t) \<Longrightarrow> E Impatient t \<and> E (ExitCode 1) t"
  shows "wp (select_loop os k) (\<lambda>_ u. J (world u) \<and> (\<exists>ds. stepped s ds u)) E t"
  using assms(1,2)
proof (induction k arbitrary: t cs)
  case 0
  then show ?case using stop by (simp add: wp_simps)
next
  case (Suc k)
  let ?Q = "\<lambda>(_ :: unit) u. J (world u) \<and> (\<exists>ds. stepped s ds u)"
  obtain r e w where sel: "sys_select os (fd t + 1) (world t) = (r, e, (), w)"
    by (cases "sys_select os (fd t + 1) (world t)") auto
  let ?u = "t\<lparr>world := w, errno := (if r = - 1 then e else errno t), trace := trace t @ [Select r]\<rparr>"
  have u: "stepped s (cs @ [Select r]) ?u" "J (world ?u)"
    using Suc.prems select [OF Suc.prems(1) sel] by (simp_all add: stepped_def)
  have "wp (read_frame os) (\<lambda>got. wp (if got \<noteq> 0 then ret () else select_loop os k) ?Q E) E ?u"
  proof (rule wp_mono [OF frame [OF u]])
    fix got v assume v: "J (world v) \<and> (\<exists>ds. stepped ?u ds v)"
    then obtain ds where ds: "stepped s ((cs @ [Select r]) @ ds) v" using stepped_trans [OF u(1)] by blast
    with Suc.IH [OF _ ds] v show "wp (if got \<noteq> 0 then ret () else select_loop os k) ?Q E v"
      by (auto simp: wp_ret)
  qed
  with Suc.IH [OF u(2,1)] stop [OF u(2)] sel show ?case
    by (auto simp: wp_bindE wp_seqE wp_gets wp_syscall wp_log_call wp_errno_exit wp_throw)
qed

lemma wp_mainloop_inv:
  assumes "J (world s)"
    and frame: "\<And>t cs. stepped s cs t \<Longrightarrow> J (world t) \<Longrightarrow>
      wp (read_frame os) (\<lambda>_ u. J (world u) \<and> (\<exists>ds. stepped t ds u)) E t"
    and select: "\<And>h w r e w'. J w \<Longrightarrow> sys_select os h w = (r, e, (), w') \<Longrightarrow> J w'"
    and stop: "\<And>t. J (world t) \<Longrightarrow> E Impatient t \<and> E (ExitCode 1) t"
  shows "wp (mainloop os) (\<lambda>_ u. J (world u) \<and> (\<exists>ds. stepped s ds u)) E s"
proof -
  have "wp (for_each [0..<loop_count (frame_count s)] (\<lambda>_. select_loop os (patience os)))
      (\<lambda>_ u. J (world u) \<and> (\<exists>ds. stepped s ds u)) E s"
  proof (rule wp_for_each [where I = "\<lambda>_ u. J (world u) \<and> (\<exists>ds. stepped s ds u)"])
    fix t assume "J (world t) \<and> (\<exists>ds. stepped s ds t)"
    then obtain ds where "J (world t)" "stepped s ds t" by blast
    from this frame select stop
    show "wp (select_loop os (patience os)) (\<lambda>_ u. J (world u) \<and> (\<exists>ds. stepped s ds u)) E t"
      by (rule wp_select_loop_inv)
  qed (use assms(1) stepped_refl in blast)
  then show ?thesis by (simp add: mainloop_def wp_simps)
qed

text \<open>The start: a loop over the buffers, then \<open>VIDIOC_STREAMON\<close>.\<close>

lemma wp_queue_loop:
  assumes "J 0 (world s)"
    and step: "\<And>i t cs. i < n \<Longrightarrow> stepped s cs t \<Longrightarrow> J i (world t) \<Longrightarrow>
      wp (body i) (\<lambda>_ u. J (Suc i) (world u) \<and> (\<exists>ds. stepped t ds u)) E t"
  shows "wp (for_each [0..<n] body) (\<lambda>_ u. J n (world u) \<and> (\<exists>ds. stepped s ds u)) E s"
proof -
  have "wp (for_each [0..<n] body) (\<lambda>_ u. J (length [0..<n]) (world u) \<and> (\<exists>ds. stepped s ds u)) E s"
  proof (rule wp_for_each [where I = "\<lambda>ys u. J (length ys) (world u) \<and> (\<exists>ds. stepped s ds u)"])
    fix ys x zs t
    assume xs: "[0..<n] = ys @ x # zs" and "J (length ys) (world t) \<and> (\<exists>ds. stepped s ds t)"
    then obtain ds where t: "J (length ys) (world t)" "stepped s ds t" by blast
    have "length ys < n" using arg_cong [OF xs, of length] by simp
    moreover have "x = length ys"
      using arg_cong [OF xs, of "\<lambda>zs. zs ! length ys"] calculation by (simp add: nth_append)
    ultimately have "wp (body x) (\<lambda>_ u. J (Suc (length ys)) (world u) \<and> (\<exists>ds. stepped t ds u)) E t"
      using step [OF _ t(2,1)] by simp
    then show "wp (body x) (\<lambda>_ u. J (length (ys @ [x])) (world u) \<and> (\<exists>ds. stepped s ds u)) E t"
      by (rule wp_mono) (use stepped_trans [OF t(2)] in auto)
  qed (use assms(1) in \<open>auto intro: exI [of _ "[]"]\<close>)
  then show ?thesis by simp
qed

lemma wp_stream_on_inv:
  assumes s: "stepped s cs t" and "J (world t)"
    and "\<And>h w r e w'. J w \<Longrightarrow> ioctl_stream os h VIDIOC_STREAMON () w = (r, e, (), w') \<Longrightarrow> J w'"
    and stop: "\<And>u. J (world u) \<Longrightarrow> E Impatient u \<and> E (ExitCode 1) u"
  shows "wp (bindE (xstream os VIDIOC_STREAMON) (\<lambda>(r, _). if r = - 1 then errno_exit else ret ()))
    (\<lambda>_ u. J (world u) \<and> (\<exists>ds. stepped s ds u)) E t"
  unfolding xstream_def wp_bindE wp_gets
proof (rule wp_xioctl_inv [where J = J and R = "\<lambda>_ _. J"])
  show "wp (case (r, a') of (r, _) \<Rightarrow> if r = - 1 then errno_exit else ret ())
      (\<lambda>_ u. J (world u) \<and> (\<exists>ds. stepped s ds u)) E u"
    if "r \<noteq> - 1" "J (world u)" "stepped t [StreamCall VIDIOC_STREAMON r] u" for r and a' :: unit and u
    using that stepped_trans [OF s that(3)] by (auto simp: wp_ret)
qed (use assms(2,3) stop in \<open>auto simp: wp_errno_exit\<close>)

section \<open>The streaming interface\<close>

text \<open>
  The contract. \<open>VIDIOC_QBUF\<close> gives the named buffer to the driver, \<open>VIDIOC_DQBUF\<close> takes out a buffer
  the driver has and names it; a call that fails changes neither its structure nor who has which
  buffer; switching the stream on and waiting move no buffer; switching it off takes all of them out.
\<close>

locale capture_queue =
  fixes os :: "'w os"
    and ok :: "'w \<Rightarrow> bool"
    and held :: "'w \<Rightarrow> nat multiset"
  assumes qbuf: "ok w \<Longrightarrow> ioctl_buf os h VIDIOC_QBUF b w = (r, e, b', w') \<Longrightarrow>
      ok w' \<and> (if r = - 1 then b' = b \<and> held w' = held w else held w' = add_mset (unat (index b)) (held w))"
    and dqbuf: "ok w \<Longrightarrow> ioctl_buf os h VIDIOC_DQBUF b w = (r, e, b', w') \<Longrightarrow>
      ok w' \<and> (if r = - 1 then b' = b \<and> held w' = held w
        else memory b' = memory b \<and> held w = add_mset (unat (index b')) (held w'))"
    and stream_on: "ok w \<Longrightarrow> ioctl_stream os h VIDIOC_STREAMON () w = (r, e, (), w') \<Longrightarrow> ok w' \<and> held w' = held w"
    and stream_off: "ok w \<Longrightarrow> ioctl_stream os h VIDIOC_STREAMOFF () w = (r, e, (), w') \<Longrightarrow>
      ok w' \<and> held w' = (if r = - 1 then held w else {#})"
    and select: "ok w \<Longrightarrow> sys_select os h w = (r, e, (), w') \<Longrightarrow> ok w' \<and> held w' = held w"
begin

definition has :: "nat list \<Rightarrow> 'w \<Rightarrow> bool" where
  "has is w \<longleftrightarrow> ok w \<and> held w = mset is"

text \<open>However a session ends, the driver has each of the program's buffers at most once.\<close>

definition sound_stop :: "nat \<Rightarrow> stop \<Rightarrow> 'w grab \<Rightarrow> bool" where
  "sound_stop n e t \<longleftrightarrow> e \<noteq> SegFault \<and> e \<noteq> AssertFailed \<and> ok (world t) \<and> held (world t) \<subseteq># mset [0..<n]"

lemma sound_stopI:
  "has is (world t) \<Longrightarrow> mset is \<subseteq># mset [0..<n] \<Longrightarrow> sound_stop n Impatient t \<and> sound_stop n (ExitCode c) t"
  by (simp add: sound_stop_def has_def)

lemma mset_upt_mono: "i \<le> n \<Longrightarrow> mset [0..<i] \<subseteq># mset [0..<n]"
  by (metis le_add_diff_inverse mset_append mset_subset_eq_add_left upt_add_eq_append zero_le)

lemma wp_queue_mmap_has:
  assumes "has [0..<i] (world s)" "i < n" "n \<le> 2 ^ 32"
  shows "wp (queue_mmap os i) (\<lambda>_ t. has [0..<Suc i] (world t) \<and> (\<exists>ds. stepped s ds t)) (sound_stop n) s"
  unfolding queue_mmap_def wp_bindE
proof (rule wp_xbuf_inv [where J = "has [0..<i]" and R = "\<lambda>_. has [0..<Suc i]"])
  have "unat (word_of_nat i :: u32) = i" using assms(2,3) by (simp add: unsigned_of_nat take_bit_nat_eq_self)
  then show "if r = - 1 then b' = cleared_buffer\<lparr>memory := V4L2_MEMORY_MMAP, index := word_of_nat i\<rparr> \<and> has [0..<i] w'
      else has [0..<Suc i] w'"
    if "has [0..<i] w" "ioctl_buf os (fd s) VIDIOC_QBUF
      (cleared_buffer\<lparr>memory := V4L2_MEMORY_MMAP, index := word_of_nat i\<rparr>) w = (r, e, b', w')" for w r e b' w'
    using that(1) qbuf [OF _ that(2)] by (auto simp: has_def split: if_splits)
qed (use assms sound_stopI [OF _ mset_upt_mono [of i n]] in \<open>auto simp: wp_simps\<close>)

lemma wp_read_frame_mmap_has:
  assumes "grab_ok s" "has [0..<n_buffers s] (world s)"
  shows "wp (read_frame_mmap os) (\<lambda>_ t. has [0..<n_buffers s] (world t) \<and> (\<exists>ds. stepped s ds t))
    (sound_stop (n_buffers s)) s"
  unfolding read_frame_mmap_def wp_bindE [where m = "xbuf a b c" for a b c]
proof (rule wp_xbuf_inv [where J = "has [0..<n_buffers s]"
      and R = "\<lambda>b w. ok w \<and> mset [0..<n_buffers s] = add_mset (unat (index b)) (held w)"])
  let ?n = "n_buffers s" and ?rq = "cleared_buffer\<lparr>memory := V4L2_MEMORY_MMAP\<rparr>"
  let ?Q = "\<lambda>(_ :: int) t. has [0..<?n] (world t) \<and> (\<exists>ds. stepped s ds t)"
  obtain l where l: "buffers s = Some l" "?n \<le> length l" using assms(1) by (auto simp: grab_ok_def)
  fix r b t
  assume b: "ok (world t) \<and> mset [0..<?n] = add_mset (unat (index b)) (held (world t))" and "r \<noteq> - 1"
    and t: "stepped s [BufCall VIDIOC_DQBUF ?rq r b] t"
  from b have "unat (index b) \<in># mset [0..<?n]" by simp
  then have i: "unat (index b) < ?n" by simp
  have "wp (seqE (process_image (start (l ! unat (index b))) (bytesused b)) (bindE (xbuf os VIDIOC_QBUF b)
      (\<lambda>(r, _). if r = - 1 then errno_exit else ret 1))) ?Q (sound_stop ?n) t"
  proof (rule wp_requeue [OF t, where J = "\<lambda>w. ok w \<and> mset [0..<?n] = add_mset (unat (index b)) (held w)"])
    show "if r = - 1 then b' = b \<and> ok w' \<and> mset [0..<?n] = add_mset (unat (index b)) (held w') else has [0..<?n] w'"
      if "ok w \<and> mset [0..<?n] = add_mset (unat (index b)) (held w)" "ioctl_buf os h VIDIOC_QBUF b w = (r, e, b', w')"
      for h w r e b' w'
      using that(1) qbuf [OF _ that(2)] by (auto simp: has_def split: if_splits)
  qed (use b in \<open>auto simp: sound_stop_def\<close>)
  with i l \<open>r \<noteq> - 1\<close> show "wp (case (r, b) of (r, buf) \<Rightarrow> bindE (gets errno) (\<lambda>e.
     if r = - 1 then (if e = EAGAIN then ret 0 else errno_exit)
     else bindE (gets n_buffers) (\<lambda>n. if \<not> unat (index buf) < n then throw AssertFailed
       else bindE (buffer_at (unat (index buf))) (\<lambda>b. seqE (process_image (start b) (bytesused buf))
         (bindE (xbuf os VIDIOC_QBUF buf) (\<lambda>(r, _). if r = - 1 then errno_exit else ret 1)))))) ?Q (sound_stop ?n) t"
    by (simp add: wp_bindE wp_gets wp_buffer_at steppedD [OF t])
next
  show "if r = - 1 then b' = cleared_buffer\<lparr>memory := V4L2_MEMORY_MMAP\<rparr> \<and> has [0..<n_buffers s] w'
      else ok w' \<and> mset [0..<n_buffers s] = add_mset (unat (index b')) (held w')"
    if "has [0..<n_buffers s] w" "ioctl_buf os (fd s) VIDIOC_DQBUF (cleared_buffer\<lparr>memory := V4L2_MEMORY_MMAP\<rparr>) w = (r, e, b', w')"
    for w r e b' w'
    using that(1) dqbuf [OF _ that(2)] by (auto simp: has_def)
qed (use assms sound_stopI [of "[0..<n_buffers s]"] in \<open>auto simp: wp_simps\<close>)

lemma wp_start_capturing_has:
  assumes "io s = IO_METHOD_MMAP" "has [] (world s)" "n_buffers s \<le> 2 ^ 32"
  shows "wp (start_capturing os) (\<lambda>_ t. has [0..<n_buffers s] (world t) \<and> (\<exists>ds. stepped s ds t))
    (sound_stop (n_buffers s)) s"
proof -
  let ?n = "n_buffers s"
  have queue: "wp (for_each [0..<?n] (queue_mmap os)) (\<lambda>_ u. has [0..<?n] (world u) \<and> (\<exists>ds. stepped s ds u)) (sound_stop ?n) s"
    by (rule wp_queue_loop [where J = "\<lambda>i. has [0..<i]"]) (use assms wp_queue_mmap_has in auto)
  have "wp (for_each [0..<?n] (queue_mmap os)) (\<lambda>_. wp (bindE (xstream os VIDIOC_STREAMON)
      (\<lambda>(r, _). if r = - 1 then errno_exit else ret ())) (\<lambda>_ t. has [0..<?n] (world t) \<and> (\<exists>ds. stepped s ds t)) (sound_stop ?n))
      (sound_stop ?n) s"
  proof (rule wp_mono [OF queue])
    fix t assume "has [0..<?n] (world t) \<and> (\<exists>ds. stepped s ds t)"
    then obtain cs where t: "stepped s cs t" "has [0..<?n] (world t)" by blast
    then show "wp (bindE (xstream os VIDIOC_STREAMON) (\<lambda>(r, _). if r = - 1 then errno_exit else ret ()))
        (\<lambda>_ t. has [0..<?n] (world t) \<and> (\<exists>ds. stepped s ds t)) (sound_stop ?n) t"
      by (rule wp_stream_on_inv) (use stream_on sound_stopI [of "[0..<?n]"] in \<open>auto simp: has_def\<close>)
  qed
  with assms(1) show ?thesis by (simp add: start_capturing_def wp_bindE wp_gets wp_seqE)
qed

lemma wp_stop_capturing_off:
  assumes "ok (world s)" "io s \<noteq> IO_METHOD_READ"
  shows "wp (stop_capturing os) (\<lambda>_ t. has [] (world t)) (\<lambda>_ _. True) s"
proof -
  have "wp (xstream os VIDIOC_STREAMOFF) (\<lambda>a. wp (case a of (r, _) \<Rightarrow> if r = - 1 then errno_exit else ret ())
      (\<lambda>_ t. has [] (world t)) (\<lambda>_ _. True)) (\<lambda>_ _. True) s"
    unfolding xstream_def wp_bindE wp_gets
  proof (rule wp_xioctl_inv [where J = ok and R = "\<lambda>_ _. has []"])
    show "if r = - 1 then a' = () \<and> ok w' else has [] w'"
      if "ok w" "ioctl_stream os (fd s) VIDIOC_STREAMOFF () w = (r, e, a', w')" for w r e w' and a' :: unit
      using stream_off [OF that(1), of "fd s" r e w'] that(2) by (simp add: has_def)
  qed (use assms(1) in \<open>auto simp: wp_simps\<close>)
  with assms(2) show ?thesis by (simp add: stop_capturing_def wp_bindE wp_gets)
qed

lemma wp_mainloop_has:
  assumes "grab_ok s" "io s = IO_METHOD_MMAP" "has [0..<n_buffers s] (world s)"
  shows "wp (mainloop os) (\<lambda>_ t. has [0..<n_buffers s] (world t) \<and> (\<exists>ds. stepped s ds t)) (sound_stop (n_buffers s)) s"
proof (rule wp_mainloop_inv)
  show "wp (read_frame os) (\<lambda>_ u. has [0..<n_buffers s] (world u) \<and> (\<exists>ds. stepped t ds u)) (sound_stop (n_buffers s)) t"
    if "stepped s cs t" "has [0..<n_buffers s] (world t)" for t cs
    using wp_read_frame_mmap_has [of t] that assms grab_ok_stepped [OF that(1)] steppedD [OF that(1)]
    by (simp add: read_frame_def wp_bindE wp_gets)
  show "has [0..<n_buffers s] w'" if "has [0..<n_buffers s] w" "sys_select os h w = (r, e, (), w')" for h w r e w'
    using that select by (auto simp: has_def)
qed (use assms sound_stopI [of "[0..<n_buffers s]"] in auto)

lemma wp_session_has:
  assumes "grab_ok s" "io s = IO_METHOD_MMAP" "has [] (world s)" "n_buffers s \<le> 2 ^ 32"
  shows "wp (seqE (start_capturing os) (mainloop os))
    (\<lambda>_ t. has [0..<n_buffers s] (world t) \<and> (\<exists>ds. stepped s ds t)) (sound_stop (n_buffers s)) s"
  unfolding wp_seqE
proof (rule wp_mono [OF wp_start_capturing_has [OF assms(2-4)]])
  fix t assume "has [0..<n_buffers s] (world t) \<and> (\<exists>ds. stepped s ds t)"
  then obtain ds where t: "has [0..<n_buffers s] (world t)" "stepped s ds t" by blast
  show "wp (mainloop os) (\<lambda>_ t. has [0..<n_buffers s] (world t) \<and> (\<exists>ds. stepped s ds t)) (sound_stop (n_buffers s)) t"
    by (rule wp_mono [OF wp_mainloop_has [of t, unfolded steppedD [OF t(2)]]])
       (use assms t grab_ok_stepped [OF t(2)] stepped_trans [OF t(2)] in auto)
qed

end

text \<open>
  With user pointers the driver also remembers, for each buffer, the address and length it was queued
  with, and names them when the buffer is taken out.
\<close>

locale capture_queue_ptr = capture_queue +
  fixes slot :: "'a \<Rightarrow> nat \<Rightarrow> u32 \<times> u32"
  assumes qbuf_slot: "ok w \<Longrightarrow> memory b = V4L2_MEMORY_USERPTR \<Longrightarrow> ioctl_buf os h VIDIOC_QBUF b w = (r, e, b', w') \<Longrightarrow>
      slot w' = (if r = - 1 then slot w else (slot w)(unat (index b) := (m b, buf_len b)))"
    and dqbuf_slot: "ok w \<Longrightarrow> memory b = V4L2_MEMORY_USERPTR \<Longrightarrow> ioctl_buf os h VIDIOC_DQBUF b w = (r, e, b', w') \<Longrightarrow>
      slot w' = slot w \<and> (r \<noteq> - 1 \<longrightarrow> (m b', buf_len b') = slot w (unat (index b')))"
    and stream_on_slot: "ok w \<Longrightarrow> ioctl_stream os h VIDIOC_STREAMON () w = (r, e, (), w') \<Longrightarrow> slot w' = slot w"
    and select_slot: "ok w \<Longrightarrow> sys_select os h w = (r, e, (), w') \<Longrightarrow> slot w' = slot w"
begin

definition slots :: "buffer list \<Rightarrow> nat \<Rightarrow> 'a \<Rightarrow> bool" where
  "slots l n w \<longleftrightarrow> (\<forall>i<n. slot w i = region (l ! i))"

definition lent :: "buffer list \<Rightarrow> nat \<Rightarrow> 'a \<Rightarrow> bool" where
  "lent l n w \<longleftrightarrow> has [0..<n] w \<and> slots l n w"

lemma wp_queue_userptr_lent:
  assumes "buffers s = Some l" "n \<le> length l" "lent l i (world s)" "i < n" "n \<le> 2 ^ 32"
  shows "wp (queue_userptr os i) (\<lambda>_ t. lent l (Suc i) (world t) \<and> (\<exists>ds. stepped s ds t)) (sound_stop n) s"
proof -
  let ?b = "cleared_buffer\<lparr>memory := V4L2_MEMORY_USERPTR, index := word_of_nat i, m := start (l ! i), buf_len := length_of (l ! i)\<rparr>"
  have i: "unat (word_of_nat i :: u32) = i" using assms(4,5) by (simp add: unsigned_of_nat take_bit_nat_eq_self)
  have "wp (xbuf os VIDIOC_QBUF ?b) (\<lambda>a. wp (case a of (r, _) \<Rightarrow> if r = - 1 then errno_exit else ret ())
      (\<lambda>_ t. lent l (Suc i) (world t) \<and> (\<exists>ds. stepped s ds t)) (sound_stop n)) (sound_stop n) s"
  proof (rule wp_xbuf_inv [where J = "lent l i" and R = "\<lambda>_. lent l (Suc i)"])
    show "if r = - 1 then b' = ?b \<and> lent l i w' else lent l (Suc i) w'"
      if "lent l i w" "ioctl_buf os (fd s) VIDIOC_QBUF ?b w = (r, e, b', w')" for w r e b' w'
      using that(1) i qbuf [OF _ that(2)] qbuf_slot [OF _ _ that(2)]
      by (auto simp: lent_def has_def slots_def region_def less_Suc_eq split: if_splits)
  qed (use assms sound_stopI [OF _ mset_upt_mono [of i n]] in \<open>auto simp: wp_simps lent_def\<close>)
  with assms show ?thesis by (simp add: queue_userptr_def wp_bindE wp_buffer_at)
qed

lemma wp_find_buffer_lent:
  assumes "buffers s = Some l" "\<forall>i\<in>set is. i < length l" "j \<in> set is" "(p, n) = region (l ! j)" "Q True s"
  shows "wp (find_buffer p n is) Q E s"
  using assms(2,3)
proof (induction "is")
  case (Cons i "is")
  then show ?case using assms(1,4,5) by (cases "j = i") (auto simp: wp_simps wp_buffer_at region_def)
qed simp

lemma wp_read_frame_userptr_lent:
  assumes "buffers s = Some l" "n_buffers s \<le> length l" "lent l (n_buffers s) (world s)"
  shows "wp (read_frame_userptr os) (\<lambda>_ t. lent l (n_buffers s) (world t) \<and> (\<exists>ds. stepped s ds t))
    (sound_stop (n_buffers s)) s"
  unfolding read_frame_userptr_def wp_bindE [where m = "xbuf a b c" for a b c]
proof (rule wp_xbuf_inv [where J = "lent l (n_buffers s)" and R = "\<lambda>b w. ok w \<and> slots l (n_buffers s) w \<and>
      memory b = V4L2_MEMORY_USERPTR \<and> mset [0..<n_buffers s] = add_mset (unat (index b)) (held w) \<and>
      (m b, buf_len b) = slot w (unat (index b))"])
  let ?n = "n_buffers s" and ?rq = "cleared_buffer\<lparr>memory := V4L2_MEMORY_USERPTR\<rparr>"
  let ?Q = "\<lambda>(_ :: int) t. lent l ?n (world t) \<and> (\<exists>ds. stepped s ds t)"
  fix r and b :: v4l2_buffer and t
  let ?J = "\<lambda>w. ok w \<and> slots l ?n w \<and> mset [0..<?n] = add_mset (unat (index b)) (held w)"
  assume b: "ok (world t) \<and> slots l ?n (world t) \<and> memory b = V4L2_MEMORY_USERPTR \<and>
      mset [0..<?n] = add_mset (unat (index b)) (held (world t)) \<and> (m b, buf_len b) = slot (world t) (unat (index b))"
    and "r \<noteq> - 1" and t: "stepped s [BufCall VIDIOC_DQBUF ?rq r b] t"
  from b have "unat (index b) \<in># mset [0..<?n]" by simp
  then have i: "unat (index b) < ?n" by simp
  with b have reg: "(m b, buf_len b) = region (l ! unat (index b))" by (simp add: slots_def)
  have "wp (seqE (process_image (m b) (bytesused b)) (bindE (xbuf os VIDIOC_QBUF b)
      (\<lambda>(r, _). if r = - 1 then errno_exit else ret 1))) ?Q (sound_stop ?n) t"
  proof (rule wp_requeue [OF t, where J = ?J])
    show "if r = - 1 then b' = b \<and> ?J w' else lent l ?n w'"
      if "?J w" "ioctl_buf os h VIDIOC_QBUF b w = (r, e, b', w')" for h w r e b' w'
    proof -
      have "slot w' = (if r = - 1 then slot w else (slot w)(unat (index b) := region (l ! unat (index b))))"
        using that(1) b qbuf_slot [OF _ _ that(2)] unfolding reg by blast
      moreover have "ok w' \<and> (if r = - 1 then b' = b \<and> held w' = held w else held w' = add_mset (unat (index b)) (held w))"
        using that(1) qbuf [OF _ that(2)] by blast
      ultimately show ?thesis using that(1) by (cases "r = - 1") (simp_all add: lent_def has_def slots_def)
    qed
  qed (use b in \<open>auto simp: sound_stop_def\<close>)
  then have "wp (find_buffer (m b) (buf_len b) [0..<?n]) (\<lambda>found. wp (if \<not> found then throw AssertFailed
      else seqE (process_image (m b) (bytesused b)) (bindE (xbuf os VIDIOC_QBUF b)
        (\<lambda>(r, _). if r = - 1 then errno_exit else ret 1))) ?Q (sound_stop ?n)) (sound_stop ?n) t"
    using i reg assms(1,2) steppedD(1) [OF t] by (intro wp_find_buffer_lent [of t l]) auto
  with \<open>r \<noteq> - 1\<close> show "wp (case (r, b) of (r, buf) \<Rightarrow> bindE (gets errno) (\<lambda>e.
     if r = - 1 then (if e = EAGAIN then ret 0 else errno_exit)
     else bindE (gets n_buffers) (\<lambda>n. bindE (find_buffer (m buf) (buf_len buf) [0..<n]) (\<lambda>found.
       if \<not> found then throw AssertFailed
       else seqE (process_image (m buf) (bytesused buf))
         (bindE (xbuf os VIDIOC_QBUF buf) (\<lambda>(r, _). if r = - 1 then errno_exit else ret 1)))))) ?Q (sound_stop ?n) t"
    by (simp add: wp_bindE wp_gets steppedD [OF t])
next
  show "if r = - 1 then b' = cleared_buffer\<lparr>memory := V4L2_MEMORY_USERPTR\<rparr> \<and> lent l (n_buffers s) w'
      else ok w' \<and> slots l (n_buffers s) w' \<and> memory b' = V4L2_MEMORY_USERPTR \<and>
        mset [0..<n_buffers s] = add_mset (unat (index b')) (held w') \<and> (m b', buf_len b') = slot w' (unat (index b'))"
    if "lent l (n_buffers s) w" "ioctl_buf os (fd s) VIDIOC_DQBUF (cleared_buffer\<lparr>memory := V4L2_MEMORY_USERPTR\<rparr>) w = (r, e, b', w')"
    for w r e b' w'
    using that(1) dqbuf [OF _ that(2)] dqbuf_slot [OF _ _ that(2)] by (auto simp: lent_def has_def slots_def)
qed (use assms sound_stopI [of "[0..<n_buffers s]"] in \<open>auto simp: wp_simps lent_def\<close>)

lemma wp_start_capturing_lent:
  assumes "io s = IO_METHOD_USERPTR" "buffers s = Some l" "n_buffers s \<le> length l" "n_buffers s \<le> 2 ^ 32" "has [] (world s)"
  shows "wp (start_capturing os) (\<lambda>_ t. lent l (n_buffers s) (world t) \<and> (\<exists>ds. stepped s ds t)) (sound_stop (n_buffers s)) s"
proof -
  let ?n = "n_buffers s"
  have "wp (for_each [0..<?n] (queue_userptr os)) (\<lambda>_ u. lent l ?n (world u) \<and> (\<exists>ds. stepped s ds u)) (sound_stop ?n) s"
  proof (rule wp_queue_loop [where J = "lent l"])
    show "wp (queue_userptr os i) (\<lambda>_ u. lent l (Suc i) (world u) \<and> (\<exists>ds. stepped t ds u)) (sound_stop ?n) t"
      if "i < ?n" "stepped s cs t" "lent l i (world t)" for i t cs
      using wp_queue_userptr_lent [of t l ?n i] that assms steppedD(1) [OF that(2)] by simp
  qed (use assms(5) in \<open>simp add: lent_def slots_def\<close>)
  then have "wp (for_each [0..<?n] (queue_userptr os)) (\<lambda>_. wp (bindE (xstream os VIDIOC_STREAMON)
      (\<lambda>(r, _). if r = - 1 then errno_exit else ret ())) (\<lambda>_ t. lent l ?n (world t) \<and> (\<exists>ds. stepped s ds t)) (sound_stop ?n))
      (sound_stop ?n) s"
  proof (rule wp_mono)
    fix t assume "lent l ?n (world t) \<and> (\<exists>ds. stepped s ds t)"
    then obtain cs where t: "stepped s cs t" "lent l ?n (world t)" by blast
    then show "wp (bindE (xstream os VIDIOC_STREAMON) (\<lambda>(r, _). if r = - 1 then errno_exit else ret ()))
        (\<lambda>_ t. lent l ?n (world t) \<and> (\<exists>ds. stepped s ds t)) (sound_stop ?n) t"
      by (rule wp_stream_on_inv)
         (use stream_on stream_on_slot sound_stopI [of "[0..<?n]"] in \<open>auto simp: lent_def has_def slots_def\<close>)
  qed
  with assms(1) show ?thesis by (simp add: start_capturing_def wp_bindE wp_gets wp_seqE)
qed

lemma wp_mainloop_lent:
  assumes "io s = IO_METHOD_USERPTR" "buffers s = Some l" "n_buffers s \<le> length l" "lent l (n_buffers s) (world s)"
  shows "wp (mainloop os) (\<lambda>_ t. lent l (n_buffers s) (world t) \<and> (\<exists>ds. stepped s ds t)) (sound_stop (n_buffers s)) s"
proof (rule wp_mainloop_inv)
  show "wp (read_frame os) (\<lambda>_ u. lent l (n_buffers s) (world u) \<and> (\<exists>ds. stepped t ds u)) (sound_stop (n_buffers s)) t"
    if "stepped s cs t" "lent l (n_buffers s) (world t)" for t cs
    using wp_read_frame_userptr_lent [of t l] that assms steppedD [OF that(1)]
    by (simp add: read_frame_def wp_bindE wp_gets)
  show "lent l (n_buffers s) w'" if "lent l (n_buffers s) w" "sys_select os h w = (r, e, (), w')" for h w r e w'
    using that select select_slot by (auto simp: lent_def has_def slots_def)
qed (use assms sound_stopI [of "[0..<n_buffers s]"] in \<open>auto simp: lent_def\<close>)

text \<open>A whole session, with memory mapping or user pointers.\<close>

lemma wp_session:
  assumes "grab_ok s" "io s \<noteq> IO_METHOD_READ" "has [] (world s)" "n_buffers s \<le> 2 ^ 32"
  shows "wp (seqE (start_capturing os) (mainloop os)) (\<lambda>_ t. has [0..<n_buffers s] (world t) \<and> io t = io s)
    (sound_stop (n_buffers s)) s"
proof (cases "io s")
  case IO_METHOD_MMAP
  show ?thesis by (rule wp_mono [OF wp_session_has]) (use assms IO_METHOD_MMAP steppedD(3) in fastforce)+
next
  case IO_METHOD_USERPTR
  obtain l where l: "buffers s = Some l" "n_buffers s \<le> length l" using assms(1) by (auto simp: grab_ok_def)
  show ?thesis unfolding wp_seqE
  proof (rule wp_mono [OF wp_start_capturing_lent [OF IO_METHOD_USERPTR l assms(4,3)]])
    fix t assume "lent l (n_buffers s) (world t) \<and> (\<exists>ds. stepped s ds t)"
    then obtain ds where t: "lent l (n_buffers s) (world t)" "stepped s ds t" by blast
    show "wp (mainloop os) (\<lambda>_ t. has [0..<n_buffers s] (world t) \<and> io t = io s) (sound_stop (n_buffers s)) t"
      by (rule wp_mono [OF wp_mainloop_lent [of t l, unfolded steppedD [OF t(2)]]])
         (use l t IO_METHOD_USERPTR steppedD(3) in \<open>fastforce simp: lent_def\<close>)+
  qed
qed (use assms in simp)

end

end
