(* ===== verification/Capture_Session.thy ===== *)
theory Capture_Session
  imports Capture_Contract Vid4linux
begin

text \<open>
  The capture program of \<open>src/lkml/v4l2-app/grabber.c\<close> running on the capture driver of
  \<open>src/lkml/v4l2/vid4linux.c\<close>. Between the two stand the V4L2 and videobuf2 cores, which are not part
  of the repository: \<open>vid_os\<close> is one system that behaves as their documentation says and calls the
  driver's operations where they do. It keeps a buffer queued before the stream is on to itself
  and passes it to \<open>buf_queue\<close> when it is switched on, after \<open>buf_prepare\<close> accepted it;
  what the driver handed to \<open>vb2_buffer_done\<close> can be dequeued in that order. How many rounds the
  frame thread gets to run before a call of \<open>select\<close> returns is an arbitrary schedule.
\<close>

section \<open>The system around the driver\<close>

text \<open>
  \<open>taken\<close> counts the returned buffers that have been dequeued, \<open>ptrs\<close> are the addresses and lengths
  buffers were queued with, \<open>kthread_answer\<close> is what \<open>kthread_run\<close> answers, \<open>wstack\<close> the contents of
  the thread's stack.
\<close>

record vid_world =
  wdev :: fake_vid_device
  nbufs :: nat
  pending :: "nat list"
  taken :: nat
  streaming :: bool
  thread_up :: bool
  tick :: nat
  rounds :: "nat \<Rightarrow> nat"
  ptrs :: "nat \<Rightarrow> u32 \<times> u32"
  kthread_answer :: task_ptr
  wstack :: string

definition ready_list :: "vid_world \<Rightarrow> nat list" where
  "ready_list w = map fst (drop (taken w) (done_log (wdev w)))"

definition vid_held :: "vid_world \<Rightarrow> nat multiset" where
  "vid_held w = mset (pending w) + mset (active_of (wdev w)) + mset (ready_list w)"

definition vid_qbuf :: "v4l2_buffer \<Rightarrow> vid_world \<Rightarrow> int \<times> int \<times> v4l2_buffer \<times> vid_world" where
  "vid_qbuf b w =
     (let i = unat (index b) in
      if nbufs w \<le> i \<or> i \<in># vid_held w then (- 1, EINVAL, b, w)
      else case buf_prepare i (wdev w) of (r, d) \<Rightarrow>
        if r < 0 then (- 1, - r, b, w\<lparr>wdev := d\<rparr>)
        else (0, 0, b, (if streaming w then w\<lparr>wdev := buf_queue i d\<rparr> else w\<lparr>wdev := d, pending := pending w @ [i]\<rparr>)
                \<lparr>ptrs := (ptrs w)(i := (m b, buf_len b))\<rparr>))"

definition vid_dqbuf :: "v4l2_buffer \<Rightarrow> vid_world \<Rightarrow> int \<times> int \<times> v4l2_buffer \<times> vid_world" where
  "vid_dqbuf b w =
     (case ready_list w of
        [] \<Rightarrow> (- 1, EAGAIN, b, w)
      | i # _ \<Rightarrow> (0, 0, b\<lparr>index := word_of_nat i, bytesused := payload (frames (wdev w) i),
           m := fst (ptrs w i), buf_len := snd (ptrs w i)\<rparr>, w\<lparr>taken := Suc (taken w)\<rparr>))"

definition vid_streamon :: "vid_world \<Rightarrow> int \<times> int \<times> unit \<times> vid_world" where
  "vid_streamon w =
     (if streaming w then (0, 0, (), w)
      else case start_streaming (kthread_answer w) (fold buf_queue (pending w) (wdev w)) of (r, d) \<Rightarrow>
        if r < 0 then (- 1, - r, (), w\<lparr>wdev := d, pending := []\<rparr>)
        else (0, 0, (), w\<lparr>wdev := d, pending := [], streaming := True, thread_up := True\<rparr>))"

definition vid_streamoff :: "vid_world \<Rightarrow> int \<times> int \<times> unit \<times> vid_world" where
  "vid_streamoff w =
     (let d = snd (stop_streaming (wdev w)) in
      (0, 0, (), w\<lparr>wdev := d, pending := [], taken := length (done_log d), streaming := False, thread_up := False\<rparr>))"

text \<open>Rounds of the frame thread, as long as it is there.\<close>

primrec thread_rounds :: "string \<Rightarrow> nat \<Rightarrow> bool \<Rightarrow> fake_vid_device \<Rightarrow> bool \<times> fake_vid_device" where
  "thread_rounds stack 0 up d = (up, d)"
| "thread_rounds stack (Suc k) up d =
     (if up then case run (frame_iteration False stack) d of
        (Inr None, d') \<Rightarrow> thread_rounds stack k True d'
      | (_, d') \<Rightarrow> (False, d')
      else (False, d))"

definition vid_select :: "vid_world \<Rightarrow> int \<times> int \<times> unit \<times> vid_world" where
  "vid_select w =
     (case thread_rounds (wstack w) (rounds w (tick w)) (thread_up w) (wdev w) of (up, d) \<Rightarrow>
        let w' = w\<lparr>wdev := d, thread_up := up, tick := Suc (tick w)\<rparr>
        in (if ready_list w' = [] then 0 else 1, 0, (), w'))"

definition vid_os :: "vid_world os" where
  "vid_os = \<lparr>patience = 1,
     ioctl_buf = (\<lambda>h rq b w. case rq of
        VIDIOC_QUERYBUF \<Rightarrow> (0, 0, b\<lparr>buf_len := 921600, m := index b * 921600\<rparr>, w)
      | VIDIOC_QBUF \<Rightarrow> vid_qbuf b w
      | VIDIOC_DQBUF \<Rightarrow> vid_dqbuf b w),
     ioctl_stream = (\<lambda>h rq a w. case rq of VIDIOC_STREAMON \<Rightarrow> vid_streamon w | VIDIOC_STREAMOFF \<Rightarrow> vid_streamoff w),
     ioctl_reqbufs = (\<lambda>h q w. case queue_setup (req_count q) of (r, num, planes, sz) \<Rightarrow>
        (0, 0, q\<lparr>req_count := num\<rparr>, w\<lparr>nbufs := unat num\<rparr>)),
     ioctl_querycap = (\<lambda>h c w. (fst (vidioc_querycap (wdev w)), 0, snd (vidioc_querycap (wdev w)), w)),
     ioctl_cropcap = (\<lambda>h c w. (- 1, ENOTTY, c, w)),
     ioctl_s_crop = (\<lambda>h c w. (- 1, ENOTTY, c, w)),
     ioctl_fmt = (\<lambda>h rq f w. case rq of
        VIDIOC_G_FMT \<Rightarrow> (fst (vidioc_g_fmt_vid_cap (wdev w)), 0, snd (vidioc_g_fmt_vid_cap (wdev w)), w)
      | VIDIOC_S_FMT \<Rightarrow> (- 1, - vidioc_s_fmt_vid_cap, f, w)),
     sys_read = (\<lambda>h p n w. (- 1, EBUSY, (), w)),
     sys_select = (\<lambda>h w. vid_select w),
     sys_mmap = (\<lambda>n h off w. (0, 0xB0000000 + off, w)),
     sys_munmap = (\<lambda>p n w. (0, 0, (), w)),
     sys_malloc = (\<lambda>n w. (0xA0000000, w)),
     sys_calloc = (\<lambda>n w. (True, w)),
     sys_stat = (\<lambda>f w. (0, 0, True, w)),
     sys_open = (\<lambda>f w. (3, 0, (), w)),
     sys_close = (\<lambda>h w. (0, 0, (), w))\<rparr>"

lemmas vid_os_calls = vid_os_def vid_qbuf_def vid_dqbuf_def vid_streamon_def vid_streamoff_def vid_select_def

section \<open>The driver meets the contract\<close>

text \<open>
  The invariant: every buffer the core allocated has a mapped plane that the frame thread can fill,
  and whatever the driver has is one of them.
\<close>

definition vid_ok :: "vid_world \<Rightarrow> bool" where
  "vid_ok w \<longleftrightarrow> nbufs w \<le> 2 ^ 32 \<and> length (wstack w) = 128 \<and> taken w \<le> length (done_log (wdev w)) \<and>
     set_mset (vid_held w) \<subseteq> {..<nbufs w} \<and> (\<forall>b<nbufs w. fillable (frames (wdev w) b))"

lemma run_frame_iteration:
  assumes "active_of d = b # rest" "fillable (frames d b)"
  shows "run (frame_iteration False stack) d = (Inr None, after_frame stack b rest d)"
  using assms run_thread_fill [of "set_active rest d" b stack]
  by (simp add: frame_iteration_def thread_dequeue_def after_frame_def prog_simps)

lemma run_frame_iteration_empty:
  "active_of d = [] \<Longrightarrow> run (frame_iteration False stack) d = (Inr (Some (- 1)), d)"
  by (simp add: frame_iteration_def thread_dequeue_def prog_simps)

text \<open>
  What the thread leaves alone: the format, the sizes of the planes, their payload and that they are
  mapped.
\<close>

definition same_sizes :: "fake_vid_device \<Rightarrow> fake_vid_device \<Rightarrow> bool" where
  "same_sizes d d' \<longleftrightarrow> width d' = width d \<and> height d' = height d \<and> pixelsize d' = pixelsize d \<and>
     (\<forall>b. (fillable (frames d b) \<longrightarrow> fillable (frames d' b)) \<and>
        plane_size (frames d' b) = plane_size (frames d b) \<and> payload (frames d' b) = payload (frames d b))"

lemma same_sizes_refl [simp]: "same_sizes d d"
  by (simp add: same_sizes_def)

lemma same_sizes_trans: "same_sizes d d' \<Longrightarrow> same_sizes d' d'' \<Longrightarrow> same_sizes d d''"
  by (simp add: same_sizes_def)

lemma same_sizes_after_frame: "length stack = 128 \<Longrightarrow> same_sizes d (after_frame stack b rest d)"
  using fillable_filled
  by (simp add: same_sizes_def after_frame_def vb2_buffer_done_def set_active_def dmaq_upd_def filled_def)

text \<open>
  However many rounds it gets, the thread hands the buffers at the front of the list back, in order;
  it is gone after a round that finds the list empty.
\<close>

lemma thread_rounds_up:
  assumes "length stack = 128" "\<forall>b\<in>set (active_of d). fillable (frames d b)"
  shows "\<exists>d'. thread_rounds stack k True d = (k \<le> length (active_of d), d') \<and>
    active_of d' = drop k (active_of d) \<and>
    done_log d' = done_log d @ map (\<lambda>b. (b, VB2_BUF_STATE_DONE)) (take k (active_of d)) \<and> same_sizes d d'"
  using assms(2)
proof (induction k arbitrary: d)
  case (Suc k)
  show ?case
  proof (cases "active_of d")
    case (Cons b rest)
    let ?d = "after_frame stack b rest d"
    note sizes = same_sizes_after_frame [OF assms(1), of d b rest]
    then have "\<forall>c\<in>set (active_of ?d). fillable (frames ?d c)" using Suc.prems Cons by (simp add: same_sizes_def)
    from Suc.IH [OF this] Suc.prems Cons same_sizes_trans [OF sizes] show ?thesis
      by (auto simp: run_frame_iteration [OF Cons])
  qed (simp add: run_frame_iteration_empty)
qed simp

lemma thread_rounds_down: "thread_rounds stack k False d = (False, d)"
  by (cases k) simp_all

lemma thread_rounds_result:
  assumes "length stack = 128" "\<forall>b\<in>set (active_of d). fillable (frames d b)" "thread_rounds stack k up d = (up', d')"
  shows "\<exists>j. active_of d' = drop j (active_of d) \<and>
      done_log d' = done_log d @ map (\<lambda>b. (b, VB2_BUF_STATE_DONE)) (take j (active_of d)) \<and> same_sizes d d'"
proof (cases up)
  case True
  then show ?thesis using thread_rounds_up [OF assms(1,2), of k] assms(3) by auto
next
  case False
  then show ?thesis using assms(3) by (intro exI [of _ 0]) (auto simp: thread_rounds_down)
qed

lemma fold_buf_queue [simp]:
  "active_of (fold buf_queue bs d) = active_of d @ bs" "done_log (fold buf_queue bs d) = done_log d"
  "frames (fold buf_queue bs d) = frames d"
  using vb2.queue_all [of bs d] by (simp, simp, induction bs arbitrary: d) simp_all

lemma start_streaming_parts [simp]:
  "active_of (snd (start_streaming k d)) = active_of d" "done_log (snd (start_streaming k d)) = done_log d"
  "frames (snd (start_streaming k d)) = frames d"
  by (simp_all add: start_streaming_def start_frame_generation_def Let_def split: task_ptr.split)

lemma fillable_buf_prepare [simp]: "fillable (frames (snd (buf_prepare i d)) b) = fillable (frames d b)"
  by (simp add: buf_prepare_def Let_def fillable_def)

lemma vid_ok_same:
  assumes "vid_ok w" "vid_held w' = vid_held w" "nbufs w' = nbufs w" "wstack w' = wstack w"
    "taken w' \<le> length (done_log (wdev w'))" "\<And>b. fillable (frames (wdev w) b) \<Longrightarrow> fillable (frames (wdev w') b)"
  shows "vid_ok w'"
  using assms by (simp add: vid_ok_def)

lemma vid_qbuf_law:
  assumes "vid_ok w" "vid_qbuf b w = (r, e, b', w')"
  shows "vid_ok w' \<and> (if r = - 1 then b' = b \<and> vid_held w' = vid_held w else vid_held w' = add_mset (unat (index b)) (vid_held w)) \<and>
    ptrs w' = (if r = - 1 then ptrs w else (ptrs w)(unat (index b) := (m b, buf_len b)))"
proof -
  obtain r0 d where d: "buf_prepare (unat (index b)) (wdev w) = (r0, d)" by (cases "buf_prepare (unat (index b)) (wdev w)")
  have "d = snd (buf_prepare (unat (index b)) (wdev w))" using d by simp
  then have parts: "active_of d = active_of (wdev w)" "done_log d = done_log (wdev w)"
    "\<And>c. fillable (frames d c) = fillable (frames (wdev w) c)" by simp_all
  let ?i = "unat (index b)"
  let ?ps = "(ptrs w)(?i := (m b, buf_len b))"
  consider (refused) "w' = w" "r = - 1" "b' = b"
    | (unprepared) "w' = w\<lparr>wdev := d\<rparr>" "r = - 1" "b' = b"
    | (queued) "w' = w\<lparr>wdev := buf_queue ?i d, ptrs := ?ps\<rparr> \<or> w' = w\<lparr>wdev := d, pending := pending w @ [?i], ptrs := ?ps\<rparr>"
        "r = 0" "?i < nbufs w"
  proof (cases "nbufs w \<le> ?i \<or> ?i \<in># vid_held w")
    case True
    then show ?thesis using assms(2) refused by (simp add: vid_qbuf_def)
  next
    case False
    then have "(r, e, b', w') = (if r0 < 0 then (- 1, - r0, b, w\<lparr>wdev := d\<rparr>) else (0, 0, b,
        if streaming w then w\<lparr>wdev := buf_queue ?i d, ptrs := ?ps\<rparr> else w\<lparr>wdev := d, pending := pending w @ [?i], ptrs := ?ps\<rparr>))"
      unfolding assms(2) [symmetric] by (simp add: vid_qbuf_def d Let_def)
    then have "r0 < 0 \<and> w' = w\<lparr>wdev := d\<rparr> \<and> r = - 1 \<and> b' = b \<or> r = 0 \<and>
        (w' = w\<lparr>wdev := buf_queue ?i d, ptrs := ?ps\<rparr> \<or> w' = w\<lparr>wdev := d, pending := pending w @ [?i], ptrs := ?ps\<rparr>)"
      by (cases "r0 < 0"; cases "streaming w") simp_all
    then show ?thesis using unprepared queued False not_le by blast
  qed
  then show ?thesis
  proof cases
    case unprepared
    then have "vid_held w' = vid_held w" by (simp add: vid_held_def ready_list_def parts)
    moreover from this have "vid_ok w'"
      by (rule vid_ok_same [OF assms(1)]) (use assms(1) in \<open>simp_all add: unprepared parts vid_ok_def\<close>)
    ultimately show ?thesis using unprepared by simp
  next
    case queued
    then have held: "vid_held w' = add_mset ?i (vid_held w)" by (auto simp: vid_held_def ready_list_def parts)
    have "nbufs w' = nbufs w" "wstack w' = wstack w" "taken w' = taken w" "done_log (wdev w') = done_log (wdev w)"
      "\<And>c. fillable (frames (wdev w') c) = fillable (frames (wdev w) c)" "ptrs w' = (ptrs w)(?i := (m b, buf_len b))"
      using queued(1) by (elim disjE, simp_all add: parts)+
    then show ?thesis using assms(1) held queued(2,3) by (simp add: vid_ok_def)
  qed (use assms(1) in simp)
qed

lemma vid_dqbuf_law:
  assumes "vid_ok w" "vid_dqbuf b w = (r, e, b', w')"
  shows "vid_ok w' \<and> (if r = - 1 then b' = b \<and> vid_held w' = vid_held w
      else memory b' = memory b \<and> vid_held w = add_mset (unat (index b')) (vid_held w')) \<and>
    ptrs w' = ptrs w \<and> (r \<noteq> - 1 \<longrightarrow> (m b', buf_len b') = ptrs w (unat (index b')))"
proof (cases "ready_list w")
  case Nil
  then show ?thesis using assms by (simp add: vid_dqbuf_def)
next
  case (Cons i rest)
  then have lt: "taken w < length (done_log (wdev w))"
    by (cases "taken w < length (done_log (wdev w))") (auto simp: ready_list_def)
  have w': "w' = w\<lparr>taken := Suc (taken w)\<rparr>" "r = 0" "index b' = word_of_nat i" "memory b' = memory b"
    "(m b', buf_len b') = ptrs w i"
    using assms(2) Cons by (auto simp: vid_dqbuf_def)
  have "ready_list w' = tl (ready_list w)" by (simp add: w'(1) ready_list_def drop_Suc map_tl flip: tl_drop)
  then have held: "vid_held w = add_mset i (vid_held w')" using Cons by (simp add: vid_held_def w'(1))
  then have "i < nbufs w" using assms(1) by (auto simp: vid_ok_def)
  moreover from this have "unat (word_of_nat i :: u32) = i"
    using assms(1) by (simp add: vid_ok_def unsigned_of_nat take_bit_nat_eq_self)
  moreover have "vid_ok w'" using assms(1) held lt by (auto simp: vid_ok_def w'(1))
  ultimately show ?thesis using w' held by simp
qed

lemma vid_streamon_law:
  assumes "vid_ok w" "vid_streamon w = (r, e, a, w')"
  shows "vid_ok w' \<and> vid_held w' = vid_held w \<and> ptrs w' = ptrs w"
proof -
  let ?d = "fold buf_queue (pending w) (wdev w)"
  obtain r0 d where d: "start_streaming (kthread_answer w) ?d = (r0, d)" by (cases "start_streaming (kthread_answer w) ?d")
  have "d = snd (start_streaming (kthread_answer w) ?d)" using d by simp
  then have parts: "active_of d = active_of (wdev w) @ pending w" "done_log d = done_log (wdev w)"
    "frames d = frames (wdev w)" by simp_all
  have w': "w' = w \<or> w' = w\<lparr>wdev := d, pending := []\<rparr> \<or>
      w' = w\<lparr>wdev := d, pending := [], streaming := True, thread_up := True\<rparr>"
    using assms(2) d by (auto simp: vid_streamon_def split: if_splits)
  then have "vid_held w' = vid_held w" using parts by (auto simp: vid_held_def ready_list_def)
  with w' show ?thesis using assms(1) parts by (auto intro: vid_ok_same simp: vid_ok_def)
qed

lemma vid_streamoff_law:
  "vid_ok w \<Longrightarrow> vid_streamoff w = (r, e, a, w') \<Longrightarrow> vid_ok w' \<and> vid_held w' = (if r = - 1 then vid_held w else {#})"
  using stop_streaming_result [of "wdev w"]
  by (auto simp: vid_streamoff_def vid_ok_def vid_held_def ready_list_def Let_def)

lemma vid_select_law:
  assumes "vid_ok w" "vid_select w = (r, e, a, w')"
  shows "vid_ok w' \<and> vid_held w' = vid_held w \<and> ptrs w' = ptrs w"
proof -
  obtain up d where d: "thread_rounds (wstack w) (rounds w (tick w)) (thread_up w) (wdev w) = (up, d)"
    by (cases "thread_rounds (wstack w) (rounds w (tick w)) (thread_up w) (wdev w)")
  have "\<forall>b\<in>set (active_of (wdev w)). fillable (frames (wdev w) b)"
    using assms(1) by (auto simp: vid_ok_def vid_held_def)
  with thread_rounds_result [OF _ this d] assms(1) obtain j where
    j: "active_of d = drop j (active_of (wdev w))"
      "done_log d = done_log (wdev w) @ map (\<lambda>b. (b, VB2_BUF_STATE_DONE)) (take j (active_of (wdev w)))"
    and fill: "\<forall>b. fillable (frames (wdev w) b) \<longrightarrow> fillable (frames d b)"
    by (auto simp: vid_ok_def same_sizes_def)
  have w': "w' = w\<lparr>wdev := d, thread_up := up, tick := Suc (tick w)\<rparr>"
    using assms(2) d by (simp add: vid_select_def Let_def)
  have "ready_list w' = ready_list w @ take j (active_of (wdev w))"
    using assms(1) by (simp add: w' ready_list_def j(2) vid_ok_def comp_def)
  moreover have "mset (take j xs) + mset (drop j xs) = mset xs" for xs :: "nat list"
    by (metis append_take_drop_id mset_append)
  ultimately have held: "vid_held w' = vid_held w"
    by (simp add: vid_held_def w' j(1)) (metis add.assoc add.commute)
  moreover from this have "vid_ok w'"
    by (rule vid_ok_same [OF assms(1)]) (use assms(1) fill in \<open>auto simp: vid_ok_def w' j(2)\<close>)
  ultimately show ?thesis by (simp add: w')
qed

interpretation vid: capture_queue_ptr vid_os vid_ok vid_held ptrs
proof unfold_locales
  fix w w' :: vid_world and h r e and b b' :: v4l2_buffer
  assume ok: "vid_ok w"
  show "vid_ok w' \<and> (if r = - 1 then b' = b \<and> vid_held w' = vid_held w else vid_held w' = add_mset (unat (index b)) (vid_held w))"
    if "ioctl_buf vid_os h VIDIOC_QBUF b w = (r, e, b', w')"
    using vid_qbuf_law [OF ok, of b] that by (simp add: vid_os_def)
  show "vid_ok w' \<and> (if r = - 1 then b' = b \<and> vid_held w' = vid_held w
      else memory b' = memory b \<and> vid_held w = add_mset (unat (index b')) (vid_held w'))"
    if "ioctl_buf vid_os h VIDIOC_DQBUF b w = (r, e, b', w')"
    using vid_dqbuf_law [OF ok, of b] that by (simp add: vid_os_def)
  show "vid_ok w' \<and> vid_held w' = vid_held w" if "ioctl_stream vid_os h VIDIOC_STREAMON () w = (r, e, (), w')"
    using vid_streamon_law [OF ok] that by (simp add: vid_os_def)
  show "vid_ok w' \<and> vid_held w' = (if r = - 1 then vid_held w else {#})"
    if "ioctl_stream vid_os h VIDIOC_STREAMOFF () w = (r, e, (), w')"
    using vid_streamoff_law [OF ok] that by (simp add: vid_os_def)
  show "vid_ok w' \<and> vid_held w' = vid_held w" if "sys_select vid_os h w = (r, e, (), w')"
    using vid_select_law [OF ok] that by (simp add: vid_os_def)
  show "ptrs w' = (if r = - 1 then ptrs w else (ptrs w)(unat (index b) := (m b, buf_len b)))"
    if "ioctl_buf vid_os h VIDIOC_QBUF b w = (r, e, b', w')"
    using vid_qbuf_law [OF ok, of b] that by (simp add: vid_os_def)
  show "ptrs w' = ptrs w \<and> (r \<noteq> - 1 \<longrightarrow> (m b', buf_len b') = ptrs w (unat (index b')))"
    if "ioctl_buf vid_os h VIDIOC_DQBUF b w = (r, e, b', w')"
    using vid_dqbuf_law [OF ok, of b] that by (simp add: vid_os_def)
  show "ptrs w' = ptrs w" if "ioctl_stream vid_os h VIDIOC_STREAMON () w = (r, e, (), w')"
    using vid_streamon_law [OF ok] that by (simp add: vid_os_def)
  show "ptrs w' = ptrs w" if "sys_select vid_os h w = (r, e, (), w')"
    using vid_select_law [OF ok] that by (simp add: vid_os_def)
qed

end
