(* ===== verification/Capture_Rounds.thy ===== *)
theory Capture_Rounds
  imports Capture_Session
begin

text \<open>
  Whole capture sessions of the program on the driver, followed call by call: which buffer each
  frame comes from while the program keeps up with the frame thread, and what happens when the
  thread runs ahead of it.
\<close>

section \<open>Images\<close>

fun shots :: "gcall list \<Rightarrow> (u32 \<times> u32) list" where
  "shots [] = []"
| "shots (Image p n # cs) = (p, n) # shots cs"
| "shots (c # cs) = shots cs"


lemma shots_image_calls [simp]: "shots (image_calls s p n) = [(p, n)]"
  by (simp add: image_calls_def)

section \<open>Single calls on the driver\<close>

lemma patience_vid_os [simp]: "patience vid_os = Suc 0"
  by (simp add: vid_os_def)



text \<open>
  \<open>filming n up w\<close>: the stream is on, the core has \<open>n\<close> buffers of the driver's frame size, and the
  frame thread is there or not.
\<close>

definition prepared :: "nat \<Rightarrow> fake_vid_device \<Rightarrow> bool" where
  "prepared n d \<longleftrightarrow> width d = 640 \<and> height d = 480 \<and> pixelsize d = 3 \<and>
     (\<forall>b<n. fillable (frames d b) \<and> 921600 \<le> plane_size (frames d b))"








text \<open>The program's side of a session with \<open>n\<close> mapped buffers.\<close>

definition grabbing :: "nat \<Rightarrow> buffer list \<Rightarrow> 'w grab \<Rightarrow> bool" where
  "grabbing n l s \<longleftrightarrow> io s = IO_METHOD_MMAP \<and> buffers s = Some l \<and> n_buffers s = n \<and> n \<le> length l"





section \<open>Starting the stream\<close>

text \<open>The world before \<open>start_capturing\<close>, with the first \<open>i\<close> buffers queued.\<close>

definition idling :: "nat \<Rightarrow> (nat \<Rightarrow> nat) \<Rightarrow> nat \<Rightarrow> vid_world \<Rightarrow> bool" where
  "idling n rs i w \<longleftrightarrow> nbufs w = n \<and> n \<le> 2 ^ 32 \<and> \<not> streaming w \<and> pending w = [0..<i] \<and> length (wstack w) = 128 \<and>
     prepared n (wdev w) \<and> (\<forall>b<i. payload (frames (wdev w) b) = 921600) \<and> active_of (wdev w) = [] \<and>
     done_log (wdev w) = [] \<and> taken w = 0 \<and> kthread_answer w = KTask \<and> rounds w = rs \<and> tick w = 0"





section \<open>The ring of buffers\<close>









section \<open>Whole sessions\<close>

















section \<open>Properties of capture sessions\<close>

text \<open>
  C3. A session on any system that keeps the contract of the streaming interface: once the program has
  started the stream and captured all its frames, the driver has every buffer of the program exactly
  once, and when it then stops the stream the driver has none; however the session is cut short, no buffer has been handed over twice, the program has not touched
  memory outside its array, and the assertions about the dequeued buffers have held, with memory
  mapping and with user pointers.
\<close>

theorem capture_session_safe:
  assumes "capture_queue_ptr os ok owns slot" "grab_ok s" "io s \<noteq> IO_METHOD_READ" "n_buffers s \<le> 2 ^ 32"
    "ok (world s)" "owns (world s) = {#}"
  shows "(case run (seqE (start_capturing os) (mainloop os)) s of
      (Inr _, t) \<Rightarrow> owns (world t) = mset [0..<n_buffers s]
    | (Inl e, t) \<Rightarrow> e \<noteq> SegFault \<and> e \<noteq> AssertFailed \<and> owns (world t) \<subseteq># mset [0..<n_buffers s]) \<and>
    (\<forall>u. run (seqE (seqE (start_capturing os) (mainloop os)) (stop_capturing os)) s = (Inr (), u) \<longrightarrow> owns (world u) = {#})"
proof -
  note contract = capture_queue_ptr.axioms(1) [OF assms(1)]
  note defs = capture_queue.has_def [OF contract] capture_queue.sound_stop_def [OF contract]
  have start: "capture_queue.has ok owns [] (world s)" using assms(5,6) by (simp add: defs)
  note session = capture_queue_ptr.wp_session [OF assms(1-3) start assms(4)]
  have "wp (seqE (seqE (start_capturing os) (mainloop os)) (stop_capturing os))
      (\<lambda>_ u. capture_queue.has ok owns [] (world u)) (\<lambda>_ _. True) s"
    unfolding wp_seqE [where n = "stop_capturing os"]
    by (rule wp_mono [OF session], rule capture_queue.wp_stop_capturing_off [OF contract])
       (use assms(3) in \<open>auto simp: defs\<close>)
  moreover have "case run (seqE (start_capturing os) (mainloop os)) s of
      (Inr _, t) \<Rightarrow> owns (world t) = mset [0..<n_buffers s]
    | (Inl e, t) \<Rightarrow> e \<noteq> SegFault \<and> e \<noteq> AssertFailed \<and> owns (world t) \<subseteq># mset [0..<n_buffers s]"
    using session by (auto simp: wp_def defs split: prod.splits sum.splits)
  ultimately show ?thesis by (auto simp: wp_def defs)
qed

definition film_frame :: single_frame where
  "film_frame = \<lparr>plane_size = 921600, plane = Some (replicate 128 CHR ''x''), payload = 0, timestamp = 0, sfmt = None\<rparr>"

definition film_world :: "(nat \<Rightarrow> nat) \<Rightarrow> vid_world" where
  "film_world rs = \<lparr>wdev = fresh_device (\<lambda>_. film_frame), nbufs = 2, pending = [], taken = 0, streaming = False,
     thread_up = False, tick = 0, rounds = rs, ptrs = (\<lambda>_. (0, 0)), kthread_answer = KTask, wstack = replicate 128 CHR ''s''\<rparr>"

definition film_buffers :: "buffer list" where
  "film_buffers = [\<lparr>start = 0xB0000000, length_of = 921600\<rparr>, \<lparr>start = 0xB00E1000, length_of = 921600\<rparr>]"

definition film_state :: "(nat \<Rightarrow> nat) \<Rightarrow> vid_world grab" where
  "film_state rs = (initial_grab (film_world rs))\<lparr>fd := 3, buffers := Some film_buffers, n_buffers := 2, frame_count := 5\<rparr>"

lemma film_state_ok:
  "grabbing 2 film_buffers (film_state rs)" "idling 2 rs 0 (world (film_state rs))" "trace (film_state rs) = []"
  "loop_count (frame_count (film_state rs)) = 5" "grab_ok (film_state rs)" "io (film_state rs) = IO_METHOD_MMAP"
  "n_buffers (film_state rs) = 2" "vid_ok (world (film_state rs))" "vid_held (world (film_state rs)) = {#}"
  by (simp_all add: grabbing_def idling_def film_state_def film_world_def film_buffers_def initial_grab_def
      loop_count_def prepared_def film_frame_def fillable_def grab_ok_def vid_ok_def vid_held_def ready_list_def)

theorem capture_session_safe_witness:
  "case run (seqE (start_capturing vid_os) (mainloop vid_os)) (film_state (\<lambda>_. 1)) of
      (Inr _, t) \<Rightarrow> vid_held (world t) = mset [0..<2]
    | (Inl e, t) \<Rightarrow> e \<noteq> SegFault \<and> e \<noteq> AssertFailed \<and> vid_held (world t) \<subseteq># mset [0..<2]"
  using capture_session_safe [OF vid.capture_queue_ptr_axioms, of "film_state (\<lambda>_. 1)", unfolded film_state_ok(6-9)]
  by (simp add: film_state_ok(5,8))





end
