(* ===== verification/Capture_Run.thy ===== *)
theory Capture_Run
  imports Capture_Rounds Vid_Stream
begin

text \<open>
  The capture program, the cores between and the capture driver composed: a session of
  \<open>src/lkml/v4l2-app/grabber.c\<close> on \<open>vid_os\<close> is one run of the concurrent system of \<open>Vid_Stream\<close>, in
  which the frame thread of \<open>src/lkml/v4l2/vid4linux.c\<close> is interleaved with the calls of the program.
  What holds in every reachable state of that system therefore holds during every session.
\<close>

section \<open>What a session keeps of the world\<close>


section \<open>One call, several steps\<close>


















section \<open>Sessions as runs\<close>











end
