(* ===== verification/Timer_Irq.thy ===== *)
theory Timer_Irq
  imports Kernel
begin

text \<open>
  The interrupt chip with four software lines that hangs off DMTIMER 7:
  \<open>src/lkml/dmtimer/irq.c\<close>. The first interrupt number is the answer of \<open>irq_alloc_descs\<close>, an \<open>int\<close>
  that the code stores in an \<open>unsigned int\<close>.
\<close>

section \<open>Structures\<close>

record bb_irq_chip =
  chip_name :: string
  chip_irq_mask :: "string option"
  chip_irq_unmask :: "string option"
  enabledMask :: u32
  base :: u32

record irq_line =
  line_chip :: "string option"
  flow_handler :: "string option"
  norequest :: bool
  noautoen :: bool
  noprobe :: bool

record tirq_st = kst +
  timer_irq_chip :: bb_irq_chip
  irq_lines :: "u32 \<Rightarrow> irq_line"

section \<open>Operations\<close>

text \<open>\<open>1 << (d->irq - timer_irq_chip.base)\<close>: the bit of an interrupt of the chip.\<close>

definition irq_bit :: "u32 \<Rightarrow> u32 \<Rightarrow> u32" where
  "irq_bit irq b = push_bit (unat (irq - b)) 1"

definition dmtimer_irqmask :: "u32 \<Rightarrow> bb_irq_chip \<Rightarrow> bb_irq_chip" where
  "dmtimer_irqmask irq c = c\<lparr>enabledMask := enabledMask c AND NOT (irq_bit irq (base c))\<rparr>"

definition dmtimer_irqunmask :: "u32 \<Rightarrow> bb_irq_chip \<Rightarrow> bb_irq_chip" where
  "dmtimer_irqunmask irq c = c\<lparr>enabledMask := enabledMask c OR NOT (irq_bit irq (base c))\<rparr>"

definition setup_line :: "bb_irq_chip \<Rightarrow> irq_line \<Rightarrow> irq_line" where
  "setup_line c l = l\<lparr>line_chip := Some (chip_name c), flow_handler := Some ''handle_simple_irq'',
     norequest := False, noautoen := False, noprobe := True\<rparr>"

text \<open>The test \<open>timer_irq_chip.base < 0\<close> is made on an unsigned number.\<close>

definition dmtimer_irq_alloc_chip :: "int \<Rightarrow> ('y tirq_st_scheme, koops, unit) prog" where
  "dmtimer_irq_alloc_chip descs =
     seqE (modify (\<lambda>s. s\<lparr>timer_irq_chip := (timer_irq_chip s)\<lparr>base := word_of_int descs\<rparr>\<rparr>))
     (seqE (if_then (0 \<le> descs) (acquire (IrqDescs (word_of_int descs) 4)))
     (bindE (gets timer_irq_chip) (\<lambda>c.
      if uint (base c) < 0 then ret ()
      else
        seqE (modify (\<lambda>s. s\<lparr>timer_irq_chip := (timer_irq_chip s)\<lparr>
                chip_name := ''DMTIMER Generic IRQ CHIP'',
                chip_irq_mask := Some ''dmtimer_irqmask'',
                chip_irq_unmask := Some ''dmtimer_irqunmask''\<rparr>\<rparr>))
        (for_each [0, 1, 2, 3] (\<lambda>i. modify (\<lambda>s. s\<lparr>irq_lines := (irq_lines s)
           (base (timer_irq_chip s) + i :=
              setup_line (timer_irq_chip s) (irq_lines s (base (timer_irq_chip s) + i)))\<rparr>))))))"

definition timer_irq_free_chip :: "('y tirq_st_scheme, koops, unit) prog" where
  "timer_irq_free_chip = bindE (gets timer_irq_chip) (\<lambda>c. release (IrqDescs (base c) 4))"

definition timer_irq_init :: "int \<Rightarrow> ('y tirq_st_scheme, koops, int) prog" where
  "timer_irq_init descs = seqE (dmtimer_irq_alloc_chip descs) (ret 0)"

definition timer_get_irq :: "int \<Rightarrow> ('y tirq_st_scheme, koops, int) prog" where
  "timer_get_irq nested_irq_num =
     gets (\<lambda>s. sint (base (timer_irq_chip s) + word_of_int nested_irq_num))"

section \<open>Lemmas\<close>

definition armed_chip :: "int \<Rightarrow> bb_irq_chip \<Rightarrow> bb_irq_chip" where
  "armed_chip descs c = c\<lparr>base := word_of_int descs, chip_name := ''DMTIMER Generic IRQ CHIP'',
     chip_irq_mask := Some ''dmtimer_irqmask'', chip_irq_unmask := Some ''dmtimer_irqunmask''\<rparr>"

definition armed_lines :: "int \<Rightarrow> bb_irq_chip \<Rightarrow> (u32 \<Rightarrow> irq_line) \<Rightarrow> u32 \<Rightarrow> irq_line" where
  "armed_lines descs c ls = (\<lambda>j.
     if j - word_of_int descs < 4 then setup_line (armed_chip descs c) (ls j) else ls j)"

lemma word_less_4: "(x :: u32) < 4 \<longleftrightarrow> x = 0 \<or> x = 1 \<or> x = 2 \<or> x = 3"
proof -
  have "unat x < 4 \<longleftrightarrow> unat x = 0 \<or> unat x = 1 \<or> unat x = 2 \<or> unat x = 3" by auto
  then show ?thesis by (simp add: word_less_nat_alt word_unat_eq_iff)
qed

lemma armed_lines_upd:
  fixes ls :: "u32 \<Rightarrow> irq_line" and b :: u32
  shows "ls(b := f (ls b), b + 1 := f (ls (b + 1)), b + 2 := f (ls (b + 2)), b + 3 := f (ls (b + 3))) =
    (\<lambda>j. if j - b < 4 then f (ls j) else ls j)"
proof
  fix j
  have "j - b = k \<longleftrightarrow> j = b + k" for k by (auto simp: algebra_simps)
  then show "(ls(b := f (ls b), b + 1 := f (ls (b + 1)), b + 2 := f (ls (b + 2)), b + 3 := f (ls (b + 3)))) j =
      (if j - b < 4 then f (ls j) else ls j)"
    by (auto simp: word_less_4)
qed

lemma wp_timer_irq_init [wp_simps]:
  "wp (timer_irq_init descs) Q E s = Q 0 (s\<lparr>
     held := (if 0 \<le> descs then [IrqDescs (word_of_int descs) 4] else []) @ held s,
     timer_irq_chip := armed_chip descs (timer_irq_chip s),
     irq_lines := armed_lines descs (timer_irq_chip s) (irq_lines s)\<rparr>)"
proof -
  let ?c = "armed_chip descs (timer_irq_chip s)"
  let ?b = "word_of_int descs :: u32"
  have "(irq_lines s)(?b := setup_line ?c (irq_lines s ?b),
      ?b + 1 := setup_line ?c (irq_lines s (?b + 1)), ?b + 2 := setup_line ?c (irq_lines s (?b + 2)),
      ?b + 3 := setup_line ?c (irq_lines s (?b + 3))) =
    armed_lines descs (timer_irq_chip s) (irq_lines s)"
    unfolding armed_lines_def by (rule armed_lines_upd)
  then show ?thesis
    by (simp add: timer_irq_init_def dmtimer_irq_alloc_chip_def wp_simps armed_chip_def
        seqE_def [symmetric] not_less)
qed

lemma wp_timer_get_irq [wp_simps]:
  "wp (timer_get_irq n) Q E s = Q (sint (base (timer_irq_chip s) + word_of_int n)) s"
  by (simp add: timer_get_irq_def wp_simps)

lemma bit_irq_bit: "unat (irq - b) < 32 \<Longrightarrow> bit (irq_bit irq b) j \<longleftrightarrow> j = unat (irq - b)"
  by (auto simp: irq_bit_def bit_exp_iff)

section \<open>Properties\<close>

text \<open>
  Masking an interrupt of the chip clears its own enable bit and no other.
\<close>

theorem irqmask_clears_own_bit:
  assumes "unat (irq - base c) < 32" "j < 32"
  shows "bit (enabledMask (dmtimer_irqmask irq c)) j \<longleftrightarrow>
    bit (enabledMask c) j \<and> j \<noteq> unat (irq - base c)"
  using assms by (simp add: dmtimer_irqmask_def bit_and_iff bit_not_iff bit_irq_bit)

theorem irqmask_clears_own_bit_witness:
  "let c = \<lparr>chip_name = [], chip_irq_mask = None, chip_irq_unmask = None, enabledMask = 15, base = 200\<rparr>
   in \<not> bit (enabledMask (dmtimer_irqmask 202 c)) 2 \<and> bit (enabledMask (dmtimer_irqmask 202 c)) 3"
  using irqmask_clears_own_bit
      [of 202 "\<lparr>chip_name = [], chip_irq_mask = None, chip_irq_unmask = None, enabledMask = 15, base = 200\<rparr>" 2]
    irqmask_clears_own_bit
      [of 202 "\<lparr>chip_name = [], chip_irq_mask = None, chip_irq_unmask = None, enabledMask = 15, base = 200\<rparr>" 3]
  by (simp add: Let_def)

text \<open>
  Unmasking does not undo masking: \<open>dmtimer_irqunmask\<close> sets the enable bits of all other 31
  interrupts and leaves the one it was called for as it is, so after a mask and an unmask of the same
  interrupt its bit is clear and every other bit is set.
\<close>

theorem irqunmask_enables_the_others:
  assumes "unat (irq - base c) < 32" "j < 32"
  shows "(bit (enabledMask (dmtimer_irqunmask irq c)) j \<longleftrightarrow>
      bit (enabledMask c) j \<or> j \<noteq> unat (irq - base c)) \<and>
    (bit (enabledMask (dmtimer_irqunmask irq (dmtimer_irqmask irq c))) j \<longleftrightarrow> j \<noteq> unat (irq - base c))"
  using assms
  by (auto simp: dmtimer_irqunmask_def dmtimer_irqmask_def bit_and_iff bit_or_iff bit_not_iff bit_irq_bit)

theorem irqunmask_enables_the_others_witness:
  "let c = \<lparr>chip_name = [], chip_irq_mask = None, chip_irq_unmask = None, enabledMask = 0, base = 200\<rparr>
   in \<not> bit (enabledMask (dmtimer_irqunmask 202 c)) 2 \<and> bit (enabledMask (dmtimer_irqunmask 202 c)) 31"
  using irqunmask_enables_the_others
      [of 202 "\<lparr>chip_name = [], chip_irq_mask = None, chip_irq_unmask = None, enabledMask = 0, base = 200\<rparr>" 2]
    irqunmask_enables_the_others
      [of 202 "\<lparr>chip_name = [], chip_irq_mask = None, chip_irq_unmask = None, enabledMask = 0, base = 200\<rparr>" 31]
  by (simp add: Let_def)

text \<open>
  \<open>timer_irq_init\<close> answers 0 and goes on whatever \<open>irq_alloc_descs\<close> answered: an error number
  becomes an interrupt base near the top of the unsigned range, and the four lines from there on are
  set up as if they had been allocated, although nothing is held. The lines it sets up are exactly the
  four from the base on.
\<close>

theorem irq_init_ignores_failure:
  "\<exists>t. run (timer_irq_init descs) s = (Inr 0, t) \<and>
     held t = (if 0 \<le> descs then [IrqDescs (word_of_int descs) 4] else []) @ held s \<and>
     base (timer_irq_chip t) = word_of_int descs \<and>
     (\<forall>j. irq_lines t j =
        (if j - word_of_int descs < 4 then setup_line (timer_irq_chip t) (irq_lines s j)
         else irq_lines s j))"
proof -
  have "wp (timer_irq_init descs) (\<lambda>r t. r = 0 \<and>
     held t = (if 0 \<le> descs then [IrqDescs (word_of_int descs) 4] else []) @ held s \<and>
     base (timer_irq_chip t) = word_of_int descs \<and>
     (\<forall>j. irq_lines t j =
        (if j - word_of_int descs < 4 then setup_line (timer_irq_chip t) (irq_lines s j)
         else irq_lines s j))) (\<lambda>_ _. False) s"
    by (simp add: wp_timer_irq_init armed_lines_def armed_chip_def)
  from wp_total [OF this] show ?thesis by blast
qed

end
