(* ===== verification/Dmtimer.thy ===== *)
theory Dmtimer
  imports Timer_Irq C_String
begin

text \<open>
  The DMTIMER 7 platform driver: \<open>src/lkml/dmtimer/dmtimer.c\<close>, as built, that is, with neither
  \<open>DEBUG\<close> nor \<open>SINGLE\<close> defined; the code of the \<open>DEBUG\<close> build is in \<open>Dmtimer_Debug\<close>. Register
  accesses go through the windows mapped by \<open>ioremap_nocache\<close>; every access outside of them ends the
  run. The device tree's resource, the interrupt number and the results of the requests are the
  kernel's answers.
\<close>

section \<open>Constants and state\<close>

definition DEVICE_NAME :: string where "DEVICE_NAME = ''ARM DMTIMER''"
definition CM_PERS_REGBASE :: u32 where "CM_PERS_REGBASE = 0x44E00000"
definition CM_PERS_REGLEN :: u32 where "CM_PERS_REGLEN = 0x400"
definition DMTIMER7_REGBASE :: u32 where "DMTIMER7_REGBASE = 0x4804A000"
definition DMTIMER7_REGLEN :: u32 where "DMTIMER7_REGLEN = 0x400"

lemmas dmtimer_consts = CM_PERS_REGBASE_def CM_PERS_REGLEN_def DMTIMER7_REGBASE_def DMTIMER7_REGLEN_def

record dmtimer =
  pdev :: "string option"
  enable_base_addr :: u32
  timer7_base :: u32
  virq :: u32
  my_thread :: bool

record dmt_st = tirq_st +
  dmtimer_drv :: dmtimer

type_synonym 'a dmt_prog = "(dmt_st, koops, 'a) prog"

definition drv_upd :: "(dmtimer \<Rightarrow> dmtimer) \<Rightarrow> unit dmt_prog" where
  "drv_upd f = modify (\<lambda>s. s\<lparr>dmtimer_drv := f (dmtimer_drv s)\<rparr>)"

text \<open>
  The kernel's answers during one probe: the memory resource (first and last address), the
  interrupt number, whether the two regions are free, the two virtual bases, the results of the two
  interrupt requests and of \<open>irq_alloc_descs\<close>, and the register values read.
\<close>

record probe_env =
  resource :: "(u32 \<times> u32) option"
  irq_map :: u32
  cm_free :: bool
  mem_free :: bool
  cm_map :: u32
  t7_map :: u32
  request_irq_ret :: int
  descs_ret :: int
  threaded_ret :: int
  regs :: "u32 \<Rightarrow> u32"

section \<open>Interrupt handlers and tasklet\<close>

definition timer_irq_handler :: "u32 \<Rightarrow> ('z, unit) kprog" where
  "timer_irq_handler irq = klog_add (Printk (''timer_irq_handler, IRQ Triggered :'' @ dec (unat irq)))"

definition threaded_handler :: "unit dmt_prog" where
  "threaded_handler =
     seqE (klog_add (Printk ''DMTIMER Threaded Handler''))
     (bindE (gets dmtimer_drv) (\<lambda>d.
      seqE (iowrite32 0x02 (timer7_base d + 0x30))
      (seqE (iowrite32 0x02 (timer7_base d + 0x28))
      (seqE (iowrite32 0x02 (timer7_base d + 0x2c))
            (klog_add TaskletSchedule)))))"

definition dmtimer_irq_handler :: "unit dmt_prog" where
  "dmtimer_irq_handler =
     bindE (gets dmtimer_drv) (\<lambda>d.
     seqE (iowrite32 0x30002 (enable_base_addr d + 0x7c))
     (seqE (iowrite32 0x02 (timer7_base d + 0x30))
     (seqE (iowrite32 0x02 (timer7_base d + 0x28))
     (seqE (iowrite32 0x02 (timer7_base d + 0x2c))
     (seqE (klog_add TaskletSchedule)
     (bindE (gets timer_irq_chip) (\<lambda>c. klog_add (NestedIrq (base c + 2)))))))))"

definition dmtimer_tasklet :: "('z, unit) kprog" where
  "dmtimer_tasklet = klog_add (Printk ''Tasklet T7 -1sec'')"

section \<open>Probe and remove\<close>

text \<open>
  Unmasking the clocks, reading them back, and programming the timer: the register accesses at the
  end of the probe function.
\<close>

definition program_timer :: "(u32 \<Rightarrow> u32) \<Rightarrow> unit dmt_prog" where
  "program_timer hw =
     bindE (gets dmtimer_drv) (\<lambda>d.
     seqE (ioread32 hw (enable_base_addr d + 0x7c))
     (seqE (ioread32 hw (enable_base_addr d))
     (seqE (iowrite32 0x02 (enable_base_addr d))
     (seqE (iowrite32 30002 (enable_base_addr d + 0x7c))
     (seqE (ioread32 hw (enable_base_addr d + 0x7c))
     (seqE (ioread32 hw (enable_base_addr d))
     (seqE (iowrite32 0x02 (timer7_base d + 0x2c))
     (seqE (iowrite32 0xFE91C9FF (timer7_base d + 0x3c))
     (seqE (iowrite32 0xFE91C9FF (timer7_base d + 0x40))
           (iowrite32 0x03 (timer7_base d + 0x38)))))))))))"

definition dmtimer_probe :: "probe_env \<Rightarrow> string \<Rightarrow> int dmt_prog" where
  "dmtimer_probe e dev =
     seqE (drv_upd (\<lambda>d. d\<lparr>virq := irq_map e\<rparr>))
     (if irq_map e = 0 then ret (- 1)
      else case resource e of
        None \<Rightarrow> ret (- 1)
      | Some (r_start, r_end) \<Rightarrow>
          bindE (request_mem_region (cm_free e) CM_PERS_REGBASE CM_PERS_REGLEN) (\<lambda>ok.
          if \<not> ok then ret (- EBUSY)
          else
          bindE (request_mem_region (mem_free e) r_start (r_end - r_start + 1)) (\<lambda>ok.
          if \<not> ok then ret (- EBUSY)
          else
          bindE (ioremap_nocache (cm_map e) CM_PERS_REGLEN) (\<lambda>cm.
          seqE (drv_upd (\<lambda>d. d\<lparr>enable_base_addr := cm\<rparr>))
          (bindE (ioremap_nocache (t7_map e) DMTIMER7_REGLEN) (\<lambda>t7.
          seqE (drv_upd (\<lambda>d. d\<lparr>timer7_base := t7\<rparr>))
          (bindE (acquire_if_ok (request_irq_ret e) (IrqAction (irq_map e))) (\<lambda>_.
          seqE (timer_irq_init (descs_ret e))
          (bindE (timer_get_irq 2) (\<lambda>nested_irq.
          bindE (acquire_if_ok (threaded_ret e) (IrqAction (word_of_int nested_irq))) (\<lambda>_.
          seqE (program_timer (regs e))
          (seqE (drv_upd (\<lambda>d. d\<lparr>pdev := Some dev\<rparr>))
                (ret 0)))))))))))))"

definition dmtimer_remove :: "int dmt_prog" where
  "dmtimer_remove =
     bindE (gets dmtimer_drv) (\<lambda>d.
     seqE (iowrite32 0x0 (timer7_base d + 0x7c))
     (seqE (iowrite32 0x00 (timer7_base d + 0x2c))
     (seqE (iounmap (enable_base_addr d))
     (seqE (iounmap (timer7_base d))
     (seqE (release (MemRegion CM_PERS_REGBASE CM_PERS_REGLEN))
     (seqE (release (MemRegion DMTIMER7_REGBASE DMTIMER7_REGLEN))
           (ret 0)))))))"

section \<open>Module load and unload\<close>

definition dmtimer_driver :: "(probe_env \<Rightarrow> string \<Rightarrow> int dmt_prog, int dmt_prog) bus_driver" where
  "dmtimer_driver = \<lparr>bd_name = DEVICE_NAME, bd_compatible = [''sk,timer-dev''], bd_probe = dmtimer_probe,
     bd_remove = dmtimer_remove\<rparr>"

lemma dmtimer_driver_simps [simp]:
  "bd_name dmtimer_driver = DEVICE_NAME" "bd_probe dmtimer_driver = dmtimer_probe"
  "bd_remove dmtimer_driver = dmtimer_remove" "bd_compatible dmtimer_driver = [''sk,timer-dev'']"
  by (simp_all add: dmtimer_driver_def)

definition dmtimer_init :: "int \<Rightarrow> ('z, int) kprog" where
  "dmtimer_init register_ret = acquire_if_ok register_ret (PlatformDriver (bd_name dmtimer_driver))"

text \<open>
  \<open>platform_driver_unregister\<close> is the kernel's; it gets the driver's remove function. \<open>kthread_stop\<close>
  gives the reading thread back, which exists in \<open>DEBUG\<close> builds only.
\<close>

definition dmtimer_exit :: "(int dmt_prog \<Rightarrow> unit dmt_prog) \<Rightarrow> unit dmt_prog" where
  "dmtimer_exit platform_driver_unregister =
     bindE (gets dmtimer_drv) (\<lambda>d.
     seqE (if_then (my_thread d) (release (Kthread ''TIMER7-Read'')))
     (seqE (platform_driver_unregister (bd_remove dmtimer_driver))
     (seqE (klog_add TaskletKill)
     (bindE (gets dmtimer_drv) (\<lambda>d. release (IrqAction (virq d)))))))"

section \<open>Lemmas\<close>

text \<open>Both register windows are mapped and do not wrap around the address space.\<close>

definition windows_ok :: "kres list \<Rightarrow> dmtimer \<Rightarrow> bool" where
  "windows_ok h d \<longleftrightarrow>
     IoWindow (enable_base_addr d) 0x400 \<in> set h \<and> unat (enable_base_addr d) + 0x400 \<le> 2 ^ 32 \<and>
     IoWindow (timer7_base d) 0x400 \<in> set h \<and> unat (timer7_base d) + 0x400 \<le> 2 ^ 32"

lemma io_ok_offset:
  assumes "IoWindow b 0x400 \<in> set h" "unat b + 0x400 \<le> 2 ^ 32" "unat k \<le> 0x3fc"
  shows "io_ok h (b + k) 4"
  using assms by (intro io_ok_window [of b "0x400"]) simp_all

lemma windows_ok_io [simp]:
  assumes "windows_ok h d" "unat k \<le> 0x3fc"
  shows "io_ok h (enable_base_addr d + k) 4" "io_ok h (timer7_base d + k) 4"
  using assms io_ok_offset by (simp_all add: windows_ok_def)

lemma windows_ok_base [simp]:
  "windows_ok h d \<Longrightarrow> io_ok h (enable_base_addr d) 4"
  using windows_ok_io(1) [of h d 0] by simp

lemma wp_drv_upd [wp_simps]:
  "wp (drv_upd f) Q E s = Q () (s\<lparr>dmtimer_drv := f (dmtimer_drv s)\<rparr>)"
  by (simp add: drv_upd_def wp_simps)

definition timer_writes :: "u32 \<Rightarrow> u32 \<Rightarrow> kevent list" where
  "timer_writes cm t7 =
     [W32 cm 0x02, W32 (cm + 0x7c) 30002, W32 (t7 + 0x2c) 0x02, W32 (t7 + 0x3c) 0xFE91C9FF,
      W32 (t7 + 0x40) 0xFE91C9FF, W32 (t7 + 0x38) 0x03]"

lemma wp_program_timer:
  assumes "windows_ok (held s) (dmtimer_drv s)"
  shows "wp (program_timer hw) Q E s =
    Q () (s\<lparr>klog := klog s @ timer_writes (enable_base_addr (dmtimer_drv s)) (timer7_base (dmtimer_drv s))\<rparr>)"
  using assms by (simp add: program_timer_def timer_writes_def wp_simps)

lemma wp_dmtimer_irq_handler:
  assumes "windows_ok (held s) (dmtimer_drv s)"
  shows "wp dmtimer_irq_handler Q E s =
    Q () (s\<lparr>klog := klog s @
      [W32 (enable_base_addr (dmtimer_drv s) + 0x7c) 0x30002,
       W32 (timer7_base (dmtimer_drv s) + 0x30) 0x02, W32 (timer7_base (dmtimer_drv s) + 0x28) 0x02,
       W32 (timer7_base (dmtimer_drv s) + 0x2c) 0x02, TaskletSchedule,
       NestedIrq (base (timer_irq_chip s) + 2)]\<rparr>)"
  using assms by (simp add: dmtimer_irq_handler_def wp_simps)

text \<open>What the probe function relies on: the resource of the device tree and two distinct windows.\<close>

definition probe_ok :: "probe_env \<Rightarrow> bool" where
  "probe_ok e \<longleftrightarrow>
     irq_map e \<noteq> 0 \<and> resource e = Some (DMTIMER7_REGBASE, DMTIMER7_REGBASE + DMTIMER7_REGLEN - 1) \<and>
     cm_free e \<and> mem_free e \<and> cm_map e \<noteq> 0 \<and> t7_map e \<noteq> 0 \<and> cm_map e \<noteq> t7_map e \<and>
     unat (cm_map e) + 0x400 \<le> 2 ^ 32 \<and> unat (t7_map e) + 0x400 \<le> 2 ^ 32"

definition probed_irqs :: "probe_env \<Rightarrow> kres list" where
  "probed_irqs e =
     (if threaded_ret e = 0 then [IrqAction (word_of_int (descs_ret e) + 2)] else []) @
     (if 0 \<le> descs_ret e then [IrqDescs (word_of_int (descs_ret e)) 4] else []) @
     (if request_irq_ret e = 0 then [IrqAction (irq_map e)] else [])"

definition probed_io :: "probe_env \<Rightarrow> kres list" where
  "probed_io e = [IoWindow (t7_map e) 0x400, IoWindow (cm_map e) 0x400,
     MemRegion DMTIMER7_REGBASE DMTIMER7_REGLEN, MemRegion CM_PERS_REGBASE CM_PERS_REGLEN]"

lemma word_of_int_sint: "word_of_int (sint (x :: u32)) = (x :: u32)"
  by simp

lemma wp_dmtimer_probe:
  assumes "probe_ok e"
  shows "wp (dmtimer_probe e dev) (\<lambda>r t. r = 0 \<and>
      held t = probed_irqs e @ probed_io e @ held s \<and>
      klog t = klog s @ timer_writes (cm_map e) (t7_map e) \<and>
      enable_base_addr (dmtimer_drv t) = cm_map e \<and> timer7_base (dmtimer_drv t) = t7_map e \<and>
      virq (dmtimer_drv t) = irq_map e \<and> base (timer_irq_chip t) = word_of_int (descs_ret e) \<and>
      my_thread (dmtimer_drv t) = my_thread (dmtimer_drv s))
    (\<lambda>_ _. False) s"
  using assms
  by (auto simp: dmtimer_probe_def probe_ok_def wp_simps wp_program_timer windows_ok_def
      probed_irqs_def probed_io_def dmtimer_consts armed_chip_def)

lemma window_at_probed_irqs [simp]: "window_at a (probed_irqs e @ h) = window_at a h"
  by (simp add: probed_irqs_def)

lemma probed_irqs_no_io [simp]:
  "IoWindow a l \<notin> set (probed_irqs e)" "MemRegion a l \<notin> set (probed_irqs e)"
  by (auto simp: probed_irqs_def)

text \<open>Removing the device right after it was probed, whatever else is held.\<close>

lemma wp_dmtimer_remove:
  assumes "probe_ok e" "held s = probed_irqs e @ probed_io e @ h"
    and "enable_base_addr (dmtimer_drv s) = cm_map e" "timer7_base (dmtimer_drv s) = t7_map e"
  shows "wp dmtimer_remove Q E s =
    Q 0 (s\<lparr>klog := klog s @ [W32 (t7_map e + 0x7c) 0, W32 (t7_map e + 0x2c) 0],
           held := probed_irqs e @ h\<rparr>)"
proof -
  have "windows_ok (held s) (dmtimer_drv s)"
    using assms by (simp add: windows_ok_def probed_io_def probe_ok_def)
  moreover have "cm_map e \<noteq> t7_map e" using assms(1) by (simp add: probe_ok_def)
  ultimately show ?thesis
    using assms windows_ok_io(2) [of "held s" "dmtimer_drv s"]
    by (simp add: dmtimer_remove_def wp_simps probed_io_def remove1_append dmtimer_consts)
qed

section \<open>Properties\<close>

definition sample_probe :: probe_env where
  "sample_probe = \<lparr>resource = Some (0x4804A000, 0x4804A3FF), irq_map = 36, cm_free = True,
     mem_free = True, cm_map = 0xFA000000, t7_map = 0xFB000000, request_irq_ret = 0, descs_ret = 200,
     threaded_ret = 0, regs = (\<lambda>_. 0)\<rparr>"

definition sample_dmt :: dmt_st where
  "sample_dmt = \<lparr>held = [], klog = [],
     timer_irq_chip = \<lparr>chip_name = [], chip_irq_mask = None, chip_irq_unmask = None,
        enabledMask = 0, base = 0\<rparr>,
     irq_lines = (\<lambda>_. \<lparr>line_chip = None, flow_handler = None, norequest = True, noautoen = False,
        noprobe = False\<rparr>),
     dmtimer_drv = \<lparr>pdev = None, enable_base_addr = 0, timer7_base = 0, virq = 0, my_thread = False\<rparr>\<rparr>"

lemma sample_probe_ok: "probe_ok sample_probe"
  by (simp add: probe_ok_def sample_probe_def dmtimer_consts)



text \<open>
  The timer period: the counter overflows after \<open>2 ^ 32 - v\<close> ticks when it is reloaded with \<open>v\<close>.
  The value the probe writes into the reload register gives 24000001 ticks, one more than the 24
  million of a second at the 24 MHz the file names.
\<close>

theorem reload_period:
  assumes "probe_ok e" "run (dmtimer_probe e dev) s = (Inr r, t)"
  shows "\<exists>v. last_write32 (t7_map e + 0x40) (klog t) = Some v \<and>
    last_write32 (t7_map e + 0x3c) (klog t) = Some v \<and> 2 ^ 32 - unat v = 24000000 + 1"
proof -
  have "klog t = klog s @ timer_writes (cm_map e) (t7_map e)"
    using wp_InrD [OF wp_dmtimer_probe [OF assms(1)] assms(2)] by simp
  then have "last_write32 (t7_map e + 0x40) (klog t) = Some 0xFE91C9FF"
    "last_write32 (t7_map e + 0x3c) (klog t) = Some 0xFE91C9FF"
    by (simp_all add: last_write32_append timer_writes_def)
  then show ?thesis by simp
qed

theorem reload_period_witness:
  "\<exists>t v. run (dmtimer_probe sample_probe ''timer7'') sample_dmt = (Inr 0, t) \<and>
     last_write32 0xFB000040 (klog t) = Some v \<and> 2 ^ 32 - unat v = 24000000 + 1"
proof -
  obtain t where "run (dmtimer_probe sample_probe ''timer7'') sample_dmt = (Inr 0, t)"
    using wp_total [OF wp_dmtimer_probe [OF sample_probe_ok]] by blast
  with reload_period [OF sample_probe_ok this] show ?thesis by (auto simp: sample_probe_def)
qed

text \<open>
  C13. The interrupt handler, run while the device is bound, acknowledges in a safe order: after the
  clock register it disables the overflow interrupt, clears the pending bit and only then enables the
  interrupt again; it schedules the tasklet, raises the nested interrupt of line 2, and changes
  nothing else.
\<close>

theorem irq_handler_acknowledges:
  assumes "probe_ok e" "run (dmtimer_probe e dev) s = (Inr 0, t)"
  shows "run dmtimer_irq_handler t = (Inr (), t\<lparr>klog := klog t @
    [W32 (cm_map e + 0x7c) 0x30002, W32 (t7_map e + 0x30) 2, W32 (t7_map e + 0x28) 2,
     W32 (t7_map e + 0x2c) 2, TaskletSchedule, NestedIrq (word_of_int (descs_ret e) + 2)]\<rparr>)"
proof -
  have p: "held t = probed_irqs e @ probed_io e @ held s" "enable_base_addr (dmtimer_drv t) = cm_map e"
    "timer7_base (dmtimer_drv t) = t7_map e" "base (timer_irq_chip t) = word_of_int (descs_ret e)"
    using wp_InrD [OF wp_dmtimer_probe [OF assms(1)] assms(2)] by simp_all
  then have "windows_ok (held t) (dmtimer_drv t)"
    using assms(1) by (simp add: windows_ok_def probed_io_def probe_ok_def)
  then show ?thesis by (intro wp_runI) (simp add: wp_dmtimer_irq_handler p)
qed

theorem irq_handler_acknowledges_witness:
  "\<exists>t u. run (dmtimer_probe sample_probe ''timer7'') sample_dmt = (Inr 0, t) \<and>
     run dmtimer_irq_handler t = (Inr (), u) \<and> last (klog u) = NestedIrq 202"
proof -
  obtain t where "run (dmtimer_probe sample_probe ''timer7'') sample_dmt = (Inr 0, t)"
    using wp_total [OF wp_dmtimer_probe [OF sample_probe_ok]] by blast
  with irq_handler_acknowledges [OF sample_probe_ok this] show ?thesis by (simp add: sample_probe_def)
qed

text \<open>
  C29. The error paths of the probe: no interrupt or no memory resource gives -1 with nothing held; a
  busy clock region gives \<open>-EBUSY\<close> with nothing held; but when the timer's own region is busy, the
  clock region requested just before stays requested.
\<close>

theorem probe_error_paths:
  "(irq_map e = 0 \<or> resource e = None \<longrightarrow>
      (\<exists>t. run (dmtimer_probe e dev) s = (Inr (- 1), t) \<and> held t = held s)) \<and>
   (irq_map e \<noteq> 0 \<and> resource e \<noteq> None \<and> \<not> cm_free e \<longrightarrow>
      (\<exists>t. run (dmtimer_probe e dev) s = (Inr (- EBUSY), t) \<and> held t = held s)) \<and>
   (irq_map e \<noteq> 0 \<and> resource e \<noteq> None \<and> cm_free e \<and> \<not> mem_free e \<longrightarrow>
      (\<exists>t. run (dmtimer_probe e dev) s = (Inr (- EBUSY), t) \<and>
         held t = MemRegion CM_PERS_REGBASE CM_PERS_REGLEN # held s))"
  by (auto simp: dmtimer_probe_def drv_upd_def request_mem_region_def prog_simps)

theorem probe_error_paths_witness:
  "\<exists>t. run (dmtimer_probe (sample_probe\<lparr>mem_free := False\<rparr>) ''timer7'') sample_dmt = (Inr (- EBUSY), t) \<and>
     held t = [MemRegion CM_PERS_REGBASE CM_PERS_REGLEN]"
  using probe_error_paths [of "sample_probe\<lparr>mem_free := False\<rparr>" "''timer7''" sample_dmt]
  by (simp add: sample_probe_def sample_dmt_def)

text \<open>
  C30. Between the removal of the device and the end of \<open>dmtimer_exit\<close> the interrupt is still
  requested while the register windows are gone: after probe and remove the handler is still
  installed, and running it faults on its first register write.
\<close>

theorem handler_faults_after_remove:
  assumes "probe_ok e" "request_irq_ret e = 0" "run (dmtimer_probe e dev) s = (Inr 0, t)"
    and "\<forall>b l. IoWindow b l \<notin> set (held s)"
  shows "\<exists>u. run dmtimer_remove t = (Inr 0, u) \<and> IrqAction (irq_map e) \<in> set (held u) \<and>
    run dmtimer_irq_handler u = (Inl (BadIo (cm_map e + 0x7c)), u)"
proof -
  have p: "held t = probed_irqs e @ probed_io e @ held s" "enable_base_addr (dmtimer_drv t) = cm_map e"
    "timer7_base (dmtimer_drv t) = t7_map e"
    using wp_InrD [OF wp_dmtimer_probe [OF assms(1)] assms(3)] by simp_all
  let ?u = "t\<lparr>klog := klog t @ [W32 (t7_map e + 0x7c) 0, W32 (t7_map e + 0x2c) 0],
              held := probed_irqs e @ held s\<rparr>"
  have remove: "run dmtimer_remove t = (Inr 0, ?u)"
    by (rule wp_runI) (simp add: wp_dmtimer_remove [OF assms(1) p])
  have "\<not> io_ok (probed_irqs e @ held s) a n" for a n
    using assms(4) by (auto simp: io_ok_def list_ex_iff probed_irqs_def split: kres.splits)
  then have "run dmtimer_irq_handler ?u = (Inl (BadIo (cm_map e + 0x7c)), ?u)"
    by (simp add: dmtimer_irq_handler_def iowrite32_def prog_simps p(2))
  with remove assms(2) show ?thesis
    by (intro exI [of _ ?u]) (simp add: probed_irqs_def)
qed

theorem handler_faults_after_remove_witness:
  "\<exists>t u. run (dmtimer_probe sample_probe ''timer7'') sample_dmt = (Inr 0, t) \<and>
     run dmtimer_remove t = (Inr 0, u) \<and> IrqAction 36 \<in> set (held u) \<and>
     fst (run dmtimer_irq_handler u) = Inl (BadIo 0xFA00007C)"
proof -
  obtain t where t: "run (dmtimer_probe sample_probe ''timer7'') sample_dmt = (Inr 0, t)"
    using wp_total [OF wp_dmtimer_probe [OF sample_probe_ok]] by blast
  have "\<exists>u. run dmtimer_remove t = (Inr 0, u) \<and> IrqAction (irq_map sample_probe) \<in> set (held u) \<and>
      run dmtimer_irq_handler u = (Inl (BadIo (cm_map sample_probe + 0x7c)), u)"
    by (rule handler_faults_after_remove [OF sample_probe_ok _ t])
       (simp_all add: sample_probe_def sample_dmt_def)
  with t show ?thesis by (auto simp: sample_probe_def)
qed

text \<open>
  C31. Unloading the module after a probe in which everything succeeded gives back the regions, the
  windows and the timer interrupt, but neither the nested interrupt nor the four interrupt
  descriptors, which nothing in the driver ever frees. The kernel is assumed to call the remove
  function when the driver is unregistered.
\<close>

theorem exit_leaks_nested_irq:
  assumes unregister: "\<And>rm. plat rm = seqE rm (release (PlatformDriver DEVICE_NAME))"
    and "probe_ok e" "request_irq_ret e = 0" "threaded_ret e = 0" "0 \<le> descs_ret e"
    and "irq_map e \<noteq> word_of_int (descs_ret e) + 2"
    and "\<not> my_thread (dmtimer_drv s)" "held s = [PlatformDriver DEVICE_NAME]"
    and "run (dmtimer_probe e dev) s = (Inr 0, t)"
  shows "\<exists>u. run (dmtimer_exit plat) t = (Inr (), u) \<and> misuses u = misuses s \<and>
    held u = [IrqAction (word_of_int (descs_ret e) + 2), IrqDescs (word_of_int (descs_ret e)) 4]"
proof -
  have p: "held t = probed_irqs e @ probed_io e @ held s" "enable_base_addr (dmtimer_drv t) = cm_map e"
    "timer7_base (dmtimer_drv t) = t7_map e" "virq (dmtimer_drv t) = irq_map e"
    "klog t = klog s @ timer_writes (cm_map e) (t7_map e)" "\<not> my_thread (dmtimer_drv t)"
    using wp_InrD [OF wp_dmtimer_probe [OF assms(2)] assms(9)] assms(7) by simp_all
  have "wp (dmtimer_exit plat) (\<lambda>_ u. misuses u = misuses s \<and>
      held u = [IrqAction (word_of_int (descs_ret e) + 2), IrqDescs (word_of_int (descs_ret e)) 4])
      (\<lambda>_ _. False) t"
    using assms(3-6,8) p(4-6)
    by (simp add: dmtimer_exit_def unregister wp_simps wp_dmtimer_remove [OF assms(2) p(1-3)]
        probed_irqs_def misuses_def timer_writes_def)
  from wp_total [OF this] show ?thesis by simp
qed

theorem exit_leaks_nested_irq_witness:
  "\<exists>t u. run (dmtimer_probe sample_probe ''timer7'') (sample_dmt\<lparr>held := [PlatformDriver DEVICE_NAME]\<rparr>) = (Inr 0, t) \<and>
     run (dmtimer_exit (\<lambda>rm. seqE rm (release (PlatformDriver DEVICE_NAME)))) t = (Inr (), u) \<and>
     held u = [IrqAction 202, IrqDescs 200 4]"
proof -
  let ?s = "sample_dmt\<lparr>held := [PlatformDriver DEVICE_NAME]\<rparr>"
  obtain t where t: "run (dmtimer_probe sample_probe ''timer7'') ?s = (Inr 0, t)"
    using wp_total [OF wp_dmtimer_probe [OF sample_probe_ok]] by blast
  have "\<exists>u. run (dmtimer_exit (\<lambda>rm. seqE rm (release (PlatformDriver DEVICE_NAME)))) t = (Inr (), u) \<and>
      misuses u = misuses ?s \<and>
      held u = [IrqAction (word_of_int (descs_ret sample_probe) + 2), IrqDescs (word_of_int (descs_ret sample_probe)) 4]"
    by (rule exit_leaks_nested_irq [OF refl sample_probe_ok _ _ _ _ _ _ t])
       (simp_all add: sample_probe_def sample_dmt_def)
  with t show ?thesis by (auto simp: sample_probe_def)
qed

end
