(* ===== verification/Dmtimer_Debug.thy ===== *)
theory Dmtimer_Debug
  imports Dmtimer
begin

text \<open>
  The timer driver \<open>src/lkml/dmtimer/dmtimer.c\<close> as it is built with \<open>DEBUG\<close> defined: the probe function
  also starts a kernel thread that prints the timer's registers every second.
\<close>

section \<open>The printing thread\<close>

definition print_reg :: "(u32 \<Rightarrow> u32) \<Rightarrow> string \<Rightarrow> u32 \<Rightarrow> unit dmt_prog" where
  "print_reg hw name off =
     bindE (gets dmtimer_drv) (\<lambda>d.
     bindE (ioread32 hw (timer7_base d + off)) (\<lambda>v. klog_add (Printk (name @ '':'' @ hex (unat v)))))"

text \<open>
  The argument counts how often \<open>kthread_should_stop\<close> still answers no; the registers may hold other
  values in every round.
\<close>

primrec read_timer :: "(nat \<Rightarrow> u32 \<Rightarrow> u32) \<Rightarrow> nat \<Rightarrow> int dmt_prog" where
  "read_timer hw 0 = ret 0"
| "read_timer hw (Suc n) =
     bindE (gets dmtimer_drv) (\<lambda>d.
     if enable_base_addr d = 0 \<or> timer7_base d = 0 then ret 0
     else
       seqE (print_reg (hw n) ''TCLR'' 0x38)
       (seqE (print_reg (hw n) ''TCRR'' 0x3C)
       (seqE (print_reg (hw n) ''TINT7-EN'' 0x2c)
       (seqE (print_reg (hw n) ''TINT7-CLR'' 0x30)
       (seqE (print_reg (hw n) ''TLDR'' 0x40)
       (seqE (print_reg (hw n) ''TINT STAT'' 0x28)
             (read_timer hw n)))))))"

text \<open>
  The end of the probe function: the pointer that \<open>kthread_run\<close> answers is stored without a test, so
  that an error pointer counts as a thread.
\<close>

definition dmtimer_probe_debug :: "probe_env \<Rightarrow> task_ptr \<Rightarrow> string \<Rightarrow> int dmt_prog" where
  "dmtimer_probe_debug e kthread_run dev =
     bindE (dmtimer_probe e dev) (\<lambda>r.
     if r \<noteq> 0 then ret r
     else
       seqE (if_then (kthread_run = KTask) (acquire (Kthread ''TIMER7-Read'')))
       (seqE (drv_upd (\<lambda>d. d\<lparr>my_thread := (kthread_run \<noteq> KNull)\<rparr>))
             (ret 0)))"

section \<open>Properties\<close>

definition timer_lines :: "(u32 \<Rightarrow> u32) \<Rightarrow> u32 \<Rightarrow> kevent list" where
  "timer_lines hw t7 = map (\<lambda>(n, k). Printk (n @ '':'' @ hex (unat (hw (t7 + k)))))
     [(''TCLR'', 0x38), (''TCRR'', 0x3C), (''TINT7-EN'', 0x2c), (''TINT7-CLR'', 0x30), (''TLDR'', 0x40), (''TINT STAT'', 0x28)]"

lemma wp_print_reg:
  assumes "windows_ok (held s) (dmtimer_drv s)" "unat k \<le> 0x3fc"
  shows "wp (print_reg hw name k) Q E s = Q () (s\<lparr>klog := klog s @ [Printk (name @ '':'' @ hex (unat (hw (timer7_base (dmtimer_drv s) + k))))]\<rparr>)"
  using assms by (simp add: print_reg_def wp_simps)

lemma run_read_timer:
  assumes "windows_ok (held s) (dmtimer_drv s)" "enable_base_addr (dmtimer_drv s) \<noteq> 0" "timer7_base (dmtimer_drv s) \<noteq> 0"
  shows "run (read_timer hw n) s =
    (Inr 0, s\<lparr>klog := klog s @ concat (map (\<lambda>i. timer_lines (hw i) (timer7_base (dmtimer_drv s))) (rev [0..<n]))\<rparr>)"
  using assms
proof (induction n arbitrary: s)
  case (Suc n)
  let ?s = "s\<lparr>klog := klog s @ timer_lines (hw n) (timer7_base (dmtimer_drv s))\<rparr>"
  have "wp (read_timer hw (Suc n)) Q E s = wp (read_timer hw n) Q E ?s" for Q E
    using Suc.prems by (simp add: wp_simps wp_print_reg timer_lines_def)
  with Suc.IH [of ?s] Suc.prems show ?case by (intro wp_runI) (simp add: wp_def)
qed simp

text \<open>
  C25. While the device is bound the thread prints its six registers in each round, all of them inside the
  mapped window; once the device is removed, which does not stop the thread, its next round faults on
  the first register.
\<close>

theorem read_timer_bound_unbound:
  assumes "probe_ok e" "run (dmtimer_probe_debug e KTask dev) s = (Inr 0, t)" "\<forall>b l. IoWindow b l \<notin> set (held s)"
  shows "run (read_timer hw n) t =
      (Inr 0, t\<lparr>klog := klog t @ concat (map (\<lambda>i. timer_lines (hw i) (t7_map e)) (rev [0..<n]))\<rparr>) \<and>
    my_thread (dmtimer_drv t) \<and>
    (\<exists>u. run dmtimer_remove t = (Inr 0, u) \<and> Kthread ''TIMER7-Read'' \<in> set (held u) \<and>
       fst (run (read_timer hw (Suc n)) u) = Inl (BadIo (t7_map e + 0x38)))"
proof -
  obtain t0 where t0: "run (dmtimer_probe e dev) s = (Inr 0, t0)"
    and t: "t = t0\<lparr>held := Kthread ''TIMER7-Read'' # held t0, dmtimer_drv := (dmtimer_drv t0)\<lparr>my_thread := True\<rparr>\<rparr>"
    using assms(2)
    by (auto simp: dmtimer_probe_debug_def drv_upd_def acquire_def prog_simps split: sum.splits prod.splits if_splits)
  have p: "held t0 = probed_irqs e @ probed_io e @ held s" "enable_base_addr (dmtimer_drv t0) = cm_map e"
    "timer7_base (dmtimer_drv t0) = t7_map e"
    using wp_InrD [OF wp_dmtimer_probe [OF assms(1)] t0] by simp_all
  have win: "windows_ok (held t) (dmtimer_drv t)" "enable_base_addr (dmtimer_drv t) \<noteq> 0" "timer7_base (dmtimer_drv t) \<noteq> 0"
    using assms(1) p by (simp_all add: t windows_ok_def probed_io_def probe_ok_def)
  let ?u = "t\<lparr>klog := klog t @ [W32 (t7_map e + 0x7c) 0, W32 (t7_map e + 0x2c) 0],
     held := Kthread ''TIMER7-Read'' # probed_irqs e @ held s\<rparr>"
  have "run dmtimer_remove t = (Inr 0, ?u)"
  proof (rule wp_runI)
    have "held t = Kthread ''TIMER7-Read'' # probed_irqs e @ probed_io e @ held s" "cm_map e \<noteq> t7_map e"
      "enable_base_addr (dmtimer_drv t) = cm_map e" "timer7_base (dmtimer_drv t) = t7_map e"
      using assms(1) p by (simp_all add: t probe_ok_def)
    then show "wp dmtimer_remove (\<lambda>a u. a = 0 \<and> u = ?u) (\<lambda>_ _. False) t"
      using windows_ok_io(2) [OF win(1)]
      by (simp add: dmtimer_remove_def wp_simps probed_io_def remove1_append dmtimer_consts)
  qed
  moreover have "\<not> io_ok (held ?u) a n" for a n
    using assms(3) by (auto simp: io_ok_def list_ex_iff probed_irqs_def split: kres.splits)
  then have "fst (run (read_timer hw (Suc n)) ?u) = Inl (BadIo (t7_map e + 0x38))"
    using win(2,3) p(3) by (simp add: print_reg_def ioread32_def prog_simps t)
  ultimately show ?thesis
    using run_read_timer [OF win, of hw n] p(3) by (auto simp: t)
qed

theorem read_timer_bound_unbound_witness:
  "\<exists>t u. run (dmtimer_probe_debug sample_probe KTask ''timer7'') sample_dmt = (Inr 0, t) \<and> run dmtimer_remove t = (Inr 0, u) \<and>
     fst (run (read_timer (\<lambda>_ _. 0) 3) t) = Inr 0 \<and> fst (run (read_timer (\<lambda>_ _. 0) 3) u) = Inl (BadIo (t7_map sample_probe + 0x38))"
proof -
  obtain t0 where "run (dmtimer_probe sample_probe ''timer7'') sample_dmt = (Inr 0, t0)"
    using wp_total [OF wp_dmtimer_probe [OF sample_probe_ok]] by blast
  then obtain t where t: "run (dmtimer_probe_debug sample_probe KTask ''timer7'') sample_dmt = (Inr 0, t)"
    by (auto simp: dmtimer_probe_debug_def drv_upd_def acquire_def prog_simps)
  have "\<forall>b l. IoWindow b l \<notin> set (held sample_dmt)" by (simp add: sample_dmt_def)
  note both = read_timer_bound_unbound [OF sample_probe_ok t this, of "\<lambda>_ _. 0"]
  from both [of 2] obtain u where "run dmtimer_remove t = (Inr 0, u)"
    "fst (run (read_timer (\<lambda>_ _. 0) (Suc 2)) u) = Inl (BadIo (t7_map sample_probe + 0x38))" by blast
  with t both [of 3] show ?thesis by (metis eval_nat_numeral(3) fst_conv)
qed

end
