(* ===== verification/Ehrpwm.thy ===== *)
theory Ehrpwm
  imports Kernel C_String
begin

text \<open>
  The PWM driver: \<open>src/lkml/ehrpwm/ehrpwm.c\<close> with the register offsets of \<open>pwm.h\<close>. The parent
  device belongs to TI's driver: its driver data, that is, the base of the PWM subsystem window, is an
  argument, like the resource of the device tree, the answers of the memory requests, and the
  values the registers give when read. The call \<open>releaae_mem_region\<close> of the remove function, which
  no header declares, is read as \<open>release_mem_region\<close>.
\<close>

section \<open>Constants and state\<close>

definition CM_PERS_REGBASE :: u32 where "CM_PERS_REGBASE = 0x44E00000"
definition CM_PERS_REGLEN :: u32 where "CM_PERS_REGLEN = 0x400"
definition PWMSS_REGLEN :: u32 where "PWMSS_REGLEN = 0x10"
definition CTRL_BASE :: u32 where "CTRL_BASE = 0x44E10000 + 0x664"

definition TBCTL :: u32 where "TBCTL = 0x00"
definition TBCNT :: u32 where "TBCNT = 0x08"
definition TBPRD :: u32 where "TBPRD = 0x0A"
definition CMPCTL :: u32 where "CMPCTL = 0x0E"
definition CMPA :: u32 where "CMPA = 0x12"
definition CMPB :: u32 where "CMPB = 0x14"
definition AQCTLB :: u32 where "AQCTLB = 0x18"

lemmas pwm_consts = CM_PERS_REGBASE_def CM_PERS_REGLEN_def PWMSS_REGLEN_def CTRL_BASE_def TBCTL_def
  TBCNT_def TBPRD_def CMPCTL_def CMPA_def CMPB_def AQCTLB_def

text \<open>The driver's global structure, less \<open>pdev\<close>, \<open>pwmss_base\<close> and \<open>virq\<close>, which nothing reads or writes.\<close>

record ehrpwm_struct =
  r_mem :: "(u32 \<times> u32) option"
  pwm_base :: u32
  cm_pers_base :: u32
  ctrl :: u32
  my_thread :: task_ptr

record pwm_st = kst +
  epwm :: ehrpwm_struct

type_synonym 'a pwm_prog = "(pwm_st, koops, 'a) prog"

definition epwm_upd :: "(ehrpwm_struct \<Rightarrow> ehrpwm_struct) \<Rightarrow> unit pwm_prog" where
  "epwm_upd f = modify (\<lambda>s. s\<lparr>epwm := f (epwm s)\<rparr>)"

definition resource_size :: "u32 \<times> u32 \<Rightarrow> u32" where
  "resource_size r = snd r - fst r + 1"

text \<open>
  One probe: the memory resource (first and last address), whether the three regions are free, the
  three virtual bases, the driver data of the parent, what \<open>ioread32\<close> sees, and what \<open>kthread_run\<close>
  answers.
\<close>

record pwm_env =
  mem_res :: "(u32 \<times> u32) option"
  mem_free :: bool
  cm_free :: bool
  ctrl_free :: bool
  ctrl_map :: u32
  pwm_map :: u32
  cm_map :: u32
  drvdata :: "u32 option"
  regs32 :: "u32 \<Rightarrow> u32"
  kthread_answer :: task_ptr

section \<open>The reading thread\<close>

definition print16 :: "(u32 \<Rightarrow> u16) \<Rightarrow> string \<Rightarrow> u32 \<Rightarrow> unit pwm_prog" where
  "print16 hw name a = bindE (ioread16 hw a) (\<lambda>v. klog_add (Printk (name @ '': '' @ hex (unat v))))"

definition print32 :: "(u32 \<Rightarrow> u32) \<Rightarrow> string \<Rightarrow> u32 \<Rightarrow> unit pwm_prog" where
  "print32 hw name a = bindE (ioread32 hw a) (\<lambda>v. klog_add (Printk (name @ '': '' @ hex (unat v))))"

text \<open>
  The argument of \<open>read_pwm\<close> counts how often \<open>kthread_should_stop\<close> still answers no; the
  registers may hold other values in every round.
\<close>

primrec read_pwm :: "(nat \<Rightarrow> u32 \<Rightarrow> u16) \<Rightarrow> (nat \<Rightarrow> u32 \<Rightarrow> u32) \<Rightarrow> nat \<Rightarrow> int pwm_prog" where
  "read_pwm hw16 hw32 0 = ret 0"
| "read_pwm hw16 hw32 (Suc n) =
     bindE (gets epwm) (\<lambda>e.
     if pwm_base e = 0 then ret 0
     else
       seqE (print16 (hw16 n) ''TBCNT'' (pwm_base e + TBCNT))
       (seqE (print16 (hw16 n) ''TBCTL'' (pwm_base e + TBCTL))
       (seqE (print16 (hw16 n) ''TBPRD'' (pwm_base e + TBPRD))
       (seqE (print32 (hw32 n) ''CM_0'' (cm_pers_base e))
       (seqE (print32 (hw32 n) ''CM_60'' (cm_pers_base e + 0x60))
       (seqE (print32 (hw32 n) ''CM_D4'' (cm_pers_base e + 0xD4))
             (read_pwm hw16 hw32 n)))))))"

section \<open>Probe and remove\<close>

text \<open>The values the probe function computes in its variable \<open>reg\<close>.\<close>

definition tbctl_value :: u16 where
  "tbctl_value = (1 OR push_bit 7 7) OR push_bit 10 7"

definition aqctlb_value :: u16 where
  "aqctlb_value = 1 OR push_bit 6 3"

definition enable_clocks :: "(u32 \<Rightarrow> u32) \<Rightarrow> u32 \<Rightarrow> unit pwm_prog" where
  "enable_clocks hw pwmss_base =
     bindE (gets epwm) (\<lambda>e.
     seqE (iowrite32 (push_bit 8 1) (pwmss_base + 0x08))
     (seqE (iowrite32 (push_bit 2 1) (pwmss_base + 0x04))
     (seqE (ioread32 hw (pwmss_base + 0x0C))
     (seqE (ioread32 hw (pwmss_base + 0x4))
     (seqE (iowrite32 0x02 (cm_pers_base e))
     (seqE (iowrite32 0x02 (cm_pers_base e + 0x60))
           (iowrite32 0x02 (cm_pers_base e + 0xD4))))))))"

definition program_pwm :: "unit pwm_prog" where
  "program_pwm =
     bindE (gets epwm) (\<lambda>e.
     seqE (iowrite16 tbctl_value (pwm_base e + TBCTL))
     (seqE (iowrite16 0xFFFF (pwm_base e + TBCNT))
     (seqE (iowrite16 0xFFFF (pwm_base e + TBPRD))
     (seqE (iowrite16 0x00 (pwm_base e + CMPCTL))
     (seqE (iowrite16 0xFF00 (pwm_base e + CMPA))
     (seqE (iowrite16 0xFF00 (pwm_base e + CMPB))
           (iowrite16 aqctlb_value (pwm_base e + AQCTLB))))))))"

text \<open>
  Every failure up to the mapping is only reported, and execution goes on: without a resource the
  next statement dereferences NULL.
\<close>

definition pwm_probe :: "pwm_env \<Rightarrow> int pwm_prog" where
  "pwm_probe v =
     seqE (epwm_upd (\<lambda>e. e\<lparr>r_mem := mem_res v\<rparr>))
     (case mem_res v of
        None \<Rightarrow> throw NullDeref
      | Some r \<Rightarrow>
          seqE (request_mem_region (mem_free v) (fst r) (resource_size r))
          (seqE (request_mem_region (cm_free v) CM_PERS_REGBASE CM_PERS_REGLEN)
          (seqE (request_mem_region (ctrl_free v) CTRL_BASE 4)
          (bindE (ioremap_nocache (ctrl_map v) 4) (\<lambda>c.
          seqE (epwm_upd (\<lambda>e. e\<lparr>ctrl := c\<rparr>))
          (bindE (ioremap_nocache (pwm_map v) (resource_size r)) (\<lambda>p.
          seqE (epwm_upd (\<lambda>e. e\<lparr>pwm_base := p\<rparr>))
          (bindE (ioremap_nocache (cm_map v) CM_PERS_REGLEN) (\<lambda>m.
          seqE (epwm_upd (\<lambda>e. e\<lparr>cm_pers_base := m\<rparr>))
          (seqE (iowrite32 0x01 c)
          (case drvdata v of
             None \<Rightarrow> throw NullDeref
           | Some pwmss_base \<Rightarrow>
               seqE (enable_clocks (regs32 v) pwmss_base)
               (seqE program_pwm
               (seqE (epwm_upd (\<lambda>e. e\<lparr>my_thread := kthread_answer v\<rparr>))
               (seqE (if_then (kthread_answer v = KTask) (acquire (Kthread ''PWM0-REG Read'')))
                     (ret 0)))))))))))))))"

definition pwm_remove :: "int pwm_prog" where
  "pwm_remove =
     bindE (gets epwm) (\<lambda>e.
     seqE (iounmap (cm_pers_base e))
     (seqE (iounmap (pwm_base e))
     (seqE (iounmap (ctrl e))
     (seqE (release (MemRegion CTRL_BASE 4))
     (case r_mem e of
        None \<Rightarrow> throw NullDeref
      | Some r \<Rightarrow>
          seqE (release (MemRegion (fst r) (resource_size r)))
          (seqE (release (MemRegion CM_PERS_REGBASE CM_PERS_REGLEN))
                (ret 0)))))))"

section \<open>Module load and unload\<close>

definition pwm_driver :: "(pwm_env \<Rightarrow> int pwm_prog, int pwm_prog) bus_driver" where
  "pwm_driver = \<lparr>bd_name = ''sk,pwm-dev'', bd_compatible = [''sk,pwm-dev''], bd_probe = pwm_probe, bd_remove = pwm_remove\<rparr>"

definition pwm_init :: "int \<Rightarrow> int pwm_prog" where
  "pwm_init register_ret = acquire_if_ok register_ret (PlatformDriver (bd_name pwm_driver))"

text \<open>
  \<open>kthread_stop\<close> is called on whatever \<open>kthread_run\<close> answered, an error pointer included, which is
  recorded as giving back a thread that is not held. The kernel's \<open>platform_driver_unregister\<close> is an
  argument and gets the remove function.
\<close>

definition pwm_exit :: "(int pwm_prog \<Rightarrow> unit pwm_prog) \<Rightarrow> unit pwm_prog" where
  "pwm_exit platform_driver_unregister =
     bindE (gets epwm) (\<lambda>e.
     seqE (if_then (my_thread e \<noteq> KNull) (release (Kthread ''PWM0-REG Read'')))
          (platform_driver_unregister (bd_remove pwm_driver)))"

section \<open>Lemmas\<close>

lemma wp_epwm_upd [wp_simps]: "wp (epwm_upd f) Q E s = Q () (s\<lparr>epwm := f (epwm s)\<rparr>)"
  by (simp add: epwm_upd_def wp_simps)

definition window_ok :: "kres list \<Rightarrow> u32 \<Rightarrow> u32 \<Rightarrow> bool" where
  "window_ok h b len \<longleftrightarrow> IoWindow b len \<in> set h \<and> unat b + unat len \<le> 2 ^ 32"

lemma window_ok_io:
  "window_ok h b len \<Longrightarrow> unat k + n \<le> unat len \<Longrightarrow> 0 < n \<Longrightarrow> io_ok h (b + k) n"
  by (auto simp: window_ok_def intro!: io_ok_window)

lemma window_ok_base: "window_ok h b len \<Longrightarrow> n \<le> unat len \<Longrightarrow> 0 < n \<Longrightarrow> io_ok h b n"
  using window_ok_io [of h b len 0 n] by simp

lemma window_ok_Cons: "window_ok h b len \<Longrightarrow> window_ok (r # h) b len"
  by (simp add: window_ok_def)

text \<open>What the driver relies on: a resource that covers the registers it uses, and mapped windows.\<close>

definition pwm_env_ok :: "kres list \<Rightarrow> pwm_env \<Rightarrow> u32 \<times> u32 \<Rightarrow> u32 \<Rightarrow> bool" where
  "pwm_env_ok h v r pw \<longleftrightarrow>
     mem_res v = Some r \<and> drvdata v = Some pw \<and> window_ok h pw PWMSS_REGLEN \<and>
     0x1a \<le> unat (resource_size r) \<and>
     unat (pwm_map v) + unat (resource_size r) \<le> 2 ^ 32 \<and> unat (cm_map v) + 0x400 \<le> 2 ^ 32 \<and>
     unat (ctrl_map v) + 4 \<le> 2 ^ 32 \<and>
     pwm_map v \<noteq> 0 \<and> cm_map v \<noteq> 0 \<and> ctrl_map v \<noteq> 0 \<and> distinct [pwm_map v, cm_map v, ctrl_map v]"

definition pwm_regions :: "pwm_env \<Rightarrow> u32 \<times> u32 \<Rightarrow> kres list" where
  "pwm_regions v r =
     (if ctrl_free v then [MemRegion CTRL_BASE 4] else []) @
     (if cm_free v then [MemRegion CM_PERS_REGBASE CM_PERS_REGLEN] else []) @
     (if mem_free v then [MemRegion (fst r) (resource_size r)] else [])"

definition pwm_windows :: "pwm_env \<Rightarrow> u32 \<times> u32 \<Rightarrow> kres list" where
  "pwm_windows v r =
     [IoWindow (cm_map v) 0x400, IoWindow (pwm_map v) (resource_size r), IoWindow (ctrl_map v) 4]"

definition pwm_thread :: "pwm_env \<Rightarrow> kres list" where
  "pwm_thread v = (if kthread_answer v = KTask then [Kthread ''PWM0-REG Read''] else [])"

definition pwm_writes :: "pwm_env \<Rightarrow> u32 \<Rightarrow> kevent list" where
  "pwm_writes v pw =
     [W32 (ctrl_map v) 1, W32 (pw + 8) 0x100, W32 (pw + 4) 4, W32 (cm_map v) 2,
      W32 (cm_map v + 0x60) 2, W32 (cm_map v + 0xD4) 2,
      W16 (pwm_map v) 0x1F81, W16 (pwm_map v + 8) 0xFFFF, W16 (pwm_map v + 0xA) 0xFFFF,
      W16 (pwm_map v + 0xE) 0, W16 (pwm_map v + 0x12) 0xFF00, W16 (pwm_map v + 0x14) 0xFF00,
      W16 (pwm_map v + 0x18) 0xC1]"

lemma wp_enable_clocks:
  assumes "window_ok (held s) pw PWMSS_REGLEN" "window_ok (held s) (cm_pers_base (epwm s)) CM_PERS_REGLEN"
  shows "wp (enable_clocks hw pw) Q E s = Q () (s\<lparr>klog := klog s @
      [W32 (pw + 8) 0x100, W32 (pw + 4) 4, W32 (cm_pers_base (epwm s)) 2,
       W32 (cm_pers_base (epwm s) + 0x60) 2, W32 (cm_pers_base (epwm s) + 0xD4) 2]\<rparr>)"
  by (simp add: enable_clocks_def wp_simps pwm_consts window_ok_io [OF assms(1)]
      window_ok_io [OF assms(2)] window_ok_base [OF assms(2)] push_bit_eq_mult)

lemma wp_program_pwm:
  assumes "window_ok (held s) (pwm_base (epwm s)) len" "0x1a \<le> unat len"
  shows "wp program_pwm Q E s = Q () (s\<lparr>klog := klog s @
      [W16 (pwm_base (epwm s)) 0x1F81, W16 (pwm_base (epwm s) + 8) 0xFFFF,
       W16 (pwm_base (epwm s) + 0xA) 0xFFFF, W16 (pwm_base (epwm s) + 0xE) 0,
       W16 (pwm_base (epwm s) + 0x12) 0xFF00, W16 (pwm_base (epwm s) + 0x14) 0xFF00,
       W16 (pwm_base (epwm s) + 0x18) 0xC1]\<rparr>)"
  using assms(2)
  by (simp add: program_pwm_def wp_simps pwm_consts window_ok_io [OF assms(1)]
      window_ok_base [OF assms(1)] tbctl_value_def aqctlb_value_def push_bit_eq_mult)

lemma wp_pwm_probe:
  assumes "pwm_env_ok (held s) v r pw"
  shows "wp (pwm_probe v) (\<lambda>x t. x = 0 \<and>
      held t = pwm_thread v @ pwm_windows v r @ pwm_regions v r @ held s \<and>
      klog t = klog s @ pwm_writes v pw \<and>
      epwm t = \<lparr>r_mem = Some r, pwm_base = pwm_map v, cm_pers_base = cm_map v, ctrl = ctrl_map v,
        my_thread = kthread_answer v\<rparr>)
    (\<lambda>_ _. False) s"
  using assms
  by (simp add: pwm_probe_def wp_simps pwm_env_ok_def wp_enable_clocks wp_program_pwm [of _ "resource_size r"]
      window_ok_def pwm_consts pwm_writes_def pwm_windows_def pwm_regions_def pwm_thread_def)

text \<open>The state right after a probe that returned.\<close>

lemma pwm_probed:
  assumes "pwm_env_ok (held s) v r pw" "run (pwm_probe v) s = (Inr x, t)"
  shows "held t = pwm_thread v @ pwm_windows v r @ pwm_regions v r @ held s"
    and "klog t = klog s @ pwm_writes v pw"
    and "epwm t = \<lparr>r_mem = Some r, pwm_base = pwm_map v, cm_pers_base = cm_map v, ctrl = ctrl_map v,
        my_thread = kthread_answer v\<rparr>"
  using wp_InrD [OF wp_pwm_probe [OF assms(1)] assms(2)] by simp_all

text \<open>Regions given back by the remove function although they were never obtained.\<close>

definition pwm_wrong_releases :: "pwm_env \<Rightarrow> u32 \<times> u32 \<Rightarrow> kevent list" where
  "pwm_wrong_releases v r =
     (if ctrl_free v then [] else [Misuse (MemRegion CTRL_BASE 4)]) @
     (if mem_free v then [] else [Misuse (MemRegion (fst r) (resource_size r))]) @
     (if cm_free v then [] else [Misuse (MemRegion CM_PERS_REGBASE CM_PERS_REGLEN)])"

definition pwm_regions_apart :: "kres list \<Rightarrow> u32 \<times> u32 \<Rightarrow> bool" where
  "pwm_regions_apart h r \<longleftrightarrow>
     distinct [MemRegion CTRL_BASE 4, MemRegion CM_PERS_REGBASE CM_PERS_REGLEN,
       MemRegion (fst r) (resource_size r)] \<and>
     set [MemRegion CTRL_BASE 4, MemRegion CM_PERS_REGBASE CM_PERS_REGLEN,
       MemRegion (fst r) (resource_size r)] \<inter> set h = {}"

lemma pwm_remove_after_probe:
  assumes "pwm_env_ok (held s) v r pw" "run (pwm_probe v) s = (Inr x, t)" "pwm_regions_apart (held s) r"
  shows "run pwm_remove t = (Inr 0, t\<lparr>held := pwm_thread v @ held s,
    klog := klog t @ pwm_wrong_releases v r\<rparr>)"
proof -
  have "cm_map v \<noteq> pwm_map v" "cm_map v \<noteq> ctrl_map v" "pwm_map v \<noteq> ctrl_map v"
    using assms(1) by (auto simp: pwm_env_ok_def)
  then show ?thesis
    using assms(3) pwm_probed [OF assms(1,2)]
    by (intro wp_runI, cases "ctrl_free v"; cases "mem_free v"; cases "cm_free v")
       (simp_all add: pwm_remove_def wp_simps pwm_windows_def pwm_regions_def pwm_thread_def
         pwm_wrong_releases_def pwm_regions_apart_def eq_commute [of _ "fst r"]
         eq_commute [of _ "resource_size r"] pwm_consts)
qed

definition reg_lines :: "(u32 \<Rightarrow> u16) \<Rightarrow> (u32 \<Rightarrow> u32) \<Rightarrow> ehrpwm_struct \<Rightarrow> kevent list" where
  "reg_lines hw16 hw32 e =
     map (\<lambda>(n, a). Printk (n @ '': '' @ hex (unat (hw16 (pwm_base e + a)))))
       [(''TBCNT'', 8), (''TBCTL'', 0), (''TBPRD'', 0xA)] @
     map (\<lambda>(n, a). Printk (n @ '': '' @ hex (unat (hw32 (cm_pers_base e + a)))))
       [(''CM_0'', 0), (''CM_60'', 0x60), (''CM_D4'', 0xD4)]"

lemma run_read_pwm:
  assumes "window_ok (held s) (pwm_base (epwm s)) len" "0x1a \<le> unat len" "pwm_base (epwm s) \<noteq> 0"
    "window_ok (held s) (cm_pers_base (epwm s)) CM_PERS_REGLEN"
  shows "run (read_pwm hw16 hw32 n) s = (Inr 0, s\<lparr>klog := klog s @
    concat (map (\<lambda>i. reg_lines (hw16 i) (hw32 i) (epwm s)) (rev [0..<n]))\<rparr>)"
  using assms
proof (induction n arbitrary: s)
  case (Suc n)
  let ?s = "s\<lparr>klog := klog s @ reg_lines (hw16 n) (hw32 n) (epwm s)\<rparr>"
  have "wp (read_pwm hw16 hw32 (Suc n)) Q E s = wp (read_pwm hw16 hw32 n) Q E ?s" for Q E
    using Suc.prems
    by (simp add: print16_def print32_def wp_simps pwm_consts reg_lines_def
        window_ok_io [OF Suc.prems(1)] window_ok_base [OF Suc.prems(1)]
        window_ok_io [OF Suc.prems(4)] window_ok_base [OF Suc.prems(4)])
  with Suc.IH [of ?s] Suc.prems show ?case by (intro wp_runI) (simp add: wp_def)
qed simp

section \<open>Properties\<close>

definition sample_pwm_env :: pwm_env where
  "sample_pwm_env = \<lparr>mem_res = Some (0x48300200, 0x4830025F), mem_free = True, cm_free = True,
     ctrl_free = True, ctrl_map = 0xF0000000, pwm_map = 0xF1000000, cm_map = 0xF2000000,
     drvdata = Some 0xF3000000, regs32 = (\<lambda>_. 0), kthread_answer = KTask\<rparr>"

definition sample_pwm :: pwm_st where
  "sample_pwm = \<lparr>held = [IoWindow 0xF3000000 0x10], klog = [],
     epwm = \<lparr>r_mem = None, pwm_base = 0, cm_pers_base = 0, ctrl = 0, my_thread = KNull\<rparr>\<rparr>"

lemma sample_pwm_ok:
  "pwm_env_ok (held sample_pwm) (sample_pwm_env\<lparr>mem_free := b\<rparr>) (0x48300200, 0x4830025F) 0xF3000000"
  by (simp add: pwm_env_ok_def sample_pwm_env_def sample_pwm_def window_ok_def resource_size_def pwm_consts)

lemma sample_pwm_same [simp]: "sample_pwm_env\<lparr>mem_free := True\<rparr> = sample_pwm_env"
  by (simp add: sample_pwm_env_def)

lemma sample_pwm_apart: "pwm_regions_apart (held sample_pwm) (0x48300200, 0x4830025F)"
  by (simp add: pwm_regions_apart_def sample_pwm_def resource_size_def pwm_consts)

text \<open>
  C35. With mapped windows the probe function returns 0 and performs exactly these register writes, all
  inside the windows: the pin, the clocks of the PWM subsystem, the clock domains, and then the PWM
  registers with the time base set to count down with both prescalers at their largest value, full
  period, and half-word compare values. It does so whether or not any of the three regions was free.
\<close>

theorem pwm_probe_writes:
  assumes "pwm_env_ok (held s) v r pw"
  shows "\<exists>t. run (pwm_probe v) s = (Inr 0, t) \<and> klog t = klog s @
    [W32 (ctrl_map v) 1, W32 (pw + 8) 0x100, W32 (pw + 4) 4, W32 (cm_map v) 2,
     W32 (cm_map v + 0x60) 2, W32 (cm_map v + 0xD4) 2,
     W16 (pwm_map v) 0x1F81, W16 (pwm_map v + 8) 0xFFFF, W16 (pwm_map v + 0xA) 0xFFFF,
     W16 (pwm_map v + 0xE) 0, W16 (pwm_map v + 0x12) 0xFF00, W16 (pwm_map v + 0x14) 0xFF00,
     W16 (pwm_map v + 0x18) 0xC1]"
  using wp_total [OF wp_pwm_probe [OF assms]] by (auto simp: pwm_writes_def)

theorem pwm_probe_writes_witness:
  "\<exists>t. run (pwm_probe sample_pwm_env) sample_pwm = (Inr 0, t) \<and> last (klog t) = W16 0xF1000018 0xC1"
  using pwm_probe_writes [OF sample_pwm_ok [of True]] by (auto simp: sample_pwm_env_def)

text \<open>
  Without a memory resource the probe function does not return an error: it dereferences NULL.
\<close>

theorem pwm_probe_without_resource:
  assumes "mem_res v = None"
  shows "fst (run (pwm_probe v) s) = Inl NullDeref"
  using assms by (simp add: pwm_probe_def epwm_upd_def prog_simps)

theorem pwm_probe_without_resource_witness:
  "fst (run (pwm_probe (sample_pwm_env\<lparr>mem_res := None\<rparr>)) sample_pwm) = Inl NullDeref"
  by (rule pwm_probe_without_resource) simp



text \<open>
  While the device is bound the reading thread runs without a fault for as many rounds as it is
  not told to stop, printing the six registers in every round, and ends with 0 when it is told.
  After the device is unbound the thread is still there with the old addresses, and its next round
  faults.
\<close>

theorem read_thread_bound_unbound:
  assumes "pwm_env_ok (held s) v r pw" "pwm_regions_apart (held s) r" "run (pwm_probe v) s = (Inr x, t)"
    and "\<forall>b l. IoWindow b l \<in> set (held s) \<longrightarrow> b = pw \<and> l = PWMSS_REGLEN"
    and "unat (pwm_map v) + 0x1a \<le> unat pw \<or> unat pw + 0x10 \<le> unat (pwm_map v)"
  shows "(\<exists>u. run (read_pwm hw16 hw32 n) t = (Inr 0, u) \<and> length (klog u) = length (klog t) + 6 * n) \<and>
    (\<exists>u. run pwm_remove t = (Inr 0, u) \<and>
       fst (run (read_pwm hw16 hw32 (Suc n)) u) = Inl (BadIo (pwm_map v + 8)))"
proof
  note p = pwm_probed [OF assms(1,3)]
  have "window_ok (held t) (pwm_base (epwm t)) (resource_size r)"
    "window_ok (held t) (cm_pers_base (epwm t)) CM_PERS_REGLEN"
    using assms(1) p by (simp_all add: window_ok_def pwm_env_ok_def pwm_windows_def pwm_consts)
  then show "\<exists>u. run (read_pwm hw16 hw32 n) t = (Inr 0, u) \<and> length (klog u) = length (klog t) + 6 * n"
    using run_read_pwm [of t "resource_size r" hw16 hw32 n] assms(1) p(3)
    by (simp add: pwm_env_ok_def length_concat reg_lines_def comp_def sum_list_triv)
  have "unat (pwm_map v + 8) = unat (pwm_map v) + 8"
    using assms(1) by (simp add: pwm_env_ok_def unat_word_ariths)
  then have "\<not> io_ok (pwm_thread v @ held s) (pwm_map v + 8) 2"
    using assms(4,5) by (fastforce simp: io_ok_iff pwm_thread_def pwm_consts)
  then show "\<exists>u. run pwm_remove t = (Inr 0, u) \<and>
      fst (run (read_pwm hw16 hw32 (Suc n)) u) = Inl (BadIo (pwm_map v + 8))"
    using pwm_remove_after_probe [OF assms(1,3,2)] p(3) assms(1)
    by (simp add: prog_simps print16_def ioread16_def pwm_env_ok_def TBCNT_def)
qed

theorem read_thread_bound_unbound_witness:
  "\<exists>t u. run (pwm_probe sample_pwm_env) sample_pwm = (Inr 0, t) \<and> run pwm_remove t = (Inr 0, u) \<and>
     fst (run (read_pwm (\<lambda>_ _. 0) (\<lambda>_ _. 0) 1) u) = Inl (BadIo 0xF1000008)"
proof -
  note ok = sample_pwm_ok [of True, simplified]
  obtain t where t: "run (pwm_probe sample_pwm_env) sample_pwm = (Inr 0, t)"
    using wp_total [OF wp_pwm_probe [OF ok]] by blast
  with read_thread_bound_unbound [OF ok sample_pwm_apart t, of "\<lambda>_ _. 0" "\<lambda>_ _. 0" 0]
  show ?thesis by (auto simp: sample_pwm_def sample_pwm_env_def PWMSS_REGLEN_def)
qed

end
