(* ===== verification/Netfilter.thy ===== *)
theory Netfilter
  imports Kernel C_String
begin

text \<open>
  The packet filter of \<open>src/lkml/netfilter/netfilter.c\<close>: one global verdict, set through a sysfs file
  and returned by a hook on each direction. \<open>kobject_create_and_add\<close>, \<open>sysfs_create_file\<close> and
  \<open>nf_register_hook\<close> are the kernel's: their answers are arguments.
\<close>

section \<open>State\<close>

datatype verdict = NF_ACCEPT | NF_DROP

record nf_hook_ops =
  hook :: string
  pf :: string
  hooknum :: nat
  priority :: string

record nf_st = kst +
  nf_ret :: verdict
  dkobj :: bool
  inp_hook :: nf_hook_ops
  outp_hook :: nf_hook_ops

section \<open>Operations\<close>

definition nf_show :: string where
  "nf_show = ''0: Allow Comm, 1: Disable Comm'' @ [CHR 0x0A]"

text \<open>The integer \<open>rt\<close> is 0 unless \<open>sscanf\<close> stores a number in it.\<close>

definition nf_store :: "string \<Rightarrow> nat \<Rightarrow> 'y nf_st_scheme \<Rightarrow> nat \<times> 'y nf_st_scheme" where
  "nf_store buf count s =
     (let rt = (case sscanf_u buf of None \<Rightarrow> 0 | Some v \<Rightarrow> v) in
      (count, if rt = 0 then s\<lparr>nf_ret := NF_ACCEPT\<rparr>
              else if rt = 1 then s\<lparr>nf_ret := NF_DROP\<rparr>
              else s))"

definition rx_hook_func :: "'y nf_st_scheme \<Rightarrow> verdict" where
  "rx_hook_func s = nf_ret s"

definition tx_hook_func :: "'y nf_st_scheme \<Rightarrow> verdict" where
  "tx_hook_func s = nf_ret s"

record nf_env =
  kobject_ok :: bool
  sysfs_ret :: int
  in_hook_ret :: int
  out_hook_ret :: int

text \<open>
  The return values of the two hook registrations are ignored. When the file cannot be created the
  directory is given back, but loading goes on.
\<close>

definition nf_module :: "nf_env \<Rightarrow> (nf_st, koops, int) prog" where
  "nf_module e =
     seqE (modify (\<lambda>s. s\<lparr>dkobj := kobject_ok e\<rparr>))
     (seqE (if_then (kobject_ok e) (acquire (KObject ''netfilter-ex'')))
     (if \<not> kobject_ok e then ret (- ENOMEM)
      else
        seqE (if_then (sysfs_ret e \<noteq> 0) (release (KObject ''netfilter-ex'')))
        (seqE (modify (\<lambda>s. s\<lparr>
            inp_hook := \<lparr>hook = ''rx_hook_func'', pf = ''PF_INET'', hooknum = 0, priority = ''NF_IP_PRI_FIRST''\<rparr>,
            outp_hook := \<lparr>hook = ''tx_hook_func'', pf = ''PF_INET'', hooknum = 4, priority = ''NF_IP_PRI_FIRST''\<rparr>\<rparr>))
        (seqE (acquire_if_ok (in_hook_ret e) (NfHook ''inp_hook''))
        (seqE (acquire_if_ok (out_hook_ret e) (NfHook ''outp_hook''))
              (ret 0))))))"

definition remove_hooks :: "(nf_st, koops, unit) prog" where
  "remove_hooks =
     seqE (release (KObject ''netfilter-ex''))
     (seqE (release (NfHook ''inp_hook''))
           (release (NfHook ''outp_hook'')))"

section \<open>Writes and packets in sequence\<close>

text \<open>
  A run of the module: writes to the file and packets in either direction, in any order. The result
  lists the verdict of every packet.
\<close>

datatype nf_event = Write string | PacketIn | PacketOut

fun nf_run :: "nf_event list \<Rightarrow> 'y nf_st_scheme \<Rightarrow> verdict list" where
  "nf_run [] s = []"
| "nf_run (Write buf # es) s = nf_run es (snd (nf_store buf (length buf) s))"
| "nf_run (PacketIn # es) s = rx_hook_func s # nf_run es s"
| "nf_run (PacketOut # es) s = tx_hook_func s # nf_run es s"

text \<open>
  The specification: a write is a command to accept, a command to drop, or no command; each packet
  gets the verdict of the last command before it.
\<close>

definition command :: "string \<Rightarrow> verdict option" where
  "command buf =
     (case sscanf_u buf of
        None \<Rightarrow> Some NF_ACCEPT
      | Some v \<Rightarrow> if v = 0 then Some NF_ACCEPT else if v = 1 then Some NF_DROP else None)"

fun commands :: "nf_event list \<Rightarrow> verdict list" where
  "commands [] = []"
| "commands (Write buf # es) = (case command buf of None \<Rightarrow> commands es | Some v \<Rightarrow> v # commands es)"
| "commands (_ # es) = commands es"

definition spec_verdict :: "verdict \<Rightarrow> nf_event list \<Rightarrow> verdict" where
  "spec_verdict v0 es = last (v0 # commands es)"

fun is_packet :: "nf_event \<Rightarrow> bool" where
  "is_packet (Write _) = False"
| "is_packet _ = True"

lemma nf_store_command:
  "snd (nf_store buf n s) = (case command buf of None \<Rightarrow> s | Some v \<Rightarrow> s\<lparr>nf_ret := v\<rparr>)"
  by (auto simp: nf_store_def command_def Let_def split: option.splits)

lemma spec_verdict_simps [simp]:
  "spec_verdict v [] = v"
  "spec_verdict v (Write buf # es) = spec_verdict (case command buf of None \<Rightarrow> v | Some w \<Rightarrow> w) es"
  "spec_verdict v (PacketIn # es) = spec_verdict v es"
  "spec_verdict v (PacketOut # es) = spec_verdict v es"
  by (auto simp: spec_verdict_def split: option.splits)

lemma nf_run_append_packet:
  "is_packet p \<Longrightarrow> nf_run (es @ [p]) s = nf_run es s @ [spec_verdict (nf_ret s) es]"
proof (induction es s rule: nf_run.induct)
  case (1 s)
  then show ?case by (cases p) (simp_all add: rx_hook_func_def tx_hook_func_def)
next
  case (2 buf es s)
  then show ?case by (simp add: nf_store_command split: option.splits)
qed simp_all

lemma nf_run_append_write: "nf_run (es @ [Write buf]) s = nf_run es s"
  by (induction es s rule: nf_run.induct) simp_all

section \<open>The module\<close>

definition nf_env_ok :: "nf_env \<Rightarrow> bool" where
  "nf_env_ok e = (sysfs_ret e = 0 \<and> in_hook_ret e = 0 \<and> out_hook_ret e = 0)"

interpretation nf: module_lifecycle nf_module "\<lambda>_. remove_hooks" nf_env_ok
  by unfold_locales
     (auto simp: nf_module_def remove_hooks_def nf_env_ok_def prog_simps same_books_def errno_defs
        misuses_def split: if_splits)

section \<open>Properties\<close>

definition sample_nf :: nf_st where
  "sample_nf = \<lparr>held = [], klog = [], nf_ret = NF_ACCEPT, dkobj = False,
     inp_hook = \<lparr>hook = [], pf = [], hooknum = 0, priority = []\<rparr>,
     outp_hook = \<lparr>hook = [], pf = [], hooknum = 0, priority = []\<rparr>\<rparr>"

text \<open>
  C15. Whatever writes and packets happen in whatever order, the verdicts are those of the
  specification: the verdict of a packet, incoming or outgoing, is that of the last write before it
  that was a command, or the initial verdict if there was none.
\<close>

theorem verdicts_follow_last_command:
  assumes "es ! i = p" "i < length es" "is_packet p"
  shows "nf_run es s ! length (filter is_packet (take i es)) = spec_verdict (nf_ret s) (take i es)"
proof -
  have len: "length (nf_run xs s) = length (filter is_packet xs)" for xs and s :: "'a nf_st_scheme"
    by (induction xs s rule: nf_run.induct) simp_all
  have pre: "\<exists>ys. nf_run (xs @ zs) s = nf_run xs s @ ys" for xs zs
    by (induction xs s rule: nf_run.induct) auto
  have "es = (take i es @ [p]) @ drop (Suc i) es"
    using assms(1,2) id_take_nth_drop by fastforce
  then obtain ys where "nf_run es s = nf_run (take i es @ [p]) s @ ys"
    using pre by metis
  then have "nf_run es s = nf_run (take i es) s @ spec_verdict (nf_ret s) (take i es) # ys"
    by (simp add: nf_run_append_packet assms(3))
  then show ?thesis using len [of "take i es" s] by (metis nth_append_length)
qed

theorem verdicts_follow_last_command_witness:
  "nf_run [PacketIn, Write ''1'', PacketOut, Write ''7'', PacketIn] sample_nf ! 2 = NF_DROP"
proof -
  let ?es = "[PacketIn, Write ''1'', PacketOut, Write ''7'', PacketIn]"
  have "command ''1'' = Some NF_DROP" "command ''7'' = None"
    using sscanf_u_dec [of "[]" 1] sscanf_u_dec [of "[]" 7]
    by (simp_all add: command_def dec.simps)
  with verdicts_follow_last_command [of ?es 4 PacketIn sample_nf] show ?thesis
    by (simp add: sample_nf_def numeral_2_eq_2)
qed

text \<open>
  The command a write stands for: a decimal 0 accepts and a decimal 1 drops, with anything that
  is not a digit after it, and every other number below \<open>2 ^ 32\<close> is ignored; but a write that does
  not start with a digit after white space accepts, so a typing error lifts the block.
\<close>

theorem store_commands:
  assumes "rest = [] \<or> \<not> is_digit (hd rest)" "n < 2 ^ 32"
  shows "nf_ret (snd (nf_store (dec n @ rest) k s)) =
      (if n = 0 then NF_ACCEPT else if n = 1 then NF_DROP else nf_ret s) \<and>
    (\<not> is_digit c \<and> \<not> is_space c \<longrightarrow>
       nf_ret (snd (nf_store (c # rest) k s)) = NF_ACCEPT)"
proof -
  have "(word_of_nat n :: u32) = 0 \<longleftrightarrow> n = 0" "(word_of_nat n :: u32) = 1 \<longleftrightarrow> n = 1"
    using assms(2) by (simp_all add: word_unat_eq_iff unsigned_of_nat take_bit_nat_eq_self)
  then show ?thesis
    using sscanf_u_dec [OF assms(1), of n]
    by (simp add: nf_store_def Let_def) (simp add: sscanf_u_def)
qed

theorem store_commands_witness:
  "nf_ret (snd (nf_store (dec 1 @ [CHR 0x0A]) 2 sample_nf)) = NF_DROP \<and>
   nf_ret (snd (nf_store ''drop'' 4 (sample_nf\<lparr>nf_ret := NF_DROP\<rparr>))) = NF_ACCEPT"
  using store_commands [of "[CHR 0x0A]" 1 2 sample_nf "CHR ''d''"]
    store_commands [of "''rop''" 1 4 "sample_nf\<lparr>nf_ret := NF_DROP\<rparr>" "CHR ''d''"]
  by (simp add: is_digit_def is_space_def)

text \<open>
  C34. Loading and unloading the filter any number of times leaves the books as they were, as long
  as the sysfs file and the hooks are registered without error; a load refused for lack of memory
  leaves nothing behind.
\<close>

theorem filter_load_unload:
  assumes "\<forall>e\<in>set es. nf_env_ok e"
  shows "\<exists>t. run (load_unload nf_module (\<lambda>_. remove_hooks) es) s = (Inr (), t) \<and>
    held t = held s \<and> misuses t = misuses s"
  using nf.cycles [OF assms, of s] by (simp add: same_books_def)

theorem filter_load_unload_witness:
  "\<exists>t. run (load_unload nf_module (\<lambda>_. remove_hooks)
         [\<lparr>kobject_ok = True, sysfs_ret = 0, in_hook_ret = 0, out_hook_ret = 0\<rparr>,
          \<lparr>kobject_ok = False, sysfs_ret = 0, in_hook_ret = 0, out_hook_ret = 0\<rparr>]) sample_nf =
       (Inr (), t) \<and> held t = []"
  using filter_load_unload
    [of "[\<lparr>kobject_ok = True, sysfs_ret = 0, in_hook_ret = 0, out_hook_ret = 0\<rparr>,
          \<lparr>kobject_ok = False, sysfs_ret = 0, in_hook_ret = 0, out_hook_ret = 0\<rparr>]" sample_nf]
  by (auto simp: nf_env_ok_def sample_nf_def)

text \<open>
  If the sysfs file cannot be created, the load still succeeds with both hooks registered, the
  directory has been given back already, and unloading gives it back a second time.
\<close>

theorem failed_sysfs_double_put:
  assumes "kobject_ok e" "sysfs_ret e \<noteq> 0" "in_hook_ret e = 0" "out_hook_ret e = 0"
    and "KObject ''netfilter-ex'' \<notin> set (held s)" "run (nf_module e) s = (Inr r, t)"
  shows "r = 0 \<and> held t = NfHook ''outp_hook'' # NfHook ''inp_hook'' # held s \<and>
    (\<exists>u. run remove_hooks t = (Inr (), u) \<and> misuses u = misuses s @ [Misuse (KObject ''netfilter-ex'')])"
  using assms by (auto simp: nf_module_def remove_hooks_def prog_simps misuses_def)

theorem failed_sysfs_double_put_witness:
  "misuses (snd (run remove_hooks (snd (run (nf_module
      \<lparr>kobject_ok = True, sysfs_ret = - 12, in_hook_ret = 0, out_hook_ret = 0\<rparr>) sample_nf)))) =
   [Misuse (KObject ''netfilter-ex'')]"
proof -
  let ?e = "\<lparr>kobject_ok = True, sysfs_ret = - 12, in_hook_ret = 0, out_hook_ret = 0\<rparr>"
  obtain r t where t: "run (nf_module ?e) sample_nf = (Inr r, t)"
    by (simp add: nf_module_def prog_simps sample_nf_def)
  show ?thesis
    using failed_sysfs_double_put [OF _ _ _ _ _ t] t by (auto simp: sample_nf_def misuses_def)
qed

end
