(* ===== verification/Netcapture.thy ===== *)
theory Netcapture
  imports Kernel C_String
begin

text \<open>
  The packet capture module \<open>src/lkml/network/netcapture.c\<close>. The fields of the socket buffer that
  the handler reads are a record; the reference the handler was given to it is a resource. Byte order
  conversions swap the two bytes of a 16-bit value, as on the little-endian targets of the modules.
\<close>

section \<open>Byte order\<close>

definition ntohs :: "u16 \<Rightarrow> u16" where
  "ntohs x = push_bit 8 x OR drop_bit 8 x"

abbreviation htons :: "u16 \<Rightarrow> u16" where "htons \<equiv> ntohs"

lemma bit_ntohs: "n < 16 \<Longrightarrow> bit (ntohs x) n = (if n < 8 then bit x (n + 8) else bit x (n - 8))"
proof -
  assume "n < 16"
  moreover have "bit x (8 + n) \<Longrightarrow> n < 8" using bit_imp_le_length [of x "8 + n"] by simp
  ultimately show ?thesis by (auto simp: ntohs_def bit_simps add.commute)
qed

lemma ntohs_ntohs [simp]: "ntohs (ntohs x) = x"
proof (rule bit_word_eqI)
  fix n assume "n < LENGTH(16)"
  then have "n - 8 < 8" "n < 8 \<Longrightarrow> n + 8 < 16" by simp_all
  with \<open>n < LENGTH(16)\<close> show "bit (ntohs (ntohs x)) n = bit x n" by (simp add: bit_ntohs)
qed

section \<open>State\<close>

record sk_buff =
  skb_addr :: u32
  pkt_type :: u8
  skb_dev :: string
  protocol :: u16
  ip_protocol :: u8
  vlan_tci :: u16

record packet_type =
  type :: u16
  dev :: "string option"
  func :: bool

record net_st = kst +
  network_packet :: packet_type

type_synonym 'a net_prog = "(net_st, koops, 'a) prog"

definition ETH_P_IP :: u16 where "ETH_P_IP = 0x0800"

section \<open>The handler\<close>

text \<open>The line printed for the packet type, none for a value outside the cases of the switch.\<close>

definition type_line :: "u8 \<Rightarrow> string option" where
  "type_line t =
     (if t = 0 then Some ''@DeathFire PACKET to us''
      else if t = 1 then Some ''@DeathFire : PACKET to all''
      else if t = 2 then Some ''@DeathFire : PACKET to group''
      else if t = 3 then Some ''@DeathFire : PACKET to someone else''
      else if t = 4 then Some ''@DeathFire : PACKET outgoing''
      else if t = 5 then Some ''@DeathFire : PACKET LOOPBACK''
      else if t = 6 then Some ''@DeathFire: PACKET FASTROUTE''
      else None)"

definition vlan_id :: "sk_buff \<Rightarrow> u16" where
  "vlan_id skb = ntohs (vlan_tci skb) AND 0xFFF"

definition packet_rcv :: "sk_buff \<Rightarrow> int net_prog" where
  "packet_rcv skb =
     seqE (klog_add (Printk ''@DeathFire : New packet captured.''))
     (seqE (case type_line (pkt_type skb) of None \<Rightarrow> ret () | Some l \<Rightarrow> klog_add (Printk l))
     (seqE (klog_add (Printk (''Dev: '' @ skb_dev skb @ '' ; 0x'' @ HEX4 (unat (ntohs (protocol skb))) @
        '' ; 0x'' @ HEX4 (unat (ip_protocol skb)))))
     (seqE (klog_add (Printk (''@SK : VLAN ID :'' @ dec (unat (vlan_id skb)))))
     (seqE (release (KMem (skb_addr skb)))
           (ret 0)))))"

section \<open>Module load and unload\<close>

definition CAPTURE_DEV :: string where "CAPTURE_DEV = ''enx0050b6216fee''"

text \<open>
  \<open>dev_get_by_name\<close> finds the interface and takes a reference on it, or answers NULL.
\<close>

definition net_init :: "bool \<Rightarrow> int net_prog" where
  "net_init dev_found =
     seqE (modify (\<lambda>s. s\<lparr>network_packet := (network_packet s)\<lparr>type := htons ETH_P_IP\<rparr>\<rparr>))
     (seqE (if_then dev_found (acquire (NetdevRef CAPTURE_DEV)))
     (seqE (modify (\<lambda>s. s\<lparr>network_packet :=
          (network_packet s)\<lparr>dev := if dev_found then Some CAPTURE_DEV else None, func := True\<rparr>\<rparr>))
     (seqE (acquire (PacketType ''network_packet''))
           (ret 0))))"

definition net_cleanup :: "unit net_prog" where
  "net_cleanup = release (PacketType ''network_packet'')"

text \<open>
  Which packets the stack hands to the registered handler: those of its protocol, on its interface,
  or on every interface when there is none.
\<close>

definition pt_matches :: "packet_type \<Rightarrow> string \<Rightarrow> u16 \<Rightarrow> bool" where
  "pt_matches pt d proto \<longleftrightarrow> proto = type pt \<and> (case dev pt of None \<Rightarrow> True | Some d' \<Rightarrow> d' = d)"

section \<open>Properties\<close>

definition sample_net :: net_st where
  "sample_net = \<lparr>held = [KMem 0xC2000000], klog = [], network_packet = \<lparr>type = 0, dev = None, func = False\<rparr>\<rparr>"

definition sample_skb :: sk_buff where
  "sample_skb = \<lparr>skb_addr = 0xC2000000, pkt_type = 0, skb_dev = ''eth0'', protocol = 0x0008,
     ip_protocol = 6, vlan_tci = 100\<rparr>"

text \<open>
  The handler gives back exactly the reference it was handed, whatever the packet, answers 0, and
  prints three lines, or four when the packet type is one of the seven it names.
\<close>

theorem packet_rcv_consumes:
  assumes "KMem (skb_addr skb) \<in> set (held s)"
  shows "\<exists>t. run (packet_rcv skb) s = (Inr 0, t) \<and> held t = remove1 (KMem (skb_addr skb)) (held s) \<and>
    misuses t = misuses s \<and>
    length (klog t) = length (klog s) + (if unat (pkt_type skb) \<le> 6 then 4 else 3)"
proof -
  have "type_line (pkt_type skb) = None \<longleftrightarrow> \<not> unat (pkt_type skb) \<le> 6"
    by (auto simp: type_line_def word_unat_eq_iff)
  then show ?thesis
    using assms by (auto simp: packet_rcv_def prog_simps misuses_def split: option.splits)
qed

theorem packet_rcv_consumes_witness:
  "\<exists>t. run (packet_rcv sample_skb) sample_net = (Inr 0, t) \<and> held t = [] \<and> length (klog t) = 4"
  using packet_rcv_consumes [of sample_skb sample_net] by (auto simp: sample_skb_def sample_net_def)

text \<open>
  C38. The printed VLAN id is right for a tag stored in network byte order: of the tag \<open>x\<close> it is the
  low 12 bits. For a tag stored in the byte order of the host, as the kernel stores it, it is made of
  the low four bits of the tag followed by its high byte, so that id 100 is printed as 1024.
\<close>

theorem vlan_id_byte_order:
  "vlan_id (skb\<lparr>vlan_tci := htons x\<rparr>) = x AND 0xFFF \<and>
   vlan_id (skb\<lparr>vlan_tci := x\<rparr>) = push_bit 8 (take_bit 4 x) OR drop_bit 8 x \<and>
   vlan_id (skb\<lparr>vlan_tci := 100\<rparr>) = 1024"
proof (intro conjI)
  have mask: "(0xFFF :: u16) = mask 12" by (simp add: mask_eq_exp_minus_1)
  show "vlan_id (skb\<lparr>vlan_tci := x\<rparr>) = push_bit 8 (take_bit 4 x) OR drop_bit 8 x"
    by (rule bit_word_eqI)
       (auto simp: vlan_id_def mask bit_ntohs bit_simps add.commute dest: bit_imp_le_length)
  show "vlan_id (skb\<lparr>vlan_tci := htons x\<rparr>) = x AND 0xFFF" by (simp add: vlan_id_def)
  show "vlan_id (skb\<lparr>vlan_tci := 100\<rparr>) = 1024" by (simp add: vlan_id_def ntohs_def)
qed

text \<open>
  If the interface does not exist the module loads all the same and captures the IP packets of
  every interface; if it exists, only those of that interface; packets of another protocol never.
\<close>

theorem capture_scope:
  "\<exists>t. run (net_init found) s = (Inr 0, t) \<and>
     (pt_matches (network_packet t) d proto \<longleftrightarrow> proto = htons 0x0800 \<and> (d = CAPTURE_DEV \<or> \<not> found))"
  by (auto simp: net_init_def prog_simps pt_matches_def ETH_P_IP_def)

text \<open>
  Every load and unload with the interface present keeps one more reference to it; without it
  the module gives everything back.
\<close>

theorem netdev_reference_leak:
  assumes "PacketType ''network_packet'' \<notin> set (held s)"
  shows "\<exists>t. run (load_unload net_init (\<lambda>_. net_cleanup) (replicate n found)) s = (Inr (), t) \<and>
    held t = (if found then replicate n (NetdevRef CAPTURE_DEV) else []) @ held s \<and> misuses t = misuses s"
  using assms
proof (induction n arbitrary: s)
  case 0
  then show ?case by (simp add: load_unload_def)
next
  case (Suc n)
  obtain u where u: "run (load_once net_init (\<lambda>_. net_cleanup) found) s = (Inr (), u)"
    "held u = (if found then NetdevRef CAPTURE_DEV # held s else held s)" "misuses u = misuses s"
    by (cases found) (simp_all add: load_once_def net_init_def net_cleanup_def prog_simps misuses_def)
  then obtain t where "run (for_each (replicate n found) (load_once net_init (\<lambda>_. net_cleanup))) u = (Inr (), t)"
    "held t = (if found then replicate n (NetdevRef CAPTURE_DEV) else []) @ held u" "misuses t = misuses u"
    using Suc.IH [of u] Suc.prems by (cases found) (auto simp: load_unload_def)
  with u show ?case by (simp add: load_unload_def run_seqE replicate_app_Cons_same)
qed

theorem netdev_reference_leak_witness:
  "\<exists>t. run (load_unload net_init (\<lambda>_. net_cleanup) (replicate 3 True)) sample_net = (Inr (), t) \<and>
     held t = replicate 3 (NetdevRef CAPTURE_DEV) @ [KMem 0xC2000000]"
  using netdev_reference_leak [of sample_net 3 True] by (auto simp: sample_net_def)

end
