(* ===== verification/Vlan_Packet.thy ===== *)
theory Vlan_Packet
  imports Netcapture
begin

text \<open>
  The sender \<open>src/lkml/vlan-app/vlan_packet.c\<close>: it sends the same datagram every two seconds for
  ever. The answers of the system calls are arguments; the state is the log of the calls made. The
  program does not end by itself, so \<open>vlan_main\<close> takes the number of rounds after which it is
  observed.
\<close>

section \<open>System calls and state\<close>

record sockaddr_in =
  sin_family :: nat
  sin_addr :: "u8 list"
  sin_port :: u16

datatype syscall =
    Socket nat nat
  | SetSockOpt int string
  | Close int
  | SendTo int string sockaddr_in
  | Sleep nat

datatype stop = ExitCode int | SegFault

definition SERVERPORT :: u16 where "SERVERPORT = 5581"
definition AF_INET :: nat where "AF_INET = 2"
definition SOCK_DGRAM :: nat where "SOCK_DGRAM = 2"

type_synonym 'a vlan_prog = "(syscall list, stop, 'a) prog"

definition sys :: "syscall \<Rightarrow> unit vlan_prog" where
  "sys c = modify (\<lambda>l. l @ [c])"

lemma run_sys [prog_simps]: "run (sys c) l = (Inr (), l @ [c])"
  by (simp add: sys_def)

section \<open>The program\<close>

primrec send_loop :: "int \<Rightarrow> string \<Rightarrow> sockaddr_in \<Rightarrow> nat \<Rightarrow> unit vlan_prog" where
  "send_loop sd buffer servaddr 0 = ret ()"
| "send_loop sd buffer servaddr (Suc n) =
     seqE (sys (SendTo sd (take (strlen buffer) buffer) servaddr))
     (seqE (sys (Sleep 2)) (send_loop sd buffer servaddr n))"

text \<open>
  The host entry (its address bytes, NULL when the name is unknown) is looked up first and used only
  after the socket is bound to its interface. A failed \<open>socket\<close> is only reported.
\<close>

definition vlan_main :: "u8 list option \<Rightarrow> int \<Rightarrow> int \<Rightarrow> nat \<Rightarrow> unit vlan_prog" where
  "vlan_main server sd rc n =
     seqE (sys (Socket AF_INET SOCK_DGRAM))
     (seqE (sys (SetSockOpt sd (snd (snprintf 16 ''vlan100''))))
     (if rc < 0 then seqE (sys (Close sd)) (throw (ExitCode (- 1)))
      else
        case server of
          None \<Rightarrow> throw SegFault
        | Some h_addr \<Rightarrow>
            send_loop sd ''@DeathFire''
              \<lparr>sin_family = AF_INET, sin_addr = h_addr, sin_port = htons SERVERPORT\<rparr> n))"

section \<open>Properties\<close>

text \<open>
  Once bound to \<open>vlan100\<close> the program sends, in every round, the ten characters of the greeting
  without a NUL to port 5581 in network byte order, and sleeps two seconds; it never stops by itself.
  If the interface cannot be bound it closes the socket, sends nothing and exits with -1, which is also
  how a failed \<open>socket\<close> call ends; an unknown host makes it crash before anything is sent.
\<close>

theorem vlan_main_behaviour:
  "(rc < 0 \<longrightarrow> run (vlan_main server sd rc n) l =
      (Inl (ExitCode (- 1)), l @ [Socket 2 2, SetSockOpt sd ''vlan100'', Close sd])) \<and>
   (0 \<le> rc \<and> server = None \<longrightarrow> run (vlan_main server sd rc n) l =
      (Inl SegFault, l @ [Socket 2 2, SetSockOpt sd ''vlan100''])) \<and>
   (0 \<le> rc \<and> server = Some h \<longrightarrow> run (vlan_main server sd rc n) l =
      (Inr (), l @ [Socket 2 2, SetSockOpt sd ''vlan100''] @
         concat (replicate n [SendTo sd ''@DeathFire'' \<lparr>sin_family = 2, sin_addr = h, sin_port = 0xCD15\<rparr>, Sleep 2])))"
proof -
  have loop: "run (send_loop sd buffer a n) l =
      (Inr (), l @ concat (replicate n [SendTo sd buffer a, Sleep 2]))" for buffer a l
    by (induction n arbitrary: l) (simp_all add: prog_simps strlen_def)
  have port: "htons SERVERPORT = 0xCD15" by (simp add: ntohs_def SERVERPORT_def)
  show ?thesis
    by (auto simp: vlan_main_def prog_simps loop port snprintf_def AF_INET_def SOCK_DGRAM_def)
qed

theorem vlan_main_behaviour_witness:
  "run (vlan_main (Some [169, 254, 115, 6]) 3 0 1) [] =
     (Inr (), [Socket 2 2, SetSockOpt 3 ''vlan100'',
        SendTo 3 ''@DeathFire'' \<lparr>sin_family = 2, sin_addr = [169, 254, 115, 6], sin_port = 0xCD15\<rparr>, Sleep 2])"
  using vlan_main_behaviour [of 0 "Some [169, 254, 115, 6]" 3 1 "[]" "[169, 254, 115, 6]"] by simp

end
