(* ===== verification/Epm.thy ===== *)
theory Epm
  imports Kernel
begin

text \<open>
  The character device and SPI driver of \<open>src/lkml/char-drv/epm.c\<close>. The answers of the character
  device layer, of \<open>kmalloc\<close> and of the SPI core are arguments; a class that could not be created
  and a device node that could not be created go unnoticed, as in the code.
\<close>

section \<open>State\<close>

definition DEVICE_NAME :: string where "DEVICE_NAME = ''epm''"

text \<open>
  The fields of \<open>struct epm\<close> that the code uses: whether its character device is set up. The pointer
  \<open>epm_drv\<close> is the address \<open>kmalloc\<close> answered, 0 for NULL.
\<close>

record epm_st = kst +
  epm_number :: u32
  epm_class :: bool
  epm_drv :: u32
  dev_fops :: bool

record epm_env =
  chrdev_ret :: int
  chrdev_num :: u32
  class_ok :: bool
  kmalloc_addr :: u32
  cdev_ret :: int
  node_ok :: bool
  spi_ret :: int

type_synonym 'a epm_prog = "(epm_st, koops, 'a) prog"

section \<open>Operations\<close>

definition generic_open :: "int epm_prog" where
  "generic_open = seqE (klog_add (Printk ''HTC EPM Test Open Function'')) (ret 0)"

definition generic_release :: "int epm_prog" where
  "generic_release = seqE (klog_add (Printk ''HTC EPM TEST Release Function'')) (ret 0)"

record epm_fops =
  fop_open :: "int epm_prog"
  fop_release :: "int epm_prog"

definition fops :: epm_fops where
  "fops = \<lparr>fop_open = generic_open, fop_release = generic_release\<rparr>"

definition epm_probe :: "'d \<Rightarrow> int" where "epm_probe spi_dev = 0"
definition epm_remove :: "'d \<Rightarrow> int" where "epm_remove spi_dev = 0"


definition epm_driver :: "('d \<Rightarrow> int, 'd \<Rightarrow> int) bus_driver" where
  "epm_driver = \<lparr>bd_name = ''EPM ADC DRV'', bd_compatible = [''cy,epm-adc-cy8c5568lti-114''],
     bd_probe = epm_probe, bd_remove = epm_remove\<rparr>"

lemma epm_driver_name [simp]: "bd_name epm_driver = ''EPM ADC DRV''"
  by (simp add: epm_driver_def)

definition epm_cdev_init :: "epm_env \<Rightarrow> int epm_prog" where
  "epm_cdev_init e =
     (if chrdev_ret e < 0 then ret (- 1)
      else
        seqE (modify (\<lambda>s. s\<lparr>epm_number := chrdev_num e\<rparr>))
        (seqE (acquire (ChrdevRegion (chrdev_num e)))
        (seqE (modify (\<lambda>s. s\<lparr>epm_class := class_ok e\<rparr>))
        (seqE (if_then (class_ok e) (acquire (DevClass DEVICE_NAME)))
        (seqE (modify (\<lambda>s. s\<lparr>epm_drv := kmalloc_addr e\<rparr>))
        (if kmalloc_addr e = 0 then ret (- 1)
         else
           seqE (acquire (KMem (kmalloc_addr e)))
           (seqE (modify (\<lambda>s. s\<lparr>dev_fops := True\<rparr>))
           (bindE (acquire_if_ok (cdev_ret e) (CharDev (chrdev_num e))) (\<lambda>r.
            if r \<noteq> 0 then ret 1
            else
              seqE (if_then (node_ok e) (acquire (DevNode DEVICE_NAME (chrdev_num e))))
                   (ret 0))))))))))"

definition epm_init :: "epm_env \<Rightarrow> int epm_prog" where
  "epm_init e =
     bindE (epm_cdev_init e) (\<lambda>r.
     if r = - 1 then ret r
     else acquire_if_ok (spi_ret e) (SpiDriver (bd_name (epm_driver :: (unit \<Rightarrow> int, unit \<Rightarrow> int) bus_driver))))"

definition epm_exit :: "unit epm_prog" where
  "epm_exit =
     bindE (gets epm_drv) (\<lambda>d.
     if d = 0 then throw NullDeref
     else
       bindE (gets epm_number) (\<lambda>n.
       seqE (put_if_held (CharDev n))
       (seqE (release (ChrdevRegion n))
       (seqE (put_if_held (DevNode DEVICE_NAME n))
       (bindE (gets epm_class) (\<lambda>c. if_then c (release (DevClass DEVICE_NAME))))))))"

lemmas epm_defs = epm_cdev_init_def epm_init_def epm_exit_def

section \<open>Properties\<close>

definition epm_env_good :: "epm_env \<Rightarrow> bool" where
  "epm_env_good e \<longleftrightarrow> 0 \<le> chrdev_ret e \<and> class_ok e \<and> kmalloc_addr e \<noteq> 0 \<and> cdev_ret e = 0 \<and> node_ok e \<and>
     spi_ret e = 0"

lemma epm_init_good:
  assumes "epm_env_good e"
  shows "run (epm_init e) s = (Inr 0, s\<lparr>
     held := [SpiDriver ''EPM ADC DRV'', DevNode DEVICE_NAME (chrdev_num e), CharDev (chrdev_num e),
       KMem (kmalloc_addr e), DevClass DEVICE_NAME, ChrdevRegion (chrdev_num e)] @ held s,
     epm_number := chrdev_num e, epm_class := True, epm_drv := kmalloc_addr e, dev_fops := True\<rparr>)"
  using assms by (intro wp_runI) (simp add: epm_defs wp_simps epm_env_good_def)

definition sample_epm_env :: epm_env where
  "sample_epm_env = \<lparr>chrdev_ret = 0, chrdev_num = 0xFE00000, class_ok = True, kmalloc_addr = 0xC1000000,
     cdev_ret = 0, node_ok = True, spi_ret = 0\<rparr>"

definition sample_epm :: epm_st where
  "sample_epm = \<lparr>held = [], klog = [], epm_number = 0, epm_class = False, epm_drv = 0, dev_fops = False\<rparr>"

text \<open>
  Unloading after a load in which everything succeeded removes the device node, the character
  device, its number and the class, but keeps the SPI driver registered, with callbacks into the
  unloaded module, and never frees the driver structure.
\<close>

theorem epm_unload_leaks:
  assumes "epm_env_good e" "run (epm_init e) s = (Inr r, t)"
  shows "r = 0 \<and> (\<exists>u. run epm_exit t = (Inr (), u) \<and> misuses u = misuses s \<and>
    held u = SpiDriver ''EPM ADC DRV'' # KMem (kmalloc_addr e) # held s)"
proof -
  have "epm_drv t \<noteq> 0" "r = 0" and t: "held t = [SpiDriver ''EPM ADC DRV'', DevNode DEVICE_NAME (chrdev_num e),
      CharDev (chrdev_num e), KMem (kmalloc_addr e), DevClass DEVICE_NAME, ChrdevRegion (chrdev_num e)] @ held s"
    "epm_number t = chrdev_num e" "epm_class t" "klog t = klog s"
    using assms epm_init_good [OF assms(1), of s] by (auto simp: epm_env_good_def)
  then show ?thesis by (simp add: epm_exit_def prog_simps misuses_def)
qed

theorem epm_unload_leaks_witness:
  "\<exists>u. run epm_exit (snd (run (epm_init sample_epm_env) sample_epm)) = (Inr (), u) \<and>
     held u = [SpiDriver ''EPM ADC DRV'', KMem 0xC1000000]"
proof -
  have good: "epm_env_good sample_epm_env" by (simp add: epm_env_good_def sample_epm_env_def)
  from epm_unload_leaks [OF good epm_init_good [OF good, of sample_epm]] epm_init_good [OF good, of sample_epm]
  show ?thesis by (auto simp: sample_epm_env_def sample_epm_def)
qed



end
