(* ===== verification/Som_Mmap.thy ===== *)
theory Som_Mmap
  imports Kernel C_String
begin

text \<open>
  The character device that hands kernel memory to user space, \<open>src/lkml/mmap/char-drv.c\<close>, and the
  test program that reads it, \<open>src/lkml/mmap-app/drv.c\<close>. Physical memory is a function from
  addresses to bytes. The address \<open>kmalloc_array\<close> answers (0 for NULL), the translation
  \<open>virt_to_phys\<close> and the result of \<open>remap_pfn_range\<close> are arguments; a mapping that succeeds is
  recorded as the user address, the physical page address and the length.
\<close>

section \<open>State\<close>

definition DEVICE_NAME :: string where "DEVICE_NAME = ''som_mmap''"
definition PAGE_SHIFT :: nat where "PAGE_SHIFT = 12"

record vm_area =
  vm_start :: u32
  vm_end :: u32

record som_st = kst +
  num :: u32
  data :: u32
  cdev_ops :: bool
  class_desc :: bool
  ram :: "u32 \<Rightarrow> u8"
  maps :: "(u32 \<times> u32 \<times> u32) list"

type_synonym 'a som_prog = "(som_st, koops, 'a) prog"

section \<open>File operations\<close>

definition som_open :: "int som_prog" where
  "som_open = seqE (klog_add (Printk ''PCI Test Open Function'')) (ret 0)"

text \<open>\<open>kfree(NULL)\<close> does nothing; the pointer keeps its value after it is freed.\<close>

definition kfree :: "u32 \<Rightarrow> ('z, unit) kprog" where
  "kfree p = if_then (p \<noteq> 0) (release (KMem p))"

definition som_release :: "int som_prog" where
  "som_release =
     seqE (klog_add (Printk ''PCI TEST Release Function''))
     (bindE (gets data) (\<lambda>p. seqE (kfree p) (ret 0)))"

definition som_mmap_open_fn :: "vm_area \<Rightarrow> unit som_prog" where
  "som_mmap_open_fn vma = klog_add (Printk ''PCI_VMA_OPEN'')"

definition som_mmap_close_fn :: "vm_area \<Rightarrow> unit som_prog" where
  "som_mmap_close_fn vma = klog_add (Printk ''PCI_VMA_CLOSE'')"

text \<open>The seven bytes of the literal in the source, with its terminating NUL.\<close>

definition hello :: "u8 list" where
  "hello = [0x48, 0x65, 0x6C, 0x6C, 0x6F, 0x0A, 0x00]"

primrec store_bytes :: "(u32 \<Rightarrow> u32) \<Rightarrow> u32 \<Rightarrow> u8 list \<Rightarrow> (u32 \<Rightarrow> u8) \<Rightarrow> u32 \<Rightarrow> u8" where
  "store_bytes v2p a [] m = m"
| "store_bytes v2p a (b # bs) m = store_bytes v2p (a + 1) bs (m(v2p a := b))"

record mmap_env =
  kmalloc_addr :: u32
  virt_to_phys :: "u32 \<Rightarrow> u32"
  remap_ret :: int

text \<open>
  After a failed allocation \<open>ret\<close> is \<open>-ENOMEM\<close>, but the copy to address 0 comes first. A copy past
  the end of the allocation is an overrun.
\<close>

definition som_mmap_fn :: "mmap_env \<Rightarrow> vm_area \<Rightarrow> int som_prog" where
  "som_mmap_fn e vma =
     (let size = vm_end vma - vm_start vma; start = vm_start vma; p = kmalloc_addr e;
          ret0 = (if p = 0 then - ENOMEM else 0)
      in
      seqE (som_mmap_open_fn vma)
      (seqE (modify (\<lambda>s. s\<lparr>data := p\<rparr>))
      (seqE (if_then (p \<noteq> 0) (acquire (KMem p)))
      (if p = 0 then throw NullDeref
       else if unat size < 7 then throw Overrun
       else
         seqE (modify (\<lambda>s. s\<lparr>ram := store_bytes (virt_to_phys e) p hello (ram s)\<rparr>))
         (seqE (if_then (remap_ret e = 0)
             (modify (\<lambda>s. s\<lparr>maps := (start, push_bit PAGE_SHIFT (drop_bit PAGE_SHIFT (virt_to_phys e p)), size) # maps s\<rparr>)))
         (ret (ret0 OR remap_ret e)))))))"

text \<open>The tables of functions: those of a mapping, and those of the device file.\<close>

record som_vm_ops =
  vop_open :: "vm_area \<Rightarrow> unit som_prog"
  vop_close :: "vm_area \<Rightarrow> unit som_prog"
  vop_fault :: bool

definition som_mmap_ops :: som_vm_ops where
  "som_mmap_ops = \<lparr>vop_open = som_mmap_open_fn, vop_close = som_mmap_close_fn, vop_fault = False\<rparr>"

record som_fops =
  fop_open :: "int som_prog"
  fop_release :: "int som_prog"
  fop_mmap :: "mmap_env \<Rightarrow> vm_area \<Rightarrow> int som_prog"

definition fops :: som_fops where
  "fops = \<lparr>fop_open = som_open, fop_release = som_release, fop_mmap = som_mmap_fn\<rparr>"

lemma som_tables [simp]:
  "fop_open fops = som_open" "fop_release fops = som_release" "fop_mmap fops = som_mmap_fn"
  "vop_close som_mmap_ops = som_mmap_close_fn"
  by (simp_all add: fops_def som_mmap_ops_def)

section \<open>Module load and unload\<close>

record som_env =
  class_ok :: bool
  chrdev_ret :: int
  chrdev_num :: u32
  cdev_ret :: int
  node_ok :: bool

definition chardev_init :: "som_env \<Rightarrow> int som_prog" where
  "chardev_init e =
     seqE (modify (\<lambda>s. s\<lparr>class_desc := class_ok e\<rparr>))
     (seqE (if_then (class_ok e) (acquire (DevClass DEVICE_NAME)))
     (if chrdev_ret e < 0 then ret (- 1)
      else
        seqE (modify (\<lambda>s. s\<lparr>num := chrdev_num e\<rparr>))
        (seqE (acquire (ChrdevRegion (chrdev_num e)))
        (seqE (modify (\<lambda>s. s\<lparr>cdev_ops := True\<rparr>))
        (bindE (acquire_if_ok (cdev_ret e) (CharDev (chrdev_num e))) (\<lambda>r.
         if r \<noteq> 0 then ret (- 1)
         else
           seqE (if_then (node_ok e) (acquire (DevNode DEVICE_NAME (chrdev_num e))))
                (ret 0)))))))"

definition char_init :: "som_env \<Rightarrow> int som_prog" where
  "char_init e = bindE (chardev_init e) (\<lambda>r. ret (if r \<noteq> 0 then - 1 else 0))"

definition char_cleanup :: "unit som_prog" where
  "char_cleanup =
     bindE (gets num) (\<lambda>n.
     seqE (put_if_held (CharDev n))
     (seqE (release (ChrdevRegion n))
     (seqE (put_if_held (DevNode DEVICE_NAME n))
     (bindE (gets class_desc) (\<lambda>c. if_then c (release (DevClass DEVICE_NAME)))))))"

section \<open>The test program\<close>

text \<open>
  A byte at a user address: that of the newest mapping that covers it, or none (the access is a
  segmentation fault).
\<close>

fun user_byte :: "(u32 \<times> u32 \<times> u32) list \<Rightarrow> (u32 \<Rightarrow> u8) \<Rightarrow> u32 \<Rightarrow> u8 option" where
  "user_byte [] m a = None"
| "user_byte ((v, p, len) # ms) m a = (if a - v < len then Some (m (p + (a - v))) else user_byte ms m a)"

definition user_read :: "som_st \<Rightarrow> u32 \<Rightarrow> nat \<Rightarrow> u8 list option" where
  "user_read s a n = those (map (\<lambda>i. user_byte (maps s) (ram s) (a + word_of_nat i)) [0..<n])"

text \<open>
  \<open>main\<close>, whose system calls reach the functions of the two tables: open, map four megabytes at the address the kernel picks, copy seven bytes out of the
  mapping without testing the result of \<open>mmap\<close>, print them, unmap (\<open>unmap\<close> in the source, read as
  \<open>munmap\<close>), close. \<open>MAP_FAILED\<close> is the
  address -1. The result is what was copied, or none after a segmentation fault.
\<close>

definition app_main :: "mmap_env \<Rightarrow> u32 \<Rightarrow> u8 list option som_prog" where
  "app_main e at =
     (let vma = \<lparr>vm_start = at, vm_end = at + 1024 * 4096\<rparr> in
      seqE (fop_open fops)
      (bindE (fop_mmap fops e vma) (\<lambda>r.
       let mem = (if r = 0 then at else - 1) in
       bindE (gets (\<lambda>s. user_read s mem 7)) (\<lambda>rdBuf.
       case rdBuf of
         None \<Rightarrow> ret None
       | Some bs \<Rightarrow>
           seqE (vop_close som_mmap_ops vma)
           (seqE (modify (\<lambda>s. s\<lparr>maps := filter (\<lambda>(v, _). v \<noteq> at) (maps s)\<rparr>))
           (seqE (fop_release fops) (ret (Some bs))))))))"

section \<open>A module that gives everything back\<close>

definition som_env_ok :: "som_env \<Rightarrow> bool" where
  "som_env_ok e \<longleftrightarrow> class_ok e \<and> node_ok e"

interpretation som: module_balanced char_init "\<lambda>_. char_cleanup" som_env_ok
  by unfold_locales
     (auto simp: char_init_def chardev_init_def char_cleanup_def som_env_ok_def prog_simps same_books_def
        misuses_def split: if_splits)

section \<open>Sequences of mappings and releases\<close>

text \<open>
  The one pointer of the driver is shared by every open file. The specification of its life: it was
  never set, it points to a live block, or to a block that is freed already. \<open>double_frees\<close> counts
  the releases in the last state; \<open>blocks\<close> the mappings less the releases in the second one.
\<close>

datatype som_event = Mmap mmap_env vm_area | Release

definition som_event_prog :: "som_event \<Rightarrow> unit som_prog" where
  "som_event_prog ev =
     (case ev of
        Mmap e vma \<Rightarrow> seqE (som_mmap_fn e vma) (ret ())
      | Release \<Rightarrow> seqE som_release (ret ()))"

definition som_run :: "som_event list \<Rightarrow> unit som_prog" where
  "som_run evs = for_each evs som_event_prog"

text \<open>Every mapping asks for at least seven bytes and gets a block that is not in use.\<close>

fun som_fresh :: "som_event list \<Rightarrow> som_st \<Rightarrow> bool" where
  "som_fresh [] s = True"
| "som_fresh (ev # evs) s =
     ((case ev of
         Mmap e vma \<Rightarrow> kmalloc_addr e \<noteq> 0 \<and> 7 \<le> unat (vm_end vma - vm_start vma) \<and> KMem (kmalloc_addr e) \<notin> set (held s)
       | Release \<Rightarrow> True) \<and>
      som_fresh evs (snd (run (som_event_prog ev) s)))"

datatype life = Never | Live | Freed

fun life_step :: "life \<Rightarrow> som_event \<Rightarrow> life" where
  "life_step l (Mmap _ _) = Live"
| "life_step Never Release = Never"
| "life_step _ Release = Freed"

fun double_frees :: "life \<Rightarrow> som_event list \<Rightarrow> nat" where
  "double_frees l [] = 0"
| "double_frees l (ev # evs) =
     (if l = Freed \<and> ev = Release then 1 else 0) + double_frees (life_step l ev) evs"

fun blocks :: "life \<Rightarrow> som_event list \<Rightarrow> int" where
  "blocks l [] = 0"
| "blocks l (ev # evs) =
     (case ev of Mmap _ _ \<Rightarrow> 1 | Release \<Rightarrow> if l = Live then - 1 else 0) + blocks (life_step l ev) evs"

definition life_rel :: "life \<Rightarrow> som_st \<Rightarrow> bool" where
  "life_rel l s =
     (case l of
        Never \<Rightarrow> data s = 0
      | Live \<Rightarrow> data s \<noteq> 0 \<and> KMem (data s) \<in> set (held s) \<and> KMem (data s) \<notin> set (remove1 (KMem (data s)) (held s))
      | Freed \<Rightarrow> data s \<noteq> 0 \<and> KMem (data s) \<notin> set (held s))"

lemma run_som_release:
  "run som_release s = (Inr 0,
     if data s = 0 then s\<lparr>klog := klog s @ [Printk ''PCI TEST Release Function'']\<rparr>
     else if KMem (data s) \<in> set (held s)
     then s\<lparr>klog := klog s @ [Printk ''PCI TEST Release Function''], held := remove1 (KMem (data s)) (held s)\<rparr>
     else s\<lparr>klog := klog s @ [Printk ''PCI TEST Release Function'', Misuse (KMem (data s))]\<rparr>)"
  by (simp add: som_release_def kfree_def prog_simps)

lemma run_som_mmap_fn:
  assumes "kmalloc_addr e \<noteq> 0" "7 \<le> unat (vm_end vma - vm_start vma)"
  shows "run (som_mmap_fn e vma) s = (Inr (remap_ret e), s\<lparr>
     klog := klog s @ [Printk ''PCI_VMA_OPEN''], held := KMem (kmalloc_addr e) # held s,
     data := kmalloc_addr e, ram := store_bytes (virt_to_phys e) (kmalloc_addr e) hello (ram s),
     maps := (if remap_ret e = 0 then
       (vm_start vma, push_bit 12 (drop_bit 12 (virt_to_phys e (kmalloc_addr e))), vm_end vma - vm_start vma) # maps s
       else maps s)\<rparr>)"
  using assms
  by (intro wp_runI) (auto simp: som_mmap_fn_def som_mmap_open_fn_def Let_def wp_simps PAGE_SHIFT_def)

lemma som_step_refines:
  assumes "som_fresh (ev # evs) s" "life_rel l s"
  shows "\<exists>t. run (som_event_prog ev) s = (Inr (), t) \<and> som_fresh evs t \<and> life_rel (life_step l ev) t \<and>
    length (misuses t) = length (misuses s) + (if l = Freed \<and> ev = Release then 1 else 0) \<and>
    int (length (held t)) = int (length (held s)) +
      (case ev of Mmap _ _ \<Rightarrow> 1 | Release \<Rightarrow> if l = Live then - 1 else 0)"
proof (cases ev)
  case (Mmap e vma)
  with assms show ?thesis
    by (auto simp: som_event_prog_def run_seqE run_som_mmap_fn life_rel_def misuses_def)
next
  case Release
  moreover have "int (length (held s) - Suc 0) = int (length (held s)) - 1"
    if "KMem (data s) \<in> set (held s)" using that by (cases "held s") simp_all
  ultimately show ?thesis
    using assms
    by (cases l) (auto simp: som_event_prog_def run_seqE run_som_release life_rel_def misuses_def length_remove1)
qed

lemma som_run_refines:
  assumes "som_fresh evs s" "life_rel l s"
  shows "\<exists>t. run (som_run evs) s = (Inr (), t) \<and>
    length (misuses t) = length (misuses s) + double_frees l evs \<and>
    int (length (held t)) = int (length (held s)) + blocks l evs"
  using assms
proof (induction evs arbitrary: l s)
  case Nil
  then show ?case by (simp add: som_run_def)
next
  case (Cons ev evs)
  from som_step_refines [OF Cons.prems] obtain t
    where t: "run (som_event_prog ev) s = (Inr (), t)" "som_fresh evs t" "life_rel (life_step l ev) t"
      and n: "length (misuses t) = length (misuses s) + (if l = Freed \<and> ev = Release then 1 else 0)"
      "int (length (held t)) = int (length (held s)) + (case ev of Mmap _ _ \<Rightarrow> 1 | Release \<Rightarrow> if l = Live then - 1 else 0)"
    by blast
  from Cons.IH [OF t(2,3)] n t(1) show ?case
    by (auto simp: som_run_def run_seqE)
qed

section \<open>What user space sees\<close>

lemma store_bytes_at:
  assumes "\<forall>i<length bs. v2p (a + word_of_nat i) = b + word_of_nat i" "length bs \<le> 2 ^ 32" "j < 2 ^ 32"
  shows "store_bytes v2p a bs m (b + word_of_nat j) = (if j < length bs then bs ! j else m (b + word_of_nat j))"
  using assms
proof (induction bs arbitrary: a b m j)
  case (Cons x bs)
  have vb: "v2p a = b" using Cons.prems(1) by force
  have lin: "\<forall>i<length bs. v2p ((a + 1) + word_of_nat i) = (b + 1) + word_of_nat i"
  proof (intro allI impI)
    fix i assume "i < length bs"
    then have "v2p (a + word_of_nat (Suc i)) = b + word_of_nat (Suc i)" using Cons.prems(1) by (metis Suc_less_eq length_Cons)
    then show "v2p ((a + 1) + word_of_nat i) = (b + 1) + word_of_nat i" by (simp add: algebra_simps)
  qed
  note IH = Cons.IH [OF lin, of _ "m(b := x)"]
  show ?case
  proof (cases j)
    case 0
    have wrap: "(b + 1) + word_of_nat (2 ^ 32 - 1) = b" by simp
    from IH [of "2 ^ 32 - 1", unfolded wrap] Cons.prems(2) 0 vb show ?thesis by (simp add: fun_upd_def)
  next
    case (Suc k)
    then have eq: "b + word_of_nat j = (b + 1) + word_of_nat k" by simp
    have "(word_of_nat j :: u32) \<noteq> 0"
      using Cons.prems(3) Suc by (simp add: word_unat_eq_iff unsigned_of_nat take_bit_nat_eq_self del: of_nat_Suc)
    then have "b + word_of_nat j \<noteq> b" by simp
    with IH [of k] Cons.prems(2,3) Suc vb eq show ?thesis by (simp add: fun_upd_def add.assoc)
  qed
qed simp

text \<open>The allocation is aligned to pages in physical memory and contiguous there.\<close>

definition mmap_env_ok :: "mmap_env \<Rightarrow> bool" where
  "mmap_env_ok e \<longleftrightarrow>
     kmalloc_addr e \<noteq> 0 \<and> remap_ret e = 0 \<and> take_bit 12 (virt_to_phys e (kmalloc_addr e)) = 0 \<and>
     (\<forall>i<7. virt_to_phys e (kmalloc_addr e + word_of_nat i) = virt_to_phys e (kmalloc_addr e) + word_of_nat i)"

lemma page_aligned: "take_bit 12 (x :: u32) = 0 \<Longrightarrow> push_bit 12 (drop_bit 12 x) = x"
  using bits_ident [of 12 x] by simp

lemma som_mmap_user_byte:
  assumes "mmap_env_ok e" "7 \<le> unat (vm_end vma - vm_start vma)" "i < unat (vm_end vma - vm_start vma)"
    "run (som_mmap_fn e vma) s = (Inr r, t)"
  shows "user_byte (maps t) (ram t) (vm_start vma + word_of_nat i) =
    Some (if i < 7 then hello ! i else ram s (virt_to_phys e (kmalloc_addr e) + word_of_nat i))"
proof -
  let ?p = "virt_to_phys e (kmalloc_addr e)"
  have "unat (vm_end vma - vm_start vma) < 2 ^ LENGTH(32)" by (rule unsigned_less)
  with assms(3) have i32: "i < 2 ^ 32" by simp
  then have "(word_of_nat i :: u32) < vm_end vma - vm_start vma"
    using assms(3) by (simp add: word_less_nat_alt unsigned_of_nat take_bit_nat_eq_self)
  moreover have "store_bytes (virt_to_phys e) (kmalloc_addr e) hello (ram s) (?p + word_of_nat i) =
      (if i < 7 then hello ! i else ram s (?p + word_of_nat i))"
    using store_bytes_at [of hello "virt_to_phys e" "kmalloc_addr e" ?p i] assms(1) i32
    by (simp add: mmap_env_ok_def hello_def)
  ultimately show ?thesis
    using assms run_som_mmap_fn [of e vma s] page_aligned [of ?p] by (auto simp: mmap_env_ok_def)
qed

section \<open>Properties\<close>

definition sample_mmap_env :: mmap_env where
  "sample_mmap_env = \<lparr>kmalloc_addr = 0xC1000000, virt_to_phys = (\<lambda>a. a - 0x40000000), remap_ret = 0\<rparr>"

definition sample_som :: som_st where
  "sample_som = \<lparr>held = [], klog = [], num = 0, data = 0, cdev_ops = False, class_desc = False,
     ram = (\<lambda>_. 0x5A), maps = []\<rparr>"

lemma sample_mmap_ok: "mmap_env_ok sample_mmap_env"
  by (simp add: mmap_env_ok_def sample_mmap_env_def take_bit_eq_mod)

text \<open>
  A mapping that succeeds shows user space the seven bytes of the greeting at its start, and
  behind them, up to the end of the mapping, whatever the allocated pages held before: \<open>kmalloc\<close> does
  not clear them.
\<close>

theorem som_mmap_contents:
  assumes "mmap_env_ok e" "7 \<le> unat (vm_end vma - vm_start vma)"
  shows "\<exists>t. run (som_mmap_fn e vma) s = (Inr 0, t) \<and>
    (\<forall>i < unat (vm_end vma - vm_start vma).
       user_byte (maps t) (ram t) (vm_start vma + word_of_nat i) =
         Some (if i < 7 then hello ! i else ram s (virt_to_phys e (kmalloc_addr e) + word_of_nat i)))"
proof -
  obtain t where t: "run (som_mmap_fn e vma) s = (Inr 0, t)"
    using run_som_mmap_fn [of e vma s] assms by (auto simp: mmap_env_ok_def)
  with som_mmap_user_byte [OF assms(1,2) _ t] show ?thesis by blast
qed

theorem som_mmap_contents_witness:
  "\<exists>t. run (som_mmap_fn sample_mmap_env \<lparr>vm_start = 0xB6000000, vm_end = 0xB6001000\<rparr>) sample_som = (Inr 0, t) \<and>
     user_byte (maps t) (ram t) 0xB6000001 = Some 0x65 \<and> user_byte (maps t) (ram t) 0xB6000fff = Some 0x5A"
proof -
  let ?vma = "\<lparr>vm_start = 0xB6000000, vm_end = 0xB6001000\<rparr>"
  obtain t where t: "run (som_mmap_fn sample_mmap_env ?vma) sample_som = (Inr 0, t)"
    "\<forall>i < unat (vm_end ?vma - vm_start ?vma). user_byte (maps t) (ram t) (vm_start ?vma + word_of_nat i) =
       Some (if i < 7 then hello ! i else ram sample_som (virt_to_phys sample_mmap_env (kmalloc_addr sample_mmap_env) + word_of_nat i))"
    using som_mmap_contents [OF sample_mmap_ok, of ?vma sample_som] by auto
  from t(2) [rule_format, of 1] t(2) [rule_format, of 4095] t(1) show ?thesis
    by (simp add: hello_def sample_som_def)
qed

text \<open>
  C17. Releasing is not tied to the file that mapped: over any sequence of mappings and releases the
  memory is freed twice exactly as often as the specification says, once for every release with no
  mapping since the last one (unless nothing was ever mapped); and a mapping made while a block is
  live loses that block, so that the blocks held are those of the specification.
\<close>

theorem som_release_double_free:
  assumes "som_fresh evs s" "data s = 0"
  shows "\<exists>t. run (som_run evs) s = (Inr (), t) \<and>
    length (misuses t) = length (misuses s) + double_frees Never evs \<and>
    int (length (held t)) = int (length (held s)) + blocks Never evs"
  using som_run_refines [OF assms(1), of Never] assms(2) by (simp add: life_rel_def)

theorem som_release_double_free_witness:
  "\<exists>t. run (som_run [Mmap sample_mmap_env \<lparr>vm_start = 0xB6000000, vm_end = 0xB6001000\<rparr>, Release, Release])
       sample_som = (Inr (), t) \<and> length (misuses t) = 1"
proof -
  let ?evs = "[Mmap sample_mmap_env \<lparr>vm_start = 0xB6000000, vm_end = 0xB6001000\<rparr>, Release, Release]"
  have "som_fresh ?evs sample_som" by (simp add: sample_mmap_env_def sample_som_def)
  from som_release_double_free [OF this] show ?thesis by (auto simp: sample_som_def misuses_def)
qed

text \<open>
  The test program prints the driver's greeting whenever the mapping succeeds, and leaves the
  driver's books as they were; if the mapping is refused it ends in a segmentation fault, because it
  does not test the result of \<open>mmap\<close>; and if the driver gets no memory the kernel faults.
\<close>

theorem app_reads_greeting:
  "(mmap_env_ok e \<longrightarrow> (\<exists>t. run (app_main e at) s = (Inr (Some hello), t) \<and> held t = held s \<and> misuses t = misuses s)) \<and>
   (kmalloc_addr e \<noteq> 0 \<and> remap_ret e \<noteq> 0 \<and> maps s = [] \<longrightarrow> (\<exists>t. run (app_main e at) s = (Inr None, t))) \<and>
   (kmalloc_addr e = 0 \<longrightarrow> (\<exists>t. run (app_main e at) s = (Inl NullDeref, t)))"
proof (intro conjI impI)
  let ?vma = "\<lparr>vm_start = at, vm_end = at + 1024 * 4096\<rparr>"
  let ?s = "s\<lparr>klog := klog s @ [Printk ''PCI Test Open Function'']\<rparr>"
  have opened: "run som_open s = (Inr 0, ?s)" by (simp add: som_open_def prog_simps)
  { assume ok: "mmap_env_ok e"
    then obtain t where t: "run (som_mmap_fn e ?vma) ?s = (Inr 0, t)"
      and h: "held t = KMem (kmalloc_addr e) # held s" "data t = kmalloc_addr e" "kmalloc_addr e \<noteq> 0"
        "klog t = klog s @ [Printk ''PCI Test Open Function'', Printk ''PCI_VMA_OPEN'']"
      using run_som_mmap_fn [of e ?vma ?s] by (simp add: mmap_env_ok_def)
    have "user_byte (maps t) (ram t) (at + word_of_nat i) = Some (hello ! i)" if "i < 7" for i
      using som_mmap_user_byte [OF ok _ _ t, of i] that by simp
    then have "user_read t at 7 = those (map (\<lambda>i. Some (hello ! i)) [0..<7])"
      unfolding user_read_def by (intro arg_cong [of _ _ those] map_cong) simp_all
    also have "\<dots> = Some hello" by (simp add: upt_rec hello_def)
    finally show "\<exists>t. run (app_main e at) s = (Inr (Some hello), t) \<and> held t = held s \<and> misuses t = misuses s"
      using t h opened
      by (simp add: app_main_def Let_def run_seqE run_bindE som_mmap_close_fn_def run_klog_add
          run_som_release misuses_def) }
  show "\<exists>t. run (app_main e at) s = (Inr None, t)"
    if "kmalloc_addr e \<noteq> 0 \<and> remap_ret e \<noteq> 0 \<and> maps s = []"
    using that opened run_som_mmap_fn [of e ?vma ?s]
    by (simp add: app_main_def Let_def run_seqE run_bindE user_read_def upt_rec)
  show "\<exists>t. run (app_main e at) s = (Inl NullDeref, t)" if "kmalloc_addr e = 0"
    using that opened by (simp add: app_main_def Let_def run_seqE run_bindE som_mmap_fn_def
        som_mmap_open_fn_def run_klog_add)
qed

theorem app_reads_greeting_witness:
  "\<exists>t. run (app_main sample_mmap_env 0xB6000000) sample_som = (Inr (Some hello), t) \<and> held t = []"
  using app_reads_greeting [of sample_mmap_env "0xB6000000" sample_som] sample_mmap_ok
  by (auto simp: sample_som_def)

text \<open>
  The module gives everything back when it is unloaded after a successful load with its class and
  node created; a load that fails for want of a device number keeps the class, one that fails in
  \<open>cdev_add\<close> keeps the number as well.
\<close>

theorem som_load_paths:
  assumes "class_ok e" "node_ok e"
  shows "(0 \<le> chrdev_ret e \<and> cdev_ret e = 0 \<longrightarrow>
      (\<exists>t. run (load_once char_init (\<lambda>_. char_cleanup) e) s = (Inr (), t) \<and>
         held t = held s \<and> misuses t = misuses s)) \<and>
    (chrdev_ret e < 0 \<longrightarrow>
      (\<exists>t. run (char_init e) s = (Inr (- 1), t) \<and> held t = DevClass DEVICE_NAME # held s)) \<and>
    (0 \<le> chrdev_ret e \<and> cdev_ret e \<noteq> 0 \<longrightarrow>
      (\<exists>t. run (char_init e) s = (Inr (- 1), t) \<and>
         held t = ChrdevRegion (chrdev_num e) # DevClass DEVICE_NAME # held s))"
proof (intro conjI impI)
  assume "0 \<le> chrdev_ret e \<and> cdev_ret e = 0"
  then obtain t where "run (char_init e) s = (Inr 0, t)"
    using assms by (simp add: char_init_def chardev_init_def prog_simps)
  from wp_total [OF som.loaded_once [OF _ this]] assms
  show "\<exists>t. run (load_once char_init (\<lambda>_. char_cleanup) e) s = (Inr (), t) \<and> held t = held s \<and> misuses t = misuses s"
    by (auto simp: som_env_ok_def same_books_def)
qed (use assms in \<open>auto simp: char_init_def chardev_init_def prog_simps\<close>)

theorem som_load_paths_witness:
  "\<exists>t. run (char_init \<lparr>class_ok = True, chrdev_ret = 0, chrdev_num = 0xFD00000, cdev_ret = - 12, node_ok = True\<rparr>)
       sample_som = (Inr (- 1), t) \<and> held t = [ChrdevRegion 0xFD00000, DevClass DEVICE_NAME]"
  using som_load_paths
    [of "\<lparr>class_ok = True, chrdev_ret = 0, chrdev_num = 0xFD00000, cdev_ret = - 12, node_ok = True\<rparr>" sample_som]
  by (simp add: sample_som_def)

end
