(* ===== verification/Gpio.thy ===== *)
theory Gpio
  imports Kernel
begin

text \<open>
  The push-button module \<open>src/lkml/gpio/gpio.c\<close>. The answers of the GPIO library are arguments; none
  of them stops the module from loading.
\<close>

record gpio_st = kst +
  irq_number :: u32

definition button :: u32 where "button = 115"

record gpio_env =
  request_ret :: int
  direction_ret :: int
  export_ret :: int
  debounce_ret :: int
  to_irq :: int

datatype irqreturn = IRQ_NONE | IRQ_HANDLED

definition gpio_handler :: "u32 \<Rightarrow> irqreturn" where
  "gpio_handler irq = IRQ_HANDLED"

definition gpio_init :: "gpio_env \<Rightarrow> (gpio_st, koops, int) prog" where
  "gpio_init e =
     seqE (acquire_if_ok (request_ret e) (Gpio button))
     (seqE (ret (direction_ret e))
     (seqE (acquire_if_ok (export_ret e) (GpioExport button))
     (seqE (ret (debounce_ret e))
     (seqE (modify (\<lambda>s. s\<lparr>irq_number := word_of_int (to_irq e)\<rparr>))
           (ret 0)))))"

definition gpio_exit :: "(gpio_st, koops, unit) prog" where
  "gpio_exit =
     seqE (put_if_held (GpioExport button))
     (seqE (release (Gpio button))
     (bindE (gets irq_number) (\<lambda>i. release (IrqAction i))))"

definition sample_gpio :: gpio_st where
  "sample_gpio = \<lparr>held = [], klog = [], irq_number = 0\<rparr>"

text \<open>
  The module always loads, and unloading it gives back the pin and its sysfs entry exactly when
  the pin was obtained; but it always frees an interrupt that was never requested, because no handler is
  ever installed, and if the pin was refused it frees somebody else's pin as well.
\<close>

theorem gpio_unload_misuses:
  assumes "set (held s) \<inter> {Gpio button, GpioExport button, IrqAction (word_of_int (to_irq e))} = {}"
    and "request_ret e \<noteq> 0 \<longrightarrow> export_ret e \<noteq> 0"
  shows "\<exists>t u. run (gpio_init e) s = (Inr 0, t) \<and> run gpio_exit t = (Inr (), u) \<and> held u = held s \<and>
    misuses u = misuses s @ (if request_ret e = 0 then [] else [Misuse (Gpio button)]) @
      [Misuse (IrqAction (word_of_int (to_irq e)))]"
  using assms by (simp add: gpio_init_def gpio_exit_def prog_simps misuses_def remove1_idem)

theorem gpio_unload_misuses_witness:
  "\<exists>t u. run (gpio_init \<lparr>request_ret = 0, direction_ret = 0, export_ret = 0, debounce_ret = 0, to_irq = 200\<rparr>)
       sample_gpio = (Inr 0, t) \<and> run gpio_exit t = (Inr (), u) \<and> misuses u = [Misuse (IrqAction 200)]"
  using gpio_unload_misuses [of sample_gpio
    "\<lparr>request_ret = 0, direction_ret = 0, export_ret = 0, debounce_ret = 0, to_irq = 200\<rparr>"]
  by (auto simp: sample_gpio_def misuses_def)

end
