(* ===== verification/Fb_Pl111.thy ===== *)
theory Fb_Pl111
  imports Kernel
begin

text \<open>
  The DRM driver \<open>src/lkml/drm/fb_pl111.c\<close>. The DRM core is not part of the repository: the answers
  of its functions are arguments, and the calls the driver makes are recorded in their order with
  what matters of their arguments.
\<close>

section \<open>Structures\<close>

datatype drm_format = DRM_FORMAT_RGB565 | DRM_FORMAT_XRGB8888
datatype modifier = DRM_FORMAT_MOD_LINEAR | DRM_FORMAT_MOD_INVALID
datatype feature = DRIVER_GEM | DRIVER_MODESET | DRIVER_ATOMIC

text \<open>The display mode: size in pixels and in millimetres.\<close>

record drm_display_mode =
  hdisplay :: nat
  vdisplay :: nat
  width_mm :: nat
  height_mm :: nat

definition fb_pl111_mode :: drm_display_mode where
  "fb_pl111_mode = \<lparr>hdisplay = 240, vdisplay = 320, width_mm = 37, height_mm = 49\<rparr>"

definition pl111_formats :: "drm_format list" where
  "pl111_formats = [DRM_FORMAT_RGB565, DRM_FORMAT_XRGB8888]"

definition modifiers :: "modifier list" where
  "modifiers = [DRM_FORMAT_MOD_LINEAR, DRM_FORMAT_MOD_INVALID]"

text \<open>
  The functions the tables of the driver point to: its own, and helpers of the DRM core, known by name.
\<close>

datatype fb_fun = FbdevPipeEnable | FbdevPipeDisable | FbdevPipeUpdate | GetModes | FbRelease | Core string

record drm_simple_display_pipe_funcs =
  enable :: fb_fun
  disable :: fb_fun
  update :: fb_fun
  prepare_fb :: fb_fun

definition fbdev_pipe_funcs :: drm_simple_display_pipe_funcs where
  "fbdev_pipe_funcs = \<lparr>enable = FbdevPipeEnable, disable = FbdevPipeDisable, update = FbdevPipeUpdate,
     prepare_fb = Core ''drm_gem_fb_simple_display_pipe_prepare_fb''\<rparr>"

record drm_connector_helper_funcs =
  get_modes_fn :: fb_fun

definition fbdev_conn_hfunc :: drm_connector_helper_funcs where
  "fbdev_conn_hfunc = \<lparr>get_modes_fn = GetModes\<rparr>"

record drm_connector_funcs =
  reset :: fb_fun
  destroy :: fb_fun
  fill_modes :: fb_fun
  atomic_duplicate_state :: fb_fun
  atomic_destroy_state :: fb_fun

definition fbdev_conn_func :: drm_connector_funcs where
  "fbdev_conn_func = \<lparr>reset = Core ''drm_atomic_helper_connector_reset'', destroy = Core ''drm_connector_cleanup'',
     fill_modes = Core ''drm_helper_probe_single_connector_modes'',
     atomic_duplicate_state = Core ''drm_atomic_helper_connector_duplicate_state'',
     atomic_destroy_state = Core ''drm_atomic_helper_connector_destroy_state''\<rparr>"

record drm_mode_config_funcs =
  fb_create :: fb_fun
  atomic_check :: fb_fun
  atomic_commit :: fb_fun

definition fbdev_drm_mode_config_funcs :: drm_mode_config_funcs where
  "fbdev_drm_mode_config_funcs = \<lparr>fb_create = Core ''drm_gem_fb_create_with_dirty'',
     atomic_check = Core ''drm_atomic_helper_check'', atomic_commit = Core ''drm_atomic_helper_commit''\<rparr>"

text \<open>The same table under another name, which nothing uses.\<close>

definition pl111_mode_config_funcs :: drm_mode_config_funcs where
  "pl111_mode_config_funcs = \<lparr>fb_create = Core ''drm_gem_fb_create_with_dirty'',
     atomic_check = Core ''drm_atomic_helper_check'', atomic_commit = Core ''drm_atomic_helper_commit''\<rparr>"

record drm_driver =
  driver_features :: "feature list"
  release_fn :: fb_fun
  drv_name :: string
  drv_desc :: string
  drv_date :: string
  major :: nat
  minor :: nat

definition fb_driver :: drm_driver where
  "fb_driver = \<lparr>driver_features = [DRIVER_GEM, DRIVER_MODESET, DRIVER_ATOMIC],
     release_fn = FbRelease, drv_name = ''FB_DRIVER_SKUKRETI'', drv_desc = ''Fake DRM-FB Driver'', drv_date = ''20190614'',
     major = 1, minor = 0\<rparr>"

record mode_config =
  funcs :: "drm_mode_config_funcs option"
  min_width :: nat
  max_width :: nat
  min_height :: nat
  max_height :: nat

datatype drm_call =
    SetDmaMask
  | DevInit drm_driver
  | ModeConfigInit
  | ConnectorHelperAdd drm_connector_helper_funcs
  | ConnectorInit drm_connector_funcs
  | PipeInit drm_simple_display_pipe_funcs "drm_format list" "modifier list"
  | EnableDamageClips
  | ModeConfigReset
  | DevRegister

record fb_st = kst +
  pdev_name :: string
  pdrv_name :: string
  pdrv_set :: bool
  config :: mode_config
  calls :: "drm_call list"
  probed_modes :: "drm_display_mode list"

type_synonym 'a fb_prog = "(fb_st, koops, 'a) prog"

definition call :: "drm_call \<Rightarrow> unit fb_prog" where
  "call c = modify (\<lambda>s. s\<lparr>calls := calls s @ [c]\<rparr>)"

lemma run_call [prog_simps]: "run (call c) s = (Inr (), s\<lparr>calls := calls s @ [c]\<rparr>)"
  by (simp add: call_def)

section \<open>Callbacks\<close>

definition fbdev_pipe_disable :: "unit fb_prog" where
  "fbdev_pipe_disable = klog_add (Printk ''fbdev_pipe_disable'')"
definition fbdev_pipe_enable :: "unit fb_prog" where
  "fbdev_pipe_enable = klog_add (Printk ''fbdev_pipe_enable'')"
definition fbdev_pipe_update :: "unit fb_prog" where
  "fbdev_pipe_update = klog_add (Printk ''fbdev_pipe_update'')"
definition fb_release :: "unit fb_prog" where
  "fb_release = klog_add (Printk ''fb_release'')"

text \<open>
  \<open>get_modes\<close>: a NULL connector is reported and then dereferenced; a copy of the mode that could not
  be allocated (\<open>dup\<close> false) is added all the same.
\<close>

definition get_modes :: "bool \<Rightarrow> bool \<Rightarrow> int fb_prog" where
  "get_modes connector dup =
     (if \<not> connector then seqE (klog_add (Printk ''connector is null in get_modes'')) (throw NullDeref)
      else if \<not> dup then throw NullDeref
      else seqE (modify (\<lambda>s. s\<lparr>probed_modes := probed_modes s @ [fb_pl111_mode]\<rparr>)) (ret 1))"

text \<open>
  What the core runs when it calls through a table; a helper of the core is the core's business
  (\<open>core\<close>).
\<close>

definition invoke :: "(string \<Rightarrow> int fb_prog) \<Rightarrow> fb_fun \<Rightarrow> int fb_prog" where
  "invoke core f =
     (case f of
        FbdevPipeEnable \<Rightarrow> seqE fbdev_pipe_enable (ret 0)
      | FbdevPipeDisable \<Rightarrow> seqE fbdev_pipe_disable (ret 0)
      | FbdevPipeUpdate \<Rightarrow> seqE fbdev_pipe_update (ret 0)
      | GetModes \<Rightarrow> get_modes True True
      | FbRelease \<Rightarrow> seqE fb_release (ret 0)
      | Core n \<Rightarrow> core n)"

section \<open>Probe and remove\<close>

record fb_env =
  coherent_dma_mask :: u64
  dma_ret :: int
  dev_init_ret :: int
  connector_ret :: int
  pipe_ret :: int
  register_ret :: int

definition pdrv_probe :: "fb_env \<Rightarrow> int fb_prog" where
  "pdrv_probe e =
     seqE (if_then (coherent_dma_mask e = 0) (call SetDmaMask))
     (if coherent_dma_mask e = 0 \<and> dma_ret e \<noteq> 0 then ret (dma_ret e)
      else
        seqE (call (DevInit fb_driver))
        (seqE (if_then (dev_init_ret e < 0) (klog_add (Printk ''devm_drm_dev_init, error'')))
        (seqE (call ModeConfigInit)
        (seqE (call (ConnectorHelperAdd fbdev_conn_hfunc))
        (seqE (call (ConnectorInit fbdev_conn_func))
        (seqE (if_then (connector_ret e < 0) (klog_add (Printk ''drm_connector_init, error'')))
        (seqE (call (PipeInit fbdev_pipe_funcs pl111_formats modifiers))
        (seqE (if_then (pipe_ret e < 0) (klog_add (Printk ''drm_simple_display_pipe_init, error'')))
        (seqE (modify (\<lambda>s. s\<lparr>config :=
            \<lparr>funcs = Some fbdev_drm_mode_config_funcs, min_width = 24, max_width = 240, min_height = 37, max_height = 320\<rparr>\<rparr>))
        (seqE (call EnableDamageClips)
        (seqE (call ModeConfigReset)
        (seqE (call DevRegister)
        (seqE (if_then (register_ret e < 0) (klog_add (Printk ''drm_dev_register, error'')))
        (seqE (if_then (register_ret e < 0) (klog_add (Printk ''drm_fbdev_generic_setup, error'')))
              (ret (register_ret e))))))))))))))))"

definition pdrv_remove :: "'p \<Rightarrow> int" where
  "pdrv_remove pdev = 0"

section \<open>Module load and unload\<close>

text \<open>The results of the two registrations are ignored.\<close>

definition fb_init :: "int \<times> int \<Rightarrow> int fb_prog" where
  "fb_init rets =
     seqE (modify (\<lambda>s. s\<lparr>pdev_name := ''PL111''\<rparr>))
     (seqE (acquire_if_ok (fst rets) (PlatformDevice ''PL111''))
     (seqE (modify (\<lambda>s. s\<lparr>pdrv_set := True, pdrv_name := ''PL111''\<rparr>))
     (seqE (acquire_if_ok (snd rets) (PlatformDriver ''PL111''))
           (ret 0))))"

definition fb_exit :: "unit fb_prog" where
  "fb_exit = release (PlatformDriver ''PL111'')"

section \<open>Properties\<close>

definition sample_fb :: fb_st where
  "sample_fb = \<lparr>held = [], klog = [], pdev_name = [], pdrv_name = [], pdrv_set = False,
     config = \<lparr>funcs = None, min_width = 0, max_width = 0, min_height = 0, max_height = 0\<rparr>,
     calls = [], probed_modes = []\<rparr>"

text \<open>
  Only a failing DMA mask stops the probe, before any other call. In every other case it makes the
  same calls in the same order, the device is registered last, after all of its parts are set up, and
  the result is that of the registration: errors of the device, connector and pipe set-up are printed
  and forgotten, so that a device with a missing part is registered.
\<close>

theorem pdrv_probe_calls:
  "(coherent_dma_mask e = 0 \<and> dma_ret e \<noteq> 0 \<longrightarrow>
      run (pdrv_probe e) s = (Inr (dma_ret e), s\<lparr>calls := calls s @ [SetDmaMask]\<rparr>)) \<and>
   (coherent_dma_mask e \<noteq> 0 \<or> dma_ret e = 0 \<longrightarrow>
      (\<exists>t. run (pdrv_probe e) s = (Inr (register_ret e), t) \<and>
         calls t = calls s @ (if coherent_dma_mask e = 0 then [SetDmaMask] else []) @
           [DevInit fb_driver, ModeConfigInit, ConnectorHelperAdd fbdev_conn_hfunc, ConnectorInit fbdev_conn_func,
            PipeInit fbdev_pipe_funcs pl111_formats modifiers, EnableDamageClips, ModeConfigReset, DevRegister] \<and>
         length (klog t) = length (klog s) + (if dev_init_ret e < 0 then 1 else 0) +
           (if connector_ret e < 0 then 1 else 0) + (if pipe_ret e < 0 then 1 else 0) +
           (if register_ret e < 0 then 2 else 0)))"
  by (cases "coherent_dma_mask e = 0"; cases "dev_init_ret e < 0"; cases "connector_ret e < 0";
      cases "pipe_ret e < 0"; cases "register_ret e < 0") (simp_all add: pdrv_probe_def prog_simps)

theorem pdrv_probe_calls_witness:
  "\<exists>t. run (pdrv_probe \<lparr>coherent_dma_mask = 0, dma_ret = 0, dev_init_ret = - 12, connector_ret = - 22,
        pipe_ret = 0, register_ret = 0\<rparr>) sample_fb = (Inr 0, t) \<and> last (calls t) = DevRegister"
  using pdrv_probe_calls [of "\<lparr>coherent_dma_mask = 0, dma_ret = 0, dev_init_ret = - 12, connector_ret = - 22,
        pipe_ret = 0, register_ret = 0\<rparr>" sample_fb] by auto

text \<open>
  The only mode the connector offers, once the device is probed, lies within the limits the
  driver sets for its frame buffers, at their upper end in both directions.
\<close>

theorem mode_within_limits:
  assumes "coherent_dma_mask e \<noteq> 0 \<or> dma_ret e = 0" "run (pdrv_probe e) s = (Inr r, t)"
    and "run (get_modes True True) t = (Inr k, u)"
  shows "k = 1 \<and> probed_modes u = probed_modes t @ [fb_pl111_mode] \<and>
    min_width (config u) \<le> hdisplay fb_pl111_mode \<and> hdisplay fb_pl111_mode = max_width (config u) \<and>
    min_height (config u) \<le> vdisplay fb_pl111_mode \<and> vdisplay fb_pl111_mode = max_height (config u)"
proof -
  have "config t = \<lparr>funcs = Some fbdev_drm_mode_config_funcs, min_width = 24, max_width = 240, min_height = 37, max_height = 320\<rparr>"
    using assms(1,2)
    by (cases "coherent_dma_mask e = 0"; cases "dev_init_ret e < 0"; cases "connector_ret e < 0";
        cases "pipe_ret e < 0"; cases "register_ret e < 0") (auto simp: pdrv_probe_def prog_simps)
  then show ?thesis using assms(3) by (auto simp: get_modes_def prog_simps fb_pl111_mode_def)
qed

theorem mode_within_limits_witness:
  "\<exists>t u. run (pdrv_probe \<lparr>coherent_dma_mask = 1, dma_ret = 0, dev_init_ret = 0, connector_ret = 0,
        pipe_ret = 0, register_ret = 0\<rparr>) sample_fb = (Inr 0, t) \<and>
     run (get_modes True True) t = (Inr 1, u) \<and> hdisplay fb_pl111_mode \<le> max_width (config u)"
proof -
  let ?e = "\<lparr>coherent_dma_mask = 1, dma_ret = 0, dev_init_ret = 0, connector_ret = 0, pipe_ret = 0, register_ret = 0\<rparr>"
  obtain t where t: "run (pdrv_probe ?e) sample_fb = (Inr 0, t)" by (simp add: pdrv_probe_def prog_simps)
  obtain u where u: "run (get_modes True True) t = (Inr 1, u)" by (simp add: get_modes_def prog_simps)
  from mode_within_limits [OF _ t u] t u show ?thesis by simp
qed

text \<open>
  The driver's callbacks keep to themselves: after a probe, whatever sequence of them the core runs
  through the tables it was given, only the log and the list of modes change, and each time the core
  asks for the modes it gets the one mode once.
\<close>

theorem callbacks_only_log:
  assumes "\<forall>f\<in>set fs. f \<in> {enable fbdev_pipe_funcs, disable fbdev_pipe_funcs, update fbdev_pipe_funcs,
      get_modes_fn fbdev_conn_hfunc, release_fn fb_driver}"
  shows "\<exists>t. run (for_each fs (\<lambda>f. seqE (invoke core f) (ret ()))) s = (Inr (), t) \<and>
    t\<lparr>klog := klog s, probed_modes := probed_modes s\<rparr> = s \<and>
    probed_modes t = probed_modes s @ replicate (length (filter (\<lambda>f. f = GetModes) fs)) fb_pl111_mode"
  using assms
proof (induction fs arbitrary: s)
  case (Cons f fs)
  obtain u where u: "run (invoke core f) s = (Inr (if f = GetModes then 1 else 0), u)"
    "u\<lparr>klog := klog s, probed_modes := probed_modes s\<rparr> = s"
    "probed_modes u = probed_modes s @ (if f = GetModes then [fb_pl111_mode] else [])"
    using Cons.prems
    by (auto simp: invoke_def fbdev_pipe_funcs_def fbdev_conn_hfunc_def fb_driver_def fbdev_pipe_enable_def
        fbdev_pipe_disable_def fbdev_pipe_update_def fb_release_def get_modes_def prog_simps)
  obtain t where t: "run (for_each fs (\<lambda>f. seqE (invoke core f) (ret ()))) u = (Inr (), t)"
    "t\<lparr>klog := klog u, probed_modes := probed_modes u\<rparr> = u"
    "probed_modes t = probed_modes u @ replicate (length (filter (\<lambda>f. f = GetModes) fs)) fb_pl111_mode"
    using Cons.IH [of u] Cons.prems by auto
  have "t\<lparr>klog := klog s, probed_modes := probed_modes s\<rparr> = u\<lparr>klog := klog s, probed_modes := probed_modes s\<rparr>"
    using arg_cong [OF t(2), of "\<lambda>x. x\<lparr>klog := klog s, probed_modes := probed_modes s\<rparr>"] by simp
  with u t show ?case by (simp add: run_seqE)
qed simp

theorem callbacks_only_log_witness:
  "\<exists>t. run (for_each [FbdevPipeEnable, GetModes, FbdevPipeDisable] (\<lambda>f. seqE (invoke (\<lambda>_. ret 0) f) (ret ()))) sample_fb = (Inr (), t) \<and>
     probed_modes t = [fb_pl111_mode]"
proof -
  have "\<forall>f\<in>set [FbdevPipeEnable, GetModes, FbdevPipeDisable]. f \<in> {enable fbdev_pipe_funcs, disable fbdev_pipe_funcs,
      update fbdev_pipe_funcs, get_modes_fn fbdev_conn_hfunc, release_fn fb_driver}"
    by (simp add: fbdev_pipe_funcs_def fbdev_conn_hfunc_def)
  from callbacks_only_log [OF this, of "\<lambda>_. ret 0" sample_fb] show ?thesis by (auto simp: sample_fb_def)
qed

text \<open>
  Loading always reports success; unloading takes the driver away but never the platform device,
  which stays registered with its structure inside the unloaded module; and if the driver was never
  registered, unloading it is wrong as well.
\<close>

theorem fb_exit_keeps_device:
  assumes "fst rets = 0" "PlatformDriver ''PL111'' \<notin> set (held s)"
  shows "\<exists>t u. run (fb_init rets) s = (Inr 0, t) \<and> run fb_exit t = (Inr (), u) \<and>
    held u = PlatformDevice ''PL111'' # held s \<and>
    misuses u = misuses s @ (if snd rets = 0 then [] else [Misuse (PlatformDriver ''PL111'')])"
  using assms by (simp add: fb_init_def fb_exit_def prog_simps misuses_def)

theorem fb_exit_keeps_device_witness:
  "\<exists>t u. run (fb_init (0, 0)) sample_fb = (Inr 0, t) \<and> run fb_exit t = (Inr (), u) \<and>
     held u = [PlatformDevice ''PL111'']"
  using fb_exit_keeps_device [of "(0, 0)" sample_fb] by (auto simp: sample_fb_def)

end
