(* ===== verification/Drm_App.thy ===== *)
theory Drm_App
  imports BB_Prelude
begin

text \<open>
  The mode setting program \<open>src/lkml/drm-app/drm_app.c\<close>. What the DRM device answers is an argument:
  one answer per \<open>ioctl\<close> call, the connector's index included; an \<open>ioctl\<close> that fails leaves its
  structure as it was. The arrays of the program keep their sizes, an access outside of them and an
  access to memory that is not mapped end the run. The state holds the three arrays that outlive the
  connector loop, the calls made, and the frame buffers as functions from pixel numbers to pixels.
\<close>

section \<open>Structures\<close>


record modeinfo =
  hdisplay :: u16
  vdisplay :: u16


record create_dumb =
  width :: u32
  height :: u32
  bpp :: u32
  pitch :: u32
  dumb_size :: nat
  handle :: u32

datatype mapping = MAP_FAILED | Mapped

datatype drm_call =
    GetMagic
  | GetResources
  | GetConnector u32
  | CreateDumb u32 u32 u32
  | AddFb u32 u32 u32 u32 u32 u32
  | MapDumb u32
  | MmapFb nat
  | GetEncoder u32
  | GetCrtc u32
  | SetCrtc u32 u32 u64 modeinfo
  | DropMaster
  | Usleep nat

datatype app_stop = ExitCode int | OutOfBounds | SegFault


record drm_st =
  calls :: "drm_call list"
  fb_base :: "mapping option list"
  fb_w :: "nat list"
  fb_h :: "nat list"
  fb_len :: "nat list"
  pixels :: "nat \<Rightarrow> nat \<Rightarrow> u32"

type_synonym 'a drm_prog = "(drm_st, app_stop, 'a) prog"


section \<open>Identifiers in arrays of 64-bit numbers\<close>

text \<open>
  The kernel stores 32-bit identifiers one after the other; the program reads its arrays as ten
  64-bit numbers, two identifiers each on a little-endian machine.
\<close>

fun pack :: "u32 list \<Rightarrow> u64 list" where
  "pack [] = []"
| "pack [x] = [ucast x]"
| "pack (x # y # xs) = (ucast x OR push_bit 32 (ucast y)) # pack xs"

definition id_buf :: "u32 list \<Rightarrow> u64 list" where
  "id_buf ids = pack ids @ replicate (10 - length (pack ids)) 0"


section \<open>One connector\<close>






section \<open>Painting\<close>

definition paint_pixel :: "nat \<Rightarrow> nat \<Rightarrow> u32 \<Rightarrow> unit drm_prog" where
  "paint_pixel j location col =
     bindE (gets (\<lambda>s. fb_base s ! j = Some Mapped \<and> 4 * location + 4 \<le> fb_len s ! j)) (\<lambda>ok.
     if ok then modify (\<lambda>s. s\<lparr>pixels := (pixels s)(j := (pixels s j)(location := col))\<rparr>)
     else throw SegFault)"

definition paint :: "nat \<Rightarrow> u32 \<Rightarrow> unit drm_prog" where
  "paint j col =
     bindE (gets (\<lambda>s. (fb_w s ! j, fb_h s ! j))) (\<lambda>(w, h).
     for_each [0..<h] (\<lambda>y. for_each [0..<w] (\<lambda>x. paint_pixel j (y * w + x) col)))"


section \<open>The program\<close>






section \<open>Lemmas\<close>

lemma for_each_map: "for_each (map f xs) g = for_each xs (\<lambda>x. g (f x))"
  by (induction xs) simp_all

text \<open>Two nested loops over the rows and columns visit the pixels in the order of their numbers.\<close>

lemma for_each_rows:
  "for_each [0..<h] (\<lambda>y. for_each [0..<w] (\<lambda>x. g (y * w + x))) = for_each [0..<h * w] g"
proof (induction h)
  case (Suc h)
  have "[h * w..<h * w + w] = map (\<lambda>x. h * w + x) [0..<w]"
    by (rule nth_equalityI) simp_all
  then have "[0..<Suc h * w] = [0..<h * w] @ map (\<lambda>x. h * w + x) [0..<w]"
    by (simp add: upt_add_eq_append [of 0 "h * w" w] add.commute [of w])
  with Suc show ?case by (simp add: for_each_append for_each_map seqE_ret_unit)
qed simp

definition good_fb :: "drm_st \<Rightarrow> nat \<Rightarrow> bool" where
  "good_fb s j \<longleftrightarrow> fb_base s ! j = Some Mapped \<and> 4 * (fb_h s ! j * fb_w s ! j) \<le> fb_len s ! j"

lemma run_paint_pixels:
  assumes "fb_base s ! j = Some Mapped" "4 * n \<le> fb_len s ! j"
  shows "run (for_each [0..<n] (\<lambda>p. paint_pixel j p col)) s =
    (Inr (), s\<lparr>pixels := (pixels s)(j := \<lambda>p. if p < n then col else pixels s j p)\<rparr>)"
  using assms(2)
proof (induction n)
  case (Suc n)
  let ?t = "\<lambda>n. s\<lparr>pixels := (pixels s)(j := \<lambda>p. if p < n then col else pixels s j p)\<rparr>"
  have "((pixels s)(j := \<lambda>p. if p < n then col else pixels s j p))
      (j := (\<lambda>p. if p < n then col else pixels s j p)(n := col)) =
      (pixels s)(j := \<lambda>p. if p < Suc n then col else pixels s j p)"
    by (auto simp: fun_eq_iff)
  then have "run (paint_pixel j n col) (?t n) = (Inr (), ?t (Suc n))"
    using Suc.prems assms(1) by (simp add: paint_pixel_def run_bindE del: fun_upd_upd)
  moreover have "run (for_each [0..<n] (\<lambda>p. paint_pixel j p col)) s = (Inr (), ?t n)"
    by (rule Suc.IH) (use Suc.prems in simp)
  ultimately show ?case by (simp only: upt_Suc_append for_each_append run_seqE) (simp add: run_seqE fun_upd_def)
qed simp

lemma run_paint:
  assumes "good_fb s j"
  shows "run (paint j col) s = (Inr (), s\<lparr>pixels := (pixels s)(j := \<lambda>p.
    if p < fb_h s ! j * fb_w s ! j then col else pixels s j p)\<rparr>)"
  using assms run_paint_pixels [of s j "fb_h s ! j * fb_w s ! j" col]
  by (simp add: paint_def run_bindE good_fb_def for_each_rows [of _ _ "\<lambda>p. paint_pixel j p col"])

lemma unat_ucast_16_32 [simp]: "unat (ucast (x :: u16) :: u32) = unat x"
proof -
  have "unat x < 2 ^ LENGTH(16)" by (rule unsigned_less)
  then have "take_bit 32 (unat x) = unat x" by (intro take_bit_nat_eq_self) simp
  then show ?thesis by (simp add: unsigned_ucast_eq)
qed

definition fb_inv :: "drm_st \<Rightarrow> bool" where
  "fb_inv s \<longleftrightarrow>
     length (fb_base s) = 50 \<and> length (fb_w s) = 50 \<and> length (fb_h s) = 50 \<and> length (fb_len s) = 50 \<and>
     (\<forall>j<50. fb_base s ! j = None \<or> good_fb s j)"

lemma fb_inv_calls [simp]: "fb_inv (s\<lparr>calls := cs\<rparr>) = fb_inv s"
  by (simp add: fb_inv_def good_fb_def)

lemma fb_inv_pixels [simp]: "fb_inv (s\<lparr>pixels := ps\<rparr>) = fb_inv s"
  by (simp add: fb_inv_def good_fb_def)














lemma length_pack: "length (pack ids) = (length ids + 1) div 2"
  by (induction ids rule: pack.induct) simp_all

lemma length_id_buf: "length ids \<le> 20 \<Longrightarrow> length (id_buf ids) = 10"
  by (simp add: id_buf_def length_pack)

lemma pack_nth:
  "i < length (pack ids) \<Longrightarrow> pack ids ! i =
     ucast (ids ! (2 * i)) OR push_bit 32 (ucast (if 2 * i + 1 < length ids then ids ! (2 * i + 1) else 0))"
proof (induction ids arbitrary: i rule: pack.induct)
  case (3 x y xs)
  then show ?case by (cases i) simp_all
qed auto

lemma pair_eq_201:
  "((ucast (x :: u32) :: u64) OR push_bit 32 (ucast (y :: u32)) = 201) \<longleftrightarrow> x = 201 \<and> y = 0"
proof
  assume eq: "(ucast x :: u64) OR push_bit 32 (ucast y) = 201"
  have "x = ucast ((ucast x :: u64) OR push_bit 32 (ucast y))"
    by (rule bit_word_eqI) (auto simp: bit_simps)
  moreover have "y = ucast (drop_bit 32 ((ucast x :: u64) OR push_bit 32 (ucast y)))"
    by (rule bit_word_eqI) (auto simp: bit_simps dest: bit_imp_le_length)
  ultimately show "x = 201 \<and> y = 0" unfolding eq by (simp add: drop_bit_eq_div)
qed simp

definition fresh_drm :: drm_st where
  "fresh_drm = \<lparr>calls = [], fb_base = replicate 50 None, fb_w = replicate 50 0, fb_h = replicate 50 0,
     fb_len = replicate 50 0, pixels = (\<lambda>_ _. 0)\<rparr>"


section \<open>Properties\<close>




text \<open>
  C37. Painting a mapped buffer gives the chosen colour to exactly the first width times height pixels
  and to no other; a buffer whose mapping failed is painted as well, since only NULL is tested for,
  and the first pixel is a segmentation fault.
\<close>

theorem paint_buffer:
  "(good_fb s j \<longrightarrow> (\<exists>t. run (paint j col) s = (Inr (), t) \<and>
      (\<forall>k p. pixels t k p = (if k = j \<and> p < fb_h s ! j * fb_w s ! j then col else pixels s k p)))) \<and>
   (fb_base s ! j = Some MAP_FAILED \<and> 0 < fb_h s ! j * fb_w s ! j \<longrightarrow>
      run (paint j col) s = (Inl SegFault, s))"
proof (intro conjI impI)
  assume bad: "fb_base s ! j = Some MAP_FAILED \<and> 0 < fb_h s ! j * fb_w s ! j"
  then have "[0..<fb_h s ! j * fb_w s ! j] = 0 # [1..<fb_h s ! j * fb_w s ! j]"
    by (metis One_nat_def upt_conv_Cons)
  then have "run (for_each [0..<fb_h s ! j * fb_w s ! j] (\<lambda>p. paint_pixel j p col)) s = (Inl SegFault, s)"
    using bad by (simp add: run_seqE) (simp add: paint_pixel_def prog_simps)
  then show "run (paint j col) s = (Inl SegFault, s)"
    by (simp add: paint_def run_bindE for_each_rows [of _ _ "\<lambda>p. paint_pixel j p col"])
qed (auto simp: run_paint)

theorem paint_buffer_witness:
  "run (paint 0 7) (fresh_drm\<lparr>fb_base := [Some MAP_FAILED], fb_w := [240], fb_h := [320]\<rparr>) =
     (Inl SegFault, fresh_drm\<lparr>fb_base := [Some MAP_FAILED], fb_w := [240], fb_h := [320]\<rparr>)"
  using paint_buffer [of "fresh_drm\<lparr>fb_base := [Some MAP_FAILED], fb_w := [240], fb_h := [320]\<rparr>" 0 7]
  by simp

text \<open>
  Which connectors pass the test for number 201: the third entry of the array always does,
  whatever connector it belongs to, because it is overwritten; any other entry does only if the
  identifier at twice its index is 201 and the one after it is missing or 0, because two 32-bit
  identifiers share one entry.
\<close>

theorem connector_test:
  assumes "length ids \<le> 20" "i < 10"
  shows "(id_buf ids)[2 := 201] ! i = 201 \<longleftrightarrow>
    i = 2 \<or> 2 * i < length ids \<and> ids ! (2 * i) = 201 \<and> (2 * i + 1 < length ids \<longrightarrow> ids ! (2 * i + 1) = 0)"
proof (cases "i = 2")
  case True
  with assms show ?thesis by (simp add: length_id_buf)
next
  case False
  show ?thesis
  proof (cases "i < length (pack ids)")
    case True
    then have "2 * i < length ids" by (simp add: length_pack)
    with True False show ?thesis
      by (simp add: id_buf_def nth_append pack_nth pair_eq_201)
  next
    case outside: False
    then have "\<not> 2 * i < length ids" by (simp add: length_pack)
    with outside False assms show ?thesis by (simp add: id_buf_def nth_append length_pack)
  qed
qed

theorem connector_test_witness:
  "(id_buf [199, 201, 205])[2 := 201] ! 0 \<noteq> 201 \<and> (id_buf [199, 201, 205])[2 := 201] ! 2 = 201"
  using connector_test [of "[199, 201, 205]" 0] connector_test [of "[199, 201, 205]" 2] by simp

end
