(* ===== verification/Spec2Isabelle.thy ===== *)
theory Spec2Isabelle
  imports Custom_Driver Vid_Stream Vid_Module Grabber_Spec Grabber_Options Capture_Run Dmtimer_Debug Ehrpwm Netfilter Vlan_Packet
    Epm Som_Mmap Gpio Fb_Pl111 Drm_App
begin

text \<open>
  A verification of the programs of \<open>src/lkml\<close>: Linux kernel modules written for the BeagleBone
  (AM335x) and for QEMU, and the user programs that exercise them. The C code is translated function
  by function; names are those of the source, with a suffix where HOL has the name already.

  \<^bold>\<open>The parts of the system and how they meet.\<close>
  A capture driver (\<open>v4l2/vid4linux.c\<close>) offers a fake camera: a kernel thread fills buffers that the
  videobuf2 core queues, and a capture program (\<open>v4l2-app/grabber.c\<close>) sets up, queues and dequeues
  buffers through ioctls. A bus module (\<open>ldm/bus\<close>) registers a bus, a device and driver functions that
  a driver module (\<open>ldm/driver\<close>) uses. A timer driver (\<open>dmtimer/dmtimer.c\<close>) programs a hardware timer
  and raises nested interrupts through an interrupt chip (\<open>dmtimer/irq.c\<close>). A packet filter
  (\<open>netfilter\<close>), a packet capture (\<open>network\<close>) and a sender (\<open>vlan-app\<close>) deal with packets. A
  character device (\<open>mmap\<close>) hands kernel memory to a test program (\<open>mmap-app\<close>). A DRM driver (\<open>drm\<close>)
  and a DRM program (\<open>drm-app\<close>), a PWM driver (\<open>ehrpwm\<close>), a character device with an SPI driver
  (\<open>char-drv\<close>) and a GPIO button (\<open>gpio\<close>) stand alone.

  \<^bold>\<open>How code is modelled.\<close>
  A function is a program (\<open>BB_Prelude\<close>): it takes the state, a record with the module's or process's
  variables, and yields a result or an abrupt end (a kernel oops, a process exit, a failed assertion, a
  segmentation fault) and the new state. What the kernel or the C library answers is an argument. In
  kernel code (\<open>Kernel\<close>) the state carries the resources held and a log of register writes, messages
  and misuses, so that leaks, double releases and accesses outside a mapped window are visible; in the
  programs it carries the sequence of system calls. C integers whose width matters are words. Messages
  are modelled where printing is what a function is for, and left out elsewhere.

  \<^bold>\<open>Theories.\<close>
  \<^item> \<open>BB_Prelude\<close>: programs, weakest preconditions, invariants kept by programs, counted loops.
  \<^item> \<open>Kernel\<close>: resources, register windows, the locales \<open>module_balanced\<close> and \<open>module_lifecycle\<close> for
    modules that give everything back, driver structures.
  \<^item> \<open>C_String\<close>, \<open>Getopt\<close>: string functions, number formats, \<open>getopt_long\<close> with its round trip.
  \<^item> \<open>V4l2_Api\<close>: the V4L2 types both sides use.
  \<^item> \<open>Vid4linux\<close>: the capture driver's structures, frame thread, videobuf2 operations, ioctls and function
    tables; the locale \<open>vb2_driver\<close>, what a capture driver owes the core, interpreted on them.
    \<open>Vid_Stream\<close>: the thread and the core's calls interleaved, as a step relation cut at the spinlock, with
    the buffer invariant and a refinement to an ownership protocol. \<open>Vid_Module\<close>: load and unload.
  \<^item> \<open>Grabber\<close>: the capture program. \<open>Grabber_Run\<close>: its lemmas. \<open>Grabber_Spec\<close>, \<open>Grabber_Options\<close>: its
    properties on any operating system, and those of its command line.
  \<^item> \<open>Capture_Contract\<close>: the V4L2 streaming interface as the locales \<open>capture_queue\<close> and, for user
    pointers, \<open>capture_queue_ptr\<close>; the program's sessions proved safe from them. \<open>Capture_Session\<close>: a
    system around the driver's own operations, which meets the contract (interpretation \<open>vid\<close>).
    \<open>Capture_Rounds\<close>: whole sessions of the program on the driver. \<open>Capture_Run\<close>: every session is a run of
    the interleaved system of \<open>Vid_Stream\<close>, through the locale \<open>capture_keeper\<close> of what a session keeps.
  \<^item> \<open>Custom_Bus\<close>, \<open>Custom_Driver\<close>: the bus and its driver. \<open>Timer_Irq\<close>, \<open>Dmtimer\<close>, \<open>Dmtimer_Debug\<close>: the
    interrupt chip, the timer driver as built, and its \<open>DEBUG\<close> build. \<open>Ehrpwm\<close>: the PWM driver.
  \<^item> \<open>Netfilter\<close>, \<open>Netcapture\<close>, \<open>Vlan_Packet\<close>: packets. \<open>Som_Mmap\<close>: the mapping device and its test program.
    \<open>Epm\<close>, \<open>Gpio\<close>, \<open>Fb_Pl111\<close>, \<open>Drm_App\<close>: the rest.

  \<^bold>\<open>What is shown.\<close>
  \<^item> Capture: no buffer is lost or in two places under any interleaving; the thread works first in first
    out; stopping returns every buffer; on any system that keeps the streaming contract a session hands
    each buffer over once and its assertions hold; on the driver, frame \<open>j\<close> comes from buffer \<open>j mod n\<close> as long
    as the program keeps up, every session is one interleaving of the program's calls with the thread, and a session in which the thread runs dry once ends early; set-up and
    teardown match; options are read back as written.
  \<^item> Drivers: the exact register writes of the timer and PWM probes and of the interrupt handler, each
    inside a mapped window; every error path with what it leaves behind; which modules give back all they
    took, and what the others keep.
  \<^item> Packets and memory: verdicts follow the last command written; what a mapping shows; how often memory
    is freed twice; that the DRM program stays inside its arrays and buffers.

  \<^bold>\<open>Bounds and fuel.\<close>
  Loops that repeat interrupted calls may run forever. The operating system's record has a \<open>patience\<close>: the
  number of interruptions in a row that are looked at; a run that meets more is cut off with
  \<open>Impatient\<close>, which no theorem counts as a normal end. \<open>xioctl_retries\<close> shows that any patience above
  the number of interruptions is enough; \<open>vid_os\<close> interrupts nothing, so 1 is enough there. The printing
  threads count the rounds until they are told to stop; the sender's endless loop is observed after any
  number of rounds. The frame thread and the draining loop end because every round takes a buffer, and are
  defined with that measure.

  \<^bold>\<open>Code outside the repository.\<close>
  The kernel's cores (videobuf2, V4L2, DRM, platform, SPI, network) and the operating system under the
  programs are parameters: answers as arguments, and hypotheses that say what is documented about them.
  \<open>vid_os\<close>, \<open>demo_os\<close> and the sample environments are instances that show the hypotheses can hold. A function
  pointer to a core's helper is its name.

  \<^bold>\<open>Not modelled.\<close>
  Build files, the device tree patch (its node is what \<open>probe_ok\<close> says of the timer's resource) and scripts;
  the code under \<open>SINGLE\<close> in the timer driver and the commented-out code, none of which is compiled;
  prototypes and module metadata; sleeping and timing, except as schedules; memory allocation flags,
  reference counts of modules, and locking beyond the sections the step relation keeps apart.
\<close>

section \<open>The capture program on the capture driver\<close>

text \<open>
  The V4L2 core between the two looks a request up in the driver's table of ioctls, calls the function
  it finds and turns a negative result into -1 with its error number; a request that is not in the
  table fails with \<open>ENOTTY\<close>.
\<close>

definition ioctl_serves :: "string \<Rightarrow> vid_fun \<Rightarrow> bool" where
  "ioctl_serves name f = (map_of fake_ioctl_ops name = Some f)"

definition answer :: "int \<times> 'x \<Rightarrow> 'x \<Rightarrow> 'w \<Rightarrow> int \<times> int \<times> 'x \<times> 'w" where
  "answer r x w = (if fst r < 0 then (- 1, - fst r, x, w) else (fst r, 0, snd r, w))"

definition served_by :: "'w os \<Rightarrow> fake_vid_device \<Rightarrow> bool" where
  "served_by os d \<longleftrightarrow> 0 < patience os \<and>
     (ioctl_serves ''vidioc_querycap'' VidiocQuerycap \<longrightarrow>
        (\<forall>h c w. ioctl_querycap os h c w = answer (vidioc_querycap d) c w)) \<and>
     (ioctl_serves ''vidioc_g_fmt_vid_cap'' VidiocGFmt \<longrightarrow>
        (\<forall>h f w. ioctl_fmt os h VIDIOC_G_FMT f w = answer (vidioc_g_fmt_vid_cap d) f w)) \<and>
     (ioctl_serves ''vidioc_s_fmt_vid_cap'' VidiocSFmt \<longrightarrow>
        (\<forall>h f w. ioctl_fmt os h VIDIOC_S_FMT f w = answer (vidioc_s_fmt_vid_cap, f) f w)) \<and>
     (map_of fake_ioctl_ops ''vidioc_cropcap'' = None \<longrightarrow>
        (\<forall>h c w. ioctl_cropcap os h c w = (- 1, ENOTTY, c, w)))"

lemma ioctl_table [simp]:
  "ioctl_serves ''vidioc_querycap'' VidiocQuerycap" "ioctl_serves ''vidioc_g_fmt_vid_cap'' VidiocGFmt"
  "ioctl_serves ''vidioc_s_fmt_vid_cap'' VidiocSFmt" "map_of fake_ioctl_ops ''vidioc_cropcap'' = None"
  by (simp_all add: ioctl_serves_def fake_ioctl_ops_def)

lemmas grab_run_defs = init_device_def check_capabilities_def reset_crop_def choose_format_def xioctl_def
  syscall_def log_call_def errno_exit_def prog_simps

text \<open>
  C8. The capture program and the capture driver fit together: on a device as the driver sets it up,
  the program accepts the driver's capabilities and format and goes on to set up its buffers, with
  exactly the three calls before that; with user pointers it allocates buffers of 921600 bytes, the
  size of the planes the driver asks the videobuf2 core for. With the option that forces a format it
  always gives up, because the driver refuses every format.
\<close>

theorem grabber_on_driver:
  assumes "served_by os (fresh_device fs)"
  shows "(force_format s \<noteq> 0 \<longrightarrow> fst (run (init_device os cap0) s) = Inl (Grabber.ExitCode 1)) \<and>
    (force_format s = 0 \<and> io s = IO_METHOD_MMAP \<longrightarrow>
      (\<exists>t. run (init_device os cap0) s = run (init_mmap os) t \<and>
         stepped s [QueryCap 0, CropCap (- 1), FmtCall VIDIOC_G_FMT 0] t)) \<and>
    (force_format s = 0 \<and> io s = IO_METHOD_USERPTR \<longrightarrow>
      (\<exists>t. run (init_device os cap0) s = run (init_userp os 921600) t \<and>
         stepped s [QueryCap 0, CropCap (- 1), FmtCall VIDIOC_G_FMT 0] t \<and>
         queue_setup 4 = (0, 4, 1, 921600)))"
proof -
  obtain k where k: "patience os = Suc k" using assms by (cases "patience os") (auto simp: served_by_def)
  have caps: "capabilities (snd (vidioc_querycap d)) AND V4L2_CAP_VIDEO_CAPTURE \<noteq> 0"
    "capabilities (snd (vidioc_querycap d)) AND V4L2_CAP_STREAMING \<noteq> 0"
    "capabilities (snd (vidioc_querycap d)) AND V4L2_CAP_READWRITE \<noteq> 0" "fst (vidioc_querycap d) = 0" for d
    by (simp_all add: vidioc_querycap_def cap_defs Let_def)
  have fmt: "sizeimage (snd (vidioc_g_fmt_vid_cap (fresh_device fs))) = 921600"
    "fst (vidioc_g_fmt_vid_cap (fresh_device fs)) = 0"
    by (simp_all add: vidioc_g_fmt_vid_cap_def Let_def formats_def drop_bit_eq_div)
  show ?thesis
    using assms k caps fmt
    by (cases "io s")
       (auto simp: served_by_def answer_def grab_run_defs stepped_def ENOTTY_def EINTR_def vidioc_s_fmt_vid_cap_def queue_setup_def)
qed

definition driver_os :: "fake_vid_device \<Rightarrow> nat os" where
  "driver_os d = demo_os\<lparr>
     ioctl_querycap := \<lambda>h c w. answer (vidioc_querycap d) c w,
     ioctl_cropcap := \<lambda>h c w. (- 1, ENOTTY, c, w),
     ioctl_fmt := \<lambda>h rq f w. case rq of
        VIDIOC_G_FMT \<Rightarrow> answer (vidioc_g_fmt_vid_cap d) f w
      | VIDIOC_S_FMT \<Rightarrow> answer (vidioc_s_fmt_vid_cap, f) f w\<rparr>"

theorem grabber_on_driver_witness:
  "fst (run (init_device (driver_os (fresh_device (\<lambda>_. sample_frame))) demo_cap) ((initial_grab 0)\<lparr>force_format := 1\<rparr>)) =
     Inl (Grabber.ExitCode 1) \<and>
   (\<exists>t. run (init_device (driver_os (fresh_device (\<lambda>_. sample_frame))) demo_cap) (initial_grab 0) =
       run (init_mmap (driver_os (fresh_device (\<lambda>_. sample_frame)))) t)"
proof -
  have "served_by (driver_os d) d" for d
    by (simp add: served_by_def driver_os_def demo_os_def)
  note ok = this [of "fresh_device (\<lambda>_. sample_frame)"]
  show ?thesis
    using grabber_on_driver [OF ok, of "(initial_grab 0)\<lparr>force_format := 1\<rparr>" demo_cap]
      grabber_on_driver [OF ok, of "initial_grab 0" demo_cap]
    by (auto simp: initial_grab_def)
qed

end
